(* ===== verification/Py_Prelude.thy ===== *)
theory Py_Prelude
  imports Main "HOL-Library.Word"
begin

unbundle bit_operations_syntax

text \<open>
  The part of the Python language and of its standard library that the harness uses,
  shared by every component theory:
  \<^item> exceptions as values: the type \<open>py_error\<close> and \<open>result\<close> (\<open>Inl\<close> an exception that
    propagates, \<open>Inr\<close> a value), sequenced by \<open>bindR\<close>; \<open>catR\<close> evaluates the operands of a
    chain of \<open>+\<close> on byte strings from left to right;
  \<^item> \<open>bytes\<close> as lists of octets (\<open>8 word\<close>), the constructor \<open>bytes([...])\<close>
    (\<open>bytes_of\<close>), indexing and slicing, \<open>int.to_bytes\<close> / \<open>int.from_bytes\<close> and
    \<open>struct.pack\<close> / \<open>struct.unpack\<close> in their big-endian forms;
  \<^item> the facts about them that the components share, collected in \<open>octet_simps\<close>
    (lengths, ranges and round trips of big-endian integers) and \<open>result_simps\<close>.
  Python integers are unbounded, so they are \<open>int\<close>; positions and lengths, which never go
  below zero in this program, are \<open>nat\<close>.
\<close>

named_theorems result_simps \<open>characterisations of successful results\<close>
named_theorems octet_simps \<open>octets, big-endian integers and their lengths\<close>

section \<open>Exceptions as values\<close>

datatype py_error =
    IndexError
  | KeyError
  | ValueError
  | OverflowError
  | TypeError
  | StructError
  | UnicodeEncodeError
  | RuntimeError
  | OSError
  | TimeoutExpired
  | SystemExit

type_synonym 'a result = "py_error + 'a"

definition bindR :: "'a result \<Rightarrow> ('a \<Rightarrow> 'b result) \<Rightarrow> 'b result" where
  "bindR m f = (case m of Inl e \<Rightarrow> Inl e | Inr x \<Rightarrow> f x)"

lemma bindR_simps [simp]:
  "bindR (Inl e) f = Inl e"
  "bindR (Inr x) f = f x"
  by (simp_all add: bindR_def)

lemma bindR_cong [fundef_cong]:
  assumes "m = m'" and "\<And>x. m' = Inr x \<Longrightarrow> f x = f' x"
  shows "bindR m f = bindR m' f'"
  using assms by (cases m') auto

lemma bindR_Inr_iff [result_simps]:
  "bindR m f = Inr y \<longleftrightarrow> (\<exists>x. m = Inr x \<and> f x = Inr y)"
  by (cases m) auto

lemma bindR_Inl_iff:
  "bindR m f = Inl e \<longleftrightarrow> m = Inl e \<or> (\<exists>x. m = Inr x \<and> f x = Inl e)"
  by (cases m) auto

lemma bindR_assoc: "bindR (bindR m f) g = bindR m (\<lambda>x. bindR (f x) g)"
  by (cases m) auto

lemma bindR_return [simp]: "bindR m Inr = m"
  by (cases m) auto

lemma bindR_split:
  "P (bindR m f) \<longleftrightarrow> (\<forall>e. m = Inl e \<longrightarrow> P (Inl e)) \<and> (\<forall>x. m = Inr x \<longrightarrow> P (f x))"
  by (cases m) auto

text \<open>The success test of a result, and the value a caller sees after an \<open>except\<close> clause that
  turns the listed exceptions into \<open>None\<close>.\<close>

definition succeeds :: "'a result \<Rightarrow> bool" where
  "succeeds m = (case m of Inl _ \<Rightarrow> False | Inr _ \<Rightarrow> True)"

lemma succeeds_simps [simp]: "succeeds (Inr x)" "\<not> succeeds (Inl e)"
  by (simp_all add: succeeds_def)

lemma succeeds_iff: "succeeds m \<longleftrightarrow> (\<exists>x. m = Inr x)"
  by (cases m) auto

definition except_None :: "py_error list \<Rightarrow> 'a option result \<Rightarrow> 'a option result" where
  "except_None caught m =
     (case m of Inl e \<Rightarrow> if e \<in> set caught then Inr None else Inl e | Inr v \<Rightarrow> Inr v)"

lemma except_None_simps [simp]:
  "except_None caught (Inr v) = Inr v"
  "except_None caught (Inl e) = (if e \<in> set caught then Inr None else Inl e)"
  by (simp_all add: except_None_def)

lemma except_None_Inl_iff:
  "except_None caught m = Inl e \<longleftrightarrow> m = Inl e \<and> e \<notin> set caught"
  by (cases m) auto

section \<open>Octets and byte strings\<close>

type_synonym octet = "8 word"
type_synonym bytes = "octet list"

fun catR :: "bytes result list \<Rightarrow> bytes result" where
  "catR [] = Inr []"
| "catR (m # ms) = bindR m (\<lambda>b. bindR (catR ms) (\<lambda>bs. Inr (b @ bs)))"

lemma catR_Inr [simp]: "catR (map Inr bss) = Inr (concat bss)"
  by (induction bss) auto

lemma catR_append: "catR (ms @ ns) = bindR (catR ms) (\<lambda>a. bindR (catR ns) (\<lambda>b. Inr (a @ b)))"
  by (induction ms) (auto simp: bindR_assoc)

text \<open>\<open>bytes([x, ...])\<close> refuses a value outside \<open>range(256)\<close>.\<close>

definition bytes_of :: "int list \<Rightarrow> bytes result" where
  "bytes_of xs = (if list_all (\<lambda>x. 0 \<le> x \<and> x < 256) xs then Inr (map word_of_int xs) else Inl ValueError)"

lemma bytes_of_Inr_iff [result_simps]:
  "bytes_of xs = Inr bs \<longleftrightarrow> list_all (\<lambda>x. 0 \<le> x \<and> x < 256) xs \<and> bs = map word_of_int xs"
  by (auto simp: bytes_of_def)

lemma bytes_of_ok:
  "list_all (\<lambda>x. 0 \<le> x \<and> x < 256) xs \<Longrightarrow> bytes_of xs = Inr (map word_of_int xs)"
  by (simp add: bytes_of_def)

text \<open>Indexing \<open>xs[i]\<close> at a position that is never negative, and the slices \<open>xs[a:b]\<close>
  (both bounds non-negative) and \<open>xs[:n]\<close> (where \<open>n\<close> may be negative: it counts from the end).\<close>

definition py_nth :: "'a list \<Rightarrow> nat \<Rightarrow> 'a result" where
  "py_nth xs i = (if i < length xs then Inr (xs ! i) else Inl IndexError)"

definition py_slice :: "'a list \<Rightarrow> nat \<Rightarrow> nat \<Rightarrow> 'a list" where
  "py_slice xs a b = take (b - a) (drop a xs)"

definition py_prefix :: "'a list \<Rightarrow> int \<Rightarrow> 'a list" where
  "py_prefix xs n = take (nat (if n < 0 then int (length xs) + n else n)) xs"

lemma py_nth_Inr_iff [result_simps]: "py_nth xs i = Inr x \<longleftrightarrow> i < length xs \<and> x = xs ! i"
  by (auto simp: py_nth_def)

lemma py_nth_Cons [simp]: "py_nth (x # xs) 0 = Inr x"
  "py_nth (x # xs) (Suc i) = py_nth xs i"
  by (simp_all add: py_nth_def)

lemma py_nth_Nil [simp]: "py_nth [] i = Inl IndexError"
  by (simp add: py_nth_def)

lemma py_nth_numeral [simp]: "py_nth (x # xs) (numeral k) = py_nth xs (pred_numeral k)"
  by (simp add: numeral_eq_Suc)

lemma py_nth_drop: "py_nth xs (p + i) = py_nth (drop p xs) i"
  by (auto simp: py_nth_def)

lemma py_slice_drop: "py_slice xs (p + a) (p + b) = py_slice (drop p xs) a b"
  by (simp add: py_slice_def add.commute)

lemma length_py_slice_le: "length (py_slice xs a b) \<le> b - a"
  by (simp add: py_slice_def)

lemma length_py_slice: "b \<le> length xs \<Longrightarrow> length (py_slice xs a b) = b - a"
  by (simp add: py_slice_def)

section \<open>Big-endian integers\<close>

fun be_octets :: "nat \<Rightarrow> int \<Rightarrow> bytes" where
  "be_octets 0 v = []"
| "be_octets (Suc n) v = word_of_int (v div 256 ^ n) # be_octets n v"

definition int_from_bytes :: "bytes \<Rightarrow> int" where
  "int_from_bytes bs = foldl (\<lambda>acc b. 256 * acc + uint b) 0 bs"

definition int_from_bytes_signed :: "bytes \<Rightarrow> int" where
  "int_from_bytes_signed bs =
     (case bs of
        [] \<Rightarrow> 0
      | b # _ \<Rightarrow> if uint b < 128 then int_from_bytes bs else int_from_bytes bs - 256 ^ length bs)"

text \<open>\<open>v.to_bytes(n, "big")\<close> and its signed form; out of range is an \<open>OverflowError\<close>.\<close>

definition int_to_bytes :: "nat \<Rightarrow> int \<Rightarrow> bytes result" where
  "int_to_bytes n v = (if 0 \<le> v \<and> v < 256 ^ n then Inr (be_octets n v) else Inl OverflowError)"

definition int_to_bytes_signed :: "nat \<Rightarrow> int \<Rightarrow> bytes result" where
  "int_to_bytes_signed n v =
     (if - (2 ^ (8 * n - 1)) \<le> v \<and> v < 2 ^ (8 * n - 1) then Inr (be_octets n v) else Inl OverflowError)"

text \<open>\<open>struct.pack(">B" / ">H" / ">I", v)\<close> and \<open>struct.unpack\<close> of one field of \<open>n\<close> octets:
  both raise \<open>struct.error\<close>, on a value out of range and on a buffer of another length.\<close>

definition pack_be :: "nat \<Rightarrow> int \<Rightarrow> bytes result" where
  "pack_be n v = (if 0 \<le> v \<and> v < 256 ^ n then Inr (be_octets n v) else Inl StructError)"

definition unpack_be :: "nat \<Rightarrow> bytes \<Rightarrow> int result" where
  "unpack_be n bs = (if length bs = n then Inr (int_from_bytes bs) else Inl StructError)"

lemma length_be_octets [simp, octet_simps]: "length (be_octets n v) = n"
  by (induction n) auto

lemma be_octets_eq_Nil [simp]: "be_octets n v = [] \<longleftrightarrow> n = 0"
  by (cases n) auto

lemma int_from_bytes_Nil [simp]: "int_from_bytes [] = 0"
  by (simp add: int_from_bytes_def)

lemma foldl_base256:
  "foldl (\<lambda>acc b. 256 * acc + uint b) a (bs :: bytes) = a * 256 ^ length bs + int_from_bytes bs"
proof (induction bs arbitrary: a)
  case Nil
  then show ?case by simp
next
  case (Cons b bs)
  show ?case
    using Cons.IH [of "256 * a + uint b"] Cons.IH [of "uint b"]
    by (simp add: int_from_bytes_def algebra_simps)
qed

lemma int_from_bytes_Cons [octet_simps]:
  "int_from_bytes (b # bs) = uint b * 256 ^ length bs + int_from_bytes bs"
  using foldl_base256 [of "uint b" bs] by (simp add: int_from_bytes_def)

lemma int_from_bytes_append:
  "int_from_bytes (as @ bs) = int_from_bytes as * 256 ^ length bs + int_from_bytes bs"
  using foldl_base256 [of "int_from_bytes as" bs] by (simp add: int_from_bytes_def)

lemma int_from_bytes_nonneg [simp]: "0 \<le> int_from_bytes bs"
  by (induction bs) (auto simp: int_from_bytes_Cons)

lemma octet_uint_bound: "uint (b :: octet) < 256"
  using uint_lt2p [of b] by simp

lemma int_from_bytes_bound: "int_from_bytes bs < 256 ^ length bs"
proof (induction bs)
  case Nil
  then show ?case by simp
next
  case (Cons b bs)
  have "uint b \<le> 255"
    using octet_uint_bound [of b] by simp
  then have "uint b * 256 ^ length bs \<le> 255 * 256 ^ length bs"
    by (intro mult_right_mono) auto
  with Cons.IH have "uint b * 256 ^ length bs + int_from_bytes bs < 256 * 256 ^ length bs"
    by linarith
  then show ?case
    by (simp add: int_from_bytes_Cons)
qed

lemma uint_octet_of_int: "uint (word_of_int v :: octet) = v mod 256"
  by (simp add: uint_word_of_int)

lemma int_from_be_octets_mod: "int_from_bytes (be_octets n v) = v mod 256 ^ n"
proof (induction n)
  case 0
  then show ?case by simp
next
  case (Suc n)
  have "v mod 256 ^ Suc n = 256 ^ n * (v div 256 ^ n mod 256) + v mod 256 ^ n"
    by (metis mult.commute power_Suc zmod_zmult2_eq zero_le_numeral)
  with Suc show ?case
    by (simp add: int_from_bytes_Cons uint_octet_of_int mult.commute)
qed

lemma int_from_be_octets [octet_simps]:
  "0 \<le> v \<Longrightarrow> v < 256 ^ n \<Longrightarrow> int_from_bytes (be_octets n v) = v"
  by (simp add: int_from_be_octets_mod)

lemma int_from_bytes_inject:
  "length as = length bs \<Longrightarrow> int_from_bytes as = int_from_bytes bs \<Longrightarrow> as = bs"
proof (induction as bs rule: list_induct2)
  case Nil
  then show ?case by simp
next
  case (Cons a as b bs)
  let ?k = "256 ^ length as :: int"
  have q: "(uint x * ?k + int_from_bytes xs) div ?k = uint x"
    if "length xs = length as" for x :: octet and xs
    using int_from_bytes_bound [of xs] that by simp
  have eq: "uint a * ?k + int_from_bytes as = uint b * ?k + int_from_bytes bs"
    using Cons.prems Cons.hyps by (simp add: int_from_bytes_Cons)
  then have "uint a = uint b"
    using q [of as a] q [of bs b] Cons.hyps by simp
  with eq Cons.IH show ?case
    by (simp add: word_uint_eq_iff)
qed

lemma be_octets_int_from_bytes [octet_simps]:
  "length bs = n \<Longrightarrow> be_octets n (int_from_bytes bs) = bs"
  using int_from_bytes_bound [of bs]
  by (intro int_from_bytes_inject) (auto simp: int_from_be_octets_mod)

lemma mod_shift_negative:
  fixes v m :: int
  assumes "- m \<le> v" and "v < 0"
  shows "v mod m = v + m"
proof -
  have "v mod m = (v + m) mod m"
    by simp
  also have "\<dots> = v + m"
    using assms by (intro mod_pos_pos_trivial) auto
  finally show ?thesis .
qed

lemma div_between:
  fixes v k :: int
  assumes "0 < k" and "a * k \<le> v" and "v < b * k"
  shows "a \<le> v div k" and "v div k < b"
proof -
  have v: "v = v div k * k + v mod k" and r: "v mod k < k" "0 \<le> v mod k"
    using assms(1) by auto
  have "(v div k + 1) * k = v div k * k + k"
    by (simp add: algebra_simps)
  then have "a * k < (v div k + 1) * k" and "v div k * k < b * k"
    using v r assms(2,3) by linarith+
  then show "a \<le> v div k" and "v div k < b"
    using assms(1) by (auto simp only: mult_less_cancel_right)
qed

lemma int_from_be_octets_signed [octet_simps]:
  assumes "0 < n" and "- (2 ^ (8 * n - 1)) \<le> v" and "v < 2 ^ (8 * n - 1)"
  shows "int_from_bytes_signed (be_octets n v) = v"
proof -
  obtain m where n: "n = Suc m"
    using assms(1) by (cases n) auto
  let ?k = "256 ^ m :: int"
  have half: "(2 :: int) ^ (8 * n - 1) = 128 * ?k"
    by (simp add: n power_add power_mult)
  have head: "uint (hd (be_octets n v)) = v div ?k mod 256"
    by (simp add: n uint_octet_of_int)
  have whole: "int_from_bytes (be_octets n v) = v mod (256 * ?k)"
    by (simp add: n int_from_be_octets_mod del: be_octets.simps)
  have shape: "int_from_bytes_signed (be_octets n v) =
    (if v div ?k mod 256 < 128 then v mod (256 * ?k) else v mod (256 * ?k) - 256 * ?k)"
    using whole head by (simp add: int_from_bytes_signed_def n)
  show ?thesis
  proof (cases "0 \<le> v")
    case True
    have "0 \<le> v div ?k" and "v div ?k < 128"
      using True assms(3) half div_between [of ?k 0 v 128] by auto
    moreover have "128 * ?k < 256 * ?k"
      by simp
    then have "v < 256 * ?k"
      using assms(3) half by linarith
    ultimately show ?thesis
      using True shape by simp
  next
    case False
    have "- 128 \<le> v div ?k" and "v div ?k < 0"
      using False assms(2) half div_between [of ?k "- 128" v 0] by auto
    then have "v div ?k mod 256 = v div ?k + 256" and "128 \<le> v div ?k + 256"
      by (auto intro: mod_shift_negative)
    moreover have "v mod (256 * ?k) = v + 256 * ?k"
      using False assms(2) half by (intro mod_shift_negative) auto
    ultimately show ?thesis
      using shape by simp
  qed
qed

section \<open>Bitwise arithmetic on disjoint fields\<close>

lemma or_eq_add_disjoint:
  fixes a b :: int
  assumes "a mod 2 ^ k = 0" and "0 \<le> b" and "b < 2 ^ k"
  shows "a OR b = a + b"
proof -
  have False if ai: "bit a i" and bi: "bit b i" for i
  proof -
    have "take_bit k b = b"
      using assms by (simp add: take_bit_int_eq_self)
    with bi have "i < k"
      by (metis bit_take_bit_iff)
    moreover have "\<not> bit (take_bit k a) i"
      using assms(1) by (simp add: take_bit_eq_mod)
    ultimately show False
      using ai by (simp add: bit_take_bit_iff)
  qed
  then have "a AND b = 0"
    by (auto simp: bit_eq_iff bit_and_iff)
  then show ?thesis
    by (simp add: disjunctive_add_eq_or)
qed

lemma tag_octet_or:
  assumes "0 \<le> l" and "l < 8"
  shows "push_bit 4 t OR 8 OR l = 16 * t + 8 + (l :: int)"
proof -
  have "8 OR l = 8 + l"
    using assms by (intro or_eq_add_disjoint [where k = 3]) auto
  moreover have "push_bit 4 t OR (8 + l) = push_bit 4 t + (8 + l)"
    using assms by (intro or_eq_add_disjoint [where k = 4]) (auto simp: push_bit_eq_mult)
  ultimately show ?thesis
    by (simp add: push_bit_eq_mult or.assoc)
qed

end
