(* ===== verification/Py_Text.thy ===== *)
theory Py_Text
  imports Py_Prelude
begin

text \<open>
  Python text: a \<open>str\<close> is its sequence of code points; \<open>text.encode("utf-8")\<close>, which raises
  on a surrogate, and \<open>octets.decode("utf-8", errors="replace")\<close>, which never raises and puts
  U+FFFD for each maximal ill-formed part, as the CPython decoder does. The theorem of the
  theory is that decoding undoes encoding, also in front of other octets.
\<close>

type_synonym pystr = "nat list"

definition REPLACEMENT_CHARACTER :: nat where
  "REPLACEMENT_CHARACTER = 0xFFFD"

definition is_scalar :: "nat \<Rightarrow> bool" where
  "is_scalar c \<longleftrightarrow> c < 0xD800 \<or> (0xE000 \<le> c \<and> c < 0x110000)"

definition utf8_char :: "nat \<Rightarrow> bytes result" where
  "utf8_char c =
     (if \<not> is_scalar c then Inl UnicodeEncodeError
      else if c < 0x80 then Inr [of_nat c]
      else if c < 0x800 then Inr [of_nat (0xC0 + c div 64), of_nat (0x80 + c mod 64)]
      else if c < 0x10000 then
        Inr [of_nat (0xE0 + c div 4096), of_nat (0x80 + c div 64 mod 64), of_nat (0x80 + c mod 64)]
      else
        Inr [of_nat (0xF0 + c div 262144), of_nat (0x80 + c div 4096 mod 64),
             of_nat (0x80 + c div 64 mod 64), of_nat (0x80 + c mod 64)])"

definition utf8_encode :: "pystr \<Rightarrow> bytes result" where
  "utf8_encode s = catR (map utf8_char s)"

text \<open>One step of the decoder: the code point, and how many octets after the first it takes.\<close>

definition is_continuation :: "octet \<Rightarrow> bool" where
  "is_continuation b \<longleftrightarrow> 0x80 \<le> unat b \<and> unat b < 0xC0"

definition low_bits :: "octet \<Rightarrow> nat" where
  "low_bits b = unat b - 0x80"

definition utf8_next2 :: "nat \<Rightarrow> bytes \<Rightarrow> nat \<times> nat" where
  "utf8_next2 ch rest =
     (case rest of
        [] \<Rightarrow> (REPLACEMENT_CHARACTER, 0)
      | c2 # _ \<Rightarrow>
          if is_continuation c2 then ((ch - 0xC0) * 64 + low_bits c2, 1)
          else (REPLACEMENT_CHARACTER, 0))"

definition utf8_next3 :: "nat \<Rightarrow> bytes \<Rightarrow> nat \<times> nat" where
  "utf8_next3 ch rest =
     (case rest of
        [] \<Rightarrow> (REPLACEMENT_CHARACTER, 0)
      | c2 # rest2 \<Rightarrow>
          if \<not> is_continuation c2 \<or> (if unat c2 < 0xA0 then ch = 0xE0 else ch = 0xED)
          then (REPLACEMENT_CHARACTER, 0)
          else (case rest2 of
                  [] \<Rightarrow> (REPLACEMENT_CHARACTER, 1)
                | c3 # _ \<Rightarrow>
                    if is_continuation c3
                    then ((ch - 0xE0) * 4096 + low_bits c2 * 64 + low_bits c3, 2)
                    else (REPLACEMENT_CHARACTER, 1)))"

definition utf8_next4 :: "nat \<Rightarrow> bytes \<Rightarrow> nat \<times> nat" where
  "utf8_next4 ch rest =
     (case rest of
        [] \<Rightarrow> (REPLACEMENT_CHARACTER, 0)
      | c2 # rest2 \<Rightarrow>
          if \<not> is_continuation c2 \<or> (if unat c2 < 0x90 then ch = 0xF0 else ch = 0xF4)
          then (REPLACEMENT_CHARACTER, 0)
          else (case rest2 of
                  [] \<Rightarrow> (REPLACEMENT_CHARACTER, 1)
                | c3 # rest3 \<Rightarrow>
                    if \<not> is_continuation c3 then (REPLACEMENT_CHARACTER, 1)
                    else (case rest3 of
                            [] \<Rightarrow> (REPLACEMENT_CHARACTER, 2)
                          | c4 # _ \<Rightarrow>
                              if is_continuation c4
                              then ((ch - 0xF0) * 262144 + low_bits c2 * 4096 + low_bits c3 * 64
                                      + low_bits c4, 3)
                              else (REPLACEMENT_CHARACTER, 2))))"

definition utf8_next :: "octet \<Rightarrow> bytes \<Rightarrow> nat \<times> nat" where
  "utf8_next b rest =
     (let ch = unat b in
      if ch < 0x80 then (ch, 0)
      else if ch < 0xC2 then (REPLACEMENT_CHARACTER, 0)
      else if ch < 0xE0 then utf8_next2 ch rest
      else if ch < 0xF0 then utf8_next3 ch rest
      else if ch < 0xF5 then utf8_next4 ch rest
      else (REPLACEMENT_CHARACTER, 0))"

function utf8_decode_replace :: "bytes \<Rightarrow> pystr" where
  "utf8_decode_replace [] = []"
| "utf8_decode_replace (b # rest) =
     fst (utf8_next b rest) # utf8_decode_replace (drop (snd (utf8_next b rest)) rest)"
  by pat_completeness auto
termination
  by (relation "measure length") auto

lemma unat_of_nat_octet: "n < 256 \<Longrightarrow> unat (of_nat n :: octet) = n"
  by (simp add: unat_of_nat)

lemma continuation_octet:
  assumes "n < 64"
  shows "is_continuation (of_nat (0x80 + n))" and "low_bits (of_nat (0x80 + n)) = n"
    and "unat (of_nat (0x80 + n) :: octet) = 0x80 + n"
proof -
  show u: "unat (of_nat (0x80 + n) :: octet) = 0x80 + n"
    using assms by (intro unat_of_nat_octet) simp
  show "is_continuation (of_nat (0x80 + n))" and "low_bits (of_nat (0x80 + n)) = n"
    using assms u by (simp_all only: is_continuation_def low_bits_def) auto
qed

lemma split64:
  fixes c :: nat
  shows "c = c div 4096 * 4096 + c div 64 mod 64 * 64 + c mod 64"
    and "c = c div 262144 * 262144 + c div 4096 mod 64 * 4096 + c div 64 mod 64 * 64 + c mod 64"
proof -
  have d: "c div 4096 = c div 64 div 64" "c div 262144 = c div 64 div 64 div 64"
    by (simp_all add: div_mult2_eq [symmetric])
  have step: "n = 64 * (n div 64) + n mod 64" for n :: nat
    by simp
  show "c = c div 4096 * 4096 + c div 64 mod 64 * 64 + c mod 64"
    unfolding d using step [of c] step [of "c div 64"] by linarith
  show "c = c div 262144 * 262144 + c div 4096 mod 64 * 4096 + c div 64 mod 64 * 64 + c mod 64"
    unfolding d using step [of c] step [of "c div 64"] step [of "c div 64 div 64"] by linarith
qed

lemma utf8_decode_char:
  assumes "utf8_char c = Inr bs"
  shows "utf8_decode_replace (bs @ rest) = c # utf8_decode_replace rest"
proof -
  have scalar: "is_scalar c"
    using assms by (auto simp: utf8_char_def split: if_splits)
  consider (one) "c < 0x80" | (two) "0x80 \<le> c" "c < 0x800"
    | (three) "0x800 \<le> c" "c < 0x10000" | (four) "0x10000 \<le> c" "c < 0x110000"
    using scalar unfolding is_scalar_def by linarith
  then show ?thesis
  proof cases
    case one
    with assms scalar have "bs = [of_nat c]"
      by (simp add: utf8_char_def)
    with one show ?thesis
      by (simp add: utf8_next_def unat_of_nat_octet)
  next
    case two
    have d: "c div 64 < 32" "2 \<le> c div 64"
      using two by auto
    from two assms scalar have "bs = [of_nat (0xC0 + c div 64), of_nat (0x80 + c mod 64)]"
      by (simp add: utf8_char_def)
    moreover have "unat (of_nat (0xC0 + c div 64) :: octet) = 0xC0 + c div 64"
      using d by (intro unat_of_nat_octet) simp
    ultimately show ?thesis
      using d continuation_octet [of "c mod 64"]
      by (simp add: utf8_next_def utf8_next2_def Let_def)
  next
    case three
    define a b d where "a = c div 4096" and "b = c div 64 mod 64" and "d = c mod 64"
    have c: "c = a * 4096 + b * 64 + d"
      unfolding a_def b_def d_def by (rule split64)
    have small: "a < 16" "b < 64" "d < 64"
      using three by (auto simp: a_def b_def d_def)
    have ok: "if 0x80 + b < 0xA0 then 0xE0 + a \<noteq> 0xE0 else 0xE0 + a \<noteq> 0xED"
      using three(1) scalar small unfolding c is_scalar_def by (auto split: if_splits)
    have bs: "bs = [of_nat (0xE0 + a), of_nat (0x80 + b), of_nat (0x80 + d)]"
      using three assms scalar by (simp add: utf8_char_def a_def b_def d_def)
    have ch: "unat (of_nat (0xE0 + a) :: octet) = 0xE0 + a"
      using small by (intro unat_of_nat_octet) simp
    have "utf8_next (of_nat (0xE0 + a)) (of_nat (0x80 + b) # of_nat (0x80 + d) # rest) = (c, 2)"
      unfolding utf8_next_def utf8_next3_def Let_def ch
      using small ok continuation_octet [of b] continuation_octet [of d] by (auto simp: c)
    then show ?thesis
      by (simp add: bs numeral_eq_Suc del: of_nat_add)
  next
    case four
    define a b d e where "a = c div 262144" and "b = c div 4096 mod 64"
      and "d = c div 64 mod 64" and "e = c mod 64"
    have c: "c = a * 262144 + b * 4096 + d * 64 + e"
      unfolding a_def b_def d_def e_def by (rule split64)
    have small: "a < 5" "b < 64" "d < 64" "e < 64"
      using four by (auto simp: a_def b_def d_def e_def)
    have ok: "if 0x80 + b < 0x90 then 0xF0 + a \<noteq> 0xF0 else 0xF0 + a \<noteq> 0xF4"
      using four small unfolding c by (auto split: if_splits)
    have bs: "bs = [of_nat (0xF0 + a), of_nat (0x80 + b), of_nat (0x80 + d), of_nat (0x80 + e)]"
      using four assms scalar by (simp add: utf8_char_def a_def b_def d_def e_def)
    have ch: "unat (of_nat (0xF0 + a) :: octet) = 0xF0 + a"
      using small by (intro unat_of_nat_octet) simp
    have "utf8_next (of_nat (0xF0 + a))
        (of_nat (0x80 + b) # of_nat (0x80 + d) # of_nat (0x80 + e) # rest) = (c, 3)"
      unfolding utf8_next_def utf8_next4_def Let_def ch
      using small ok continuation_octet [of b] continuation_octet [of d] continuation_octet [of e]
      by (auto simp: c)
    then show ?thesis
      by (simp add: bs numeral_eq_Suc del: of_nat_add)
  qed
qed

lemma utf8_decode_encode:
  "utf8_encode cs = Inr bs \<Longrightarrow> utf8_decode_replace (bs @ rest) = cs @ utf8_decode_replace rest"
proof (induction cs arbitrary: bs)
  case Nil
  then show ?case by (simp add: utf8_encode_def)
next
  case (Cons c cs)
  then obtain a bs' where "utf8_char c = Inr a" and "utf8_encode cs = Inr bs'" and "bs = a @ bs'"
    by (auto simp: utf8_encode_def result_simps)
  then show ?case
    using Cons.IH [of bs'] utf8_decode_char [of c a "bs' @ rest"] by simp
qed

lemma utf8_encode_ok: "succeeds (utf8_encode cs) \<longleftrightarrow> list_all is_scalar cs"
proof (induction cs)
  case Nil
  then show ?case by (simp add: utf8_encode_def)
next
  case (Cons c cs)
  have "succeeds (utf8_char c) \<longleftrightarrow> is_scalar c"
    by (simp add: utf8_char_def)
  then show ?case
    using Cons by (cases "utf8_char c"; cases "utf8_encode cs") (auto simp: utf8_encode_def)
qed

end
