(* ===== verification/Py_Float.thy ===== *)
theory Py_Float
  imports Py_Prelude
begin

text \<open>
  Python floats and their binary32 wire form. A \<open>float\<close> is its IEEE 754 binary64 pattern;
  \<open>struct.unpack(">f", ...)\<close> widens a binary32 pattern, which is exact, and
  \<open>struct.pack(">f", x)\<close> narrows to the nearest binary32, ties to even, and raises
  \<open>OverflowError\<close> when a finite \<open>x\<close> would round to an infinity. A NaN keeps its sign and the
  high bits of its payload and comes out quiet, the IEEE rule for a format conversion.
  The theorem of the theory: narrowing undoes widening on every pattern that is not a NaN.
\<close>

type_synonym pyfloat = "64 word"

fun log2_floor :: "nat \<Rightarrow> nat" where
  "log2_floor n = (if n \<le> 1 then 0 else Suc (log2_floor (n div 2)))"

declare log2_floor.simps [simp del]

text \<open>\<open>m\<close> divided by \<open>2 ^ k\<close>, rounded to nearest, ties to even.\<close>

definition round_half_even :: "nat \<Rightarrow> nat \<Rightarrow> nat" where
  "round_half_even m k =
     (let q = m div 2 ^ k; r = m mod 2 ^ k in
      if 2 * r < 2 ^ k \<or> (2 * r = 2 ^ k \<and> even q) then q else q + 1)"

definition widen_magnitude :: "nat \<Rightarrow> nat" where
  "widen_magnitude w =
     (let e = w div 2 ^ 23; f = w mod 2 ^ 23 in
      if e = 255 then 2047 * 2 ^ 52 + (if f = 0 then 0 else (f mod 2 ^ 22 + 2 ^ 22) * 2 ^ 29)
      else if e = 0 then
        (if f = 0 then 0
         else let k = log2_floor f in (k + 874) * 2 ^ 52 + (f - 2 ^ k) * 2 ^ (52 - k))
      else (e + 896) * 2 ^ 52 + f * 2 ^ 29)"

definition narrow_magnitude :: "nat \<Rightarrow> nat option" where
  "narrow_magnitude d =
     (let e = d div 2 ^ 52; f = d mod 2 ^ 52; m = 2 ^ 52 + f in
      if e = 2047 then Some (255 * 2 ^ 23 + (if f = 0 then 0 else f div 2 ^ 29 mod 2 ^ 22 + 2 ^ 22))
      else if e = 0 then Some 0
      else let w = (if 897 \<le> e then (e - 896) * 2 ^ 23 + round_half_even m 29 - 2 ^ 23
                    else round_half_even m (29 + (897 - e)))
           in if 255 * 2 ^ 23 \<le> w then None else Some w)"

definition float_of_single :: "nat \<Rightarrow> pyfloat" where
  "float_of_single w = of_nat (w div 2 ^ 31 * 2 ^ 63 + widen_magnitude (w mod 2 ^ 31))"

definition single_of_float :: "pyfloat \<Rightarrow> nat option" where
  "single_of_float x =
     (case narrow_magnitude (unat x mod 2 ^ 63) of
        None \<Rightarrow> None
      | Some w \<Rightarrow> Some (unat x div 2 ^ 63 * 2 ^ 31 + w))"

definition unpack_f :: "bytes \<Rightarrow> pyfloat result" where
  "unpack_f bs = bindR (unpack_be 4 bs) (\<lambda>v. Inr (float_of_single (nat v)))"

definition pack_f :: "pyfloat \<Rightarrow> bytes result" where
  "pack_f x =
     (case single_of_float x of None \<Rightarrow> Inl OverflowError | Some w \<Rightarrow> Inr (be_octets 4 (int w)))"

definition unpack_d :: "bytes \<Rightarrow> pyfloat result" where
  "unpack_d bs = bindR (unpack_be 8 bs) (\<lambda>v. Inr (word_of_int v))"

text \<open>The floats that a binary32 holds exactly, NaNs apart.\<close>

definition is_single :: "pyfloat \<Rightarrow> bool" where
  "is_single x \<longleftrightarrow> (case single_of_float x of None \<Rightarrow> False | Some w \<Rightarrow> float_of_single w = x)"

definition is_nan_single :: "nat \<Rightarrow> bool" where
  "is_nan_single w \<longleftrightarrow> 255 * 2 ^ 23 < w mod 2 ^ 31"

section \<open>Widening and narrowing\<close>

lemma log2_floor_bounds:
  "0 < n \<Longrightarrow> 2 ^ log2_floor n \<le> n \<and> n < 2 ^ Suc (log2_floor n)"
proof (induction n rule: log2_floor.induct)
  case (1 n)
  show ?case
  proof (cases "n \<le> 1")
    case True
    with "1.prems" show ?thesis by (simp add: log2_floor.simps [of n])
  next
    case False
    with "1.IH" have "2 ^ log2_floor (n div 2) \<le> n div 2 \<and> n div 2 < 2 ^ Suc (log2_floor (n div 2))"
      by simp
    then have "2 * 2 ^ log2_floor (n div 2) \<le> n \<and> n < 2 * 2 ^ Suc (log2_floor (n div 2))"
      by linarith
    with False show ?thesis by (simp add: log2_floor.simps [of n])
  qed
qed

lemma round_half_even_exact: "round_half_even (q * 2 ^ k) k = q"
  by (simp add: round_half_even_def Let_def)

lemma div_mod_split:
  fixes q r b :: nat
  assumes "r < b"
  shows "(q * b + r) div b = q" and "(q * b + r) mod b = r"
  using assms by auto

lemma narrow_widen_magnitude:
  assumes "w \<le> 255 * 2 ^ 23"
  shows "narrow_magnitude (widen_magnitude w) = Some w"
proof -
  define e f where "e = w div 2 ^ 23" and "f = w mod 2 ^ 23"
  have w: "w = e * 2 ^ 23 + f" and f: "f < 2 ^ 23"
    by (simp_all add: e_def f_def)
  consider (inf) "e = 255" "f = 0" | (zero) "e = 0" "f = 0" | (subnormal) "e = 0" "0 < f"
    | (normal) "1 \<le> e" "e \<le> 254"
    using assms w by fastforce
  then show ?thesis
  proof cases
    case inf
    then show ?thesis
      by (simp add: w widen_magnitude_def narrow_magnitude_def)
  next
    case zero
    then show ?thesis
      by (simp add: w widen_magnitude_def narrow_magnitude_def)
  next
    case normal
    have d: "widen_magnitude w = (e + 896) * 2 ^ 52 + f * 2 ^ 29"
      using normal unfolding widen_magnitude_def e_def [symmetric] f_def [symmetric] Let_def by simp
    have small: "f * 2 ^ 29 < 2 ^ 52"
      using f by simp
    have q: "widen_magnitude w div 2 ^ 52 = e + 896" and r: "widen_magnitude w mod 2 ^ 52 = f * 2 ^ 29"
      unfolding d using small by (rule div_mod_split)+
    have "(2 ^ 52 + f * 2 ^ 29 :: nat) = (2 ^ 23 + f) * 2 ^ 29"
      by simp
    then have rounded: "round_half_even (2 ^ 52 + f * 2 ^ 29) 29 = 2 ^ 23 + f"
      by (metis round_half_even_exact)
    show ?thesis
      unfolding narrow_magnitude_def q r Let_def rounded using normal f w by simp
  next
    case subnormal
    define k where "k = log2_floor f"
    have k: "2 ^ k \<le> f" "f < 2 ^ Suc k"
      using log2_floor_bounds [of f] subnormal by (auto simp: k_def)
    have "k < 23"
      using k(1) f by (metis le_less_trans power_less_imp_less_exp one_less_numeral_iff semiring_norm(76))
    have split: "(2 :: nat) ^ 52 = 2 ^ k * 2 ^ (52 - k)"
      using \<open>k < 23\<close> by (simp flip: power_add)
    have d: "widen_magnitude w = (k + 874) * 2 ^ 52 + (f - 2 ^ k) * 2 ^ (52 - k)"
      using subnormal unfolding widen_magnitude_def e_def [symmetric] f_def [symmetric] Let_def k_def
      by simp
    have small: "(f - 2 ^ k) * 2 ^ (52 - k) < 2 ^ 52"
      unfolding split using k by (intro mult_strict_right_mono) auto
    have q: "widen_magnitude w div 2 ^ 52 = k + 874"
      and r: "widen_magnitude w mod 2 ^ 52 = (f - 2 ^ k) * 2 ^ (52 - k)"
      unfolding d using small by (rule div_mod_split)+
    have "2 ^ 52 + (f - 2 ^ k) * 2 ^ (52 - k) = f * 2 ^ (52 - k)"
      unfolding split using k by (simp add: algebra_simps flip: add_mult_distrib2)
    moreover have "29 + (897 - (k + 874)) = 52 - k"
      using \<open>k < 23\<close> by simp
    ultimately have rounded:
        "round_half_even (2 ^ 52 + (f - 2 ^ k) * 2 ^ (52 - k)) (29 + (897 - (k + 874))) = f"
      by (simp only: round_half_even_exact)
    show ?thesis
      unfolding narrow_magnitude_def q r Let_def rounded using subnormal f w \<open>k < 23\<close> by simp
  qed
qed

lemma log2_floor_less: "0 < f \<Longrightarrow> f < 2 ^ n \<Longrightarrow> log2_floor f < n"
  using log2_floor_bounds [of f] by (metis le_less_trans power_less_imp_less_exp one_less_numeral_iff semiring_norm(76))

lemma widen_magnitude_bound:
  assumes "w \<le> 255 * 2 ^ 23"
  shows "widen_magnitude w < 2 ^ 63"
proof -
  have top: "(q * 2 ^ 52 + r :: nat) < 2 ^ 63" if "q < 2048" and "r < 2 ^ 52" for q r
  proof -
    have "q * 2 ^ 52 + r < (q + 1) * 2 ^ 52"
      using that(2) by simp
    also have "\<dots> \<le> 2048 * 2 ^ 52"
      using that(1) by (intro mult_right_mono) auto
    finally show ?thesis by simp
  qed
  define e f where "e = w div 2 ^ 23" and "f = w mod 2 ^ 23"
  have e: "e \<le> 255" and f: "f < 2 ^ 23" and w: "w = e * 2 ^ 23 + f"
    using assms by (auto simp: e_def f_def)
  consider (big) "e = 255" "f = 0" | (zero) "e = 0" "f = 0" | (sub) "e = 0" "0 < f" | (normal) "e \<noteq> 0" "e \<noteq> 255"
    using assms w e by fastforce
  then show ?thesis
  proof cases
    case sub
    have k: "log2_floor f < 23"
      using sub f by (intro log2_floor_less) auto
    have "f - 2 ^ log2_floor f < 2 ^ log2_floor f"
      using log2_floor_bounds [of f] sub by auto
    then have "(f - 2 ^ log2_floor f) * 2 ^ (52 - log2_floor f) < 2 ^ log2_floor f * 2 ^ (52 - log2_floor f)"
      by (intro mult_strict_right_mono) auto
    then have "(f - 2 ^ log2_floor f) * 2 ^ (52 - log2_floor f) < 2 ^ 52"
      using k by (simp flip: power_add)
    moreover have "widen_magnitude w =
        (log2_floor f + 874) * 2 ^ 52 + (f - 2 ^ log2_floor f) * 2 ^ (52 - log2_floor f)"
      using sub unfolding widen_magnitude_def e_def [symmetric] f_def [symmetric] Let_def by simp
    ultimately show ?thesis
      using k by (simp only: top)
  next
    case normal
    then have "widen_magnitude w = (e + 896) * 2 ^ 52 + f * 2 ^ 29"
      unfolding widen_magnitude_def e_def [symmetric] f_def [symmetric] Let_def by simp
    moreover have "e + 896 < 2048" and "f * 2 ^ 29 < 2 ^ 52"
      using e f by auto
    ultimately show ?thesis
      by (simp only: top)
  qed (simp_all add: w widen_magnitude_def)
qed

lemma single_of_float_of_single:
  assumes "w < 2 ^ 32" and "\<not> is_nan_single w"
  shows "single_of_float (float_of_single w) = Some w"
proof -
  have m: "w mod 2 ^ 31 \<le> 255 * 2 ^ 23"
    using assms(2) by (simp add: is_nan_single_def)
  have b: "widen_magnitude (w mod 2 ^ 31) < 2 ^ 63"
    using m by (rule widen_magnitude_bound)
  have s: "w div 2 ^ 31 < 2"
    using assms(1) by simp
  then have "w div 2 ^ 31 * 2 ^ 63 \<le> 1 * 2 ^ 63"
    by (intro mult_right_mono) auto
  then have "w div 2 ^ 31 * 2 ^ 63 + widen_magnitude (w mod 2 ^ 31) < 2 ^ 64"
    using b by simp
  then have u: "unat (float_of_single w) = w div 2 ^ 31 * 2 ^ 63 + widen_magnitude (w mod 2 ^ 31)"
    unfolding float_of_single_def unat_of_nat by simp
  have "w = w div 2 ^ 31 * 2 ^ 31 + w mod 2 ^ 31"
    by simp
  then show ?thesis
    unfolding single_of_float_def u div_mod_split [OF b] narrow_widen_magnitude [OF m] by simp
qed

lemma is_single_float_of_single:
  "w < 2 ^ 32 \<Longrightarrow> \<not> is_nan_single w \<Longrightarrow> is_single (float_of_single w)"
  by (simp add: is_single_def single_of_float_of_single)

lemma narrow_magnitude_bound: "narrow_magnitude d = Some w \<Longrightarrow> w < 2 ^ 31"
  by (auto simp: narrow_magnitude_def Let_def split: if_splits)

lemma single_of_float_bound: "single_of_float x = Some w \<Longrightarrow> w < 2 ^ 32"
proof -
  assume "single_of_float x = Some w"
  then obtain v where v: "narrow_magnitude (unat x mod 2 ^ 63) = Some v"
      and w: "w = unat x div 2 ^ 63 * 2 ^ 31 + v"
    by (auto simp: single_of_float_def split: option.splits)
  have "unat x < 2 ^ 64"
    using unsigned_less [of x] by simp
  then have "unat x div 2 ^ 63 < 2"
    by (simp add: less_mult_imp_div_less)
  then have "unat x div 2 ^ 63 * 2 ^ 31 \<le> 1 * 2 ^ 31"
    by (intro mult_right_mono) auto
  with narrow_magnitude_bound [OF v] show ?thesis
    by (simp add: w)
qed

lemma pack_f_length: "pack_f x = Inr bs \<Longrightarrow> length bs = 4"
  by (auto simp: pack_f_def split: option.splits)

lemma is_single_pack_ok: "is_single x \<Longrightarrow> succeeds (pack_f x)"
  by (auto simp: is_single_def pack_f_def split: option.splits)

lemma unpack_pack_f: "is_single x \<Longrightarrow> pack_f x = Inr bs \<Longrightarrow> unpack_f bs = Inr x"
  using single_of_float_bound [of x]
  by (auto simp: is_single_def pack_f_def unpack_f_def unpack_be_def int_from_be_octets
      split: option.splits)

end
