(* ===== verification/Codec_Encode.thy ===== *)
theory Codec_Encode
  imports Py_Prelude Py_Text Py_Float
begin

unbundle bit_operations_syntax

text \<open>
  The encoders of \<open>wiretest/codec.py\<close> in the order of the source: the numbers of the standard,
  BVLL messages (Annex J), NPDUs (clause 6), tagged primitives (clause 20.2) and the APDUs of
  the services the harness sends. Each encoder returns \<open>bytes result\<close>: the octets, or the
  exception Python raises on a value that does not fit. Where the source writes
  \<open>(tag << 4) | 0x08 | n\<close> the definition does too, on unbounded integers.
\<close>

section \<open>Numbers\<close>

abbreviation (input) BVLC_TYPE :: int where "BVLC_TYPE \<equiv> 0x81"
abbreviation (input) BVLC_RESULT :: int where "BVLC_RESULT \<equiv> 0x00"
abbreviation (input) BVLC_WRITE_BROADCAST_DISTRIBUTION_TABLE :: int where "BVLC_WRITE_BROADCAST_DISTRIBUTION_TABLE \<equiv> 0x01"
abbreviation (input) BVLC_READ_BROADCAST_DISTRIBUTION_TABLE :: int where "BVLC_READ_BROADCAST_DISTRIBUTION_TABLE \<equiv> 0x02"
abbreviation (input) BVLC_READ_BROADCAST_DISTRIBUTION_TABLE_ACK :: int where "BVLC_READ_BROADCAST_DISTRIBUTION_TABLE_ACK \<equiv> 0x03"
abbreviation (input) BVLC_FORWARDED_NPDU :: int where "BVLC_FORWARDED_NPDU \<equiv> 0x04"
abbreviation (input) BVLC_REGISTER_FOREIGN_DEVICE :: int where "BVLC_REGISTER_FOREIGN_DEVICE \<equiv> 0x05"
abbreviation (input) BVLC_READ_FOREIGN_DEVICE_TABLE :: int where "BVLC_READ_FOREIGN_DEVICE_TABLE \<equiv> 0x06"
abbreviation (input) BVLC_READ_FOREIGN_DEVICE_TABLE_ACK :: int where "BVLC_READ_FOREIGN_DEVICE_TABLE_ACK \<equiv> 0x07"
abbreviation (input) BVLC_DELETE_FOREIGN_DEVICE_TABLE_ENTRY :: int where "BVLC_DELETE_FOREIGN_DEVICE_TABLE_ENTRY \<equiv> 0x08"
abbreviation (input) BVLC_DISTRIBUTE_BROADCAST_TO_NETWORK :: int where "BVLC_DISTRIBUTE_BROADCAST_TO_NETWORK \<equiv> 0x09"
abbreviation (input) BVLC_ORIGINAL_UNICAST :: int where "BVLC_ORIGINAL_UNICAST \<equiv> 0x0A"
abbreviation (input) BVLC_ORIGINAL_BROADCAST :: int where "BVLC_ORIGINAL_BROADCAST \<equiv> 0x0B"

definition BVLC_FUNCTIONS_WITH_NPDU :: "int list" where
  "BVLC_FUNCTIONS_WITH_NPDU =
     [BVLC_FORWARDED_NPDU, BVLC_DISTRIBUTE_BROADCAST_TO_NETWORK, BVLC_ORIGINAL_UNICAST, BVLC_ORIGINAL_BROADCAST]"

abbreviation (input) PDU_CONFIRMED_REQUEST :: int where "PDU_CONFIRMED_REQUEST \<equiv> 0x0"
abbreviation (input) PDU_UNCONFIRMED_REQUEST :: int where "PDU_UNCONFIRMED_REQUEST \<equiv> 0x1"
abbreviation (input) PDU_SIMPLE_ACK :: int where "PDU_SIMPLE_ACK \<equiv> 0x2"
abbreviation (input) PDU_COMPLEX_ACK :: int where "PDU_COMPLEX_ACK \<equiv> 0x3"
abbreviation (input) PDU_ERROR :: int where "PDU_ERROR \<equiv> 0x5"
abbreviation (input) PDU_REJECT :: int where "PDU_REJECT \<equiv> 0x6"
abbreviation (input) PDU_ABORT :: int where "PDU_ABORT \<equiv> 0x7"

abbreviation (input) SERVICE_ADD_LIST_ELEMENT :: int where "SERVICE_ADD_LIST_ELEMENT \<equiv> 8"
abbreviation (input) SERVICE_REMOVE_LIST_ELEMENT :: int where "SERVICE_REMOVE_LIST_ELEMENT \<equiv> 9"
abbreviation (input) SERVICE_READ_PROPERTY :: int where "SERVICE_READ_PROPERTY \<equiv> 12"
abbreviation (input) SERVICE_WRITE_PROPERTY :: int where "SERVICE_WRITE_PROPERTY \<equiv> 15"
abbreviation (input) SERVICE_READ_PROPERTY_MULTIPLE :: int where "SERVICE_READ_PROPERTY_MULTIPLE \<equiv> 14"
abbreviation (input) SERVICE_REINITIALIZE_DEVICE :: int where "SERVICE_REINITIALIZE_DEVICE \<equiv> 20"
abbreviation (input) SERVICE_I_AM :: int where "SERVICE_I_AM \<equiv> 0"
abbreviation (input) SERVICE_WHO_IS :: int where "SERVICE_WHO_IS \<equiv> 8"
abbreviation (input) SERVICE_WRITE_GROUP :: int where "SERVICE_WRITE_GROUP \<equiv> 10"

abbreviation (input) OBJECT_TYPE_ANALOG_INPUT :: int where "OBJECT_TYPE_ANALOG_INPUT \<equiv> 0"
abbreviation (input) OBJECT_TYPE_ANALOG_OUTPUT :: int where "OBJECT_TYPE_ANALOG_OUTPUT \<equiv> 1"
abbreviation (input) OBJECT_TYPE_DEVICE :: int where "OBJECT_TYPE_DEVICE \<equiv> 8"
abbreviation (input) PROPERTY_OBJECT_IDENTIFIER :: int where "PROPERTY_OBJECT_IDENTIFIER \<equiv> 75"
abbreviation (input) PROPERTY_OBJECT_LIST :: int where "PROPERTY_OBJECT_LIST \<equiv> 76"
abbreviation (input) PROPERTY_OBJECT_NAME :: int where "PROPERTY_OBJECT_NAME \<equiv> 77"
abbreviation (input) PROPERTY_PRESENT_VALUE :: int where "PROPERTY_PRESENT_VALUE \<equiv> 85"

abbreviation (input) ERROR_CLASS_OBJECT :: int where "ERROR_CLASS_OBJECT \<equiv> 1"
abbreviation (input) ERROR_CLASS_PROPERTY :: int where "ERROR_CLASS_PROPERTY \<equiv> 2"
abbreviation (input) ERROR_CODE_UNKNOWN_OBJECT :: int where "ERROR_CODE_UNKNOWN_OBJECT \<equiv> 31"
abbreviation (input) ERROR_CODE_UNKNOWN_PROPERTY :: int where "ERROR_CODE_UNKNOWN_PROPERTY \<equiv> 32"
abbreviation (input) ERROR_CODE_WRITE_ACCESS_DENIED :: int where "ERROR_CODE_WRITE_ACCESS_DENIED \<equiv> 40"
abbreviation (input) ERROR_CODE_INVALID_ARRAY_INDEX :: int where "ERROR_CODE_INVALID_ARRAY_INDEX \<equiv> 42"
abbreviation (input) REJECT_REASON_UNRECOGNIZED_SERVICE :: int where "REJECT_REASON_UNRECOGNIZED_SERVICE \<equiv> 9"
abbreviation (input) ABORT_REASON_SEGMENTATION_NOT_SUPPORTED :: int where "ABORT_REASON_SEGMENTATION_NOT_SUPPORTED \<equiv> 4"
abbreviation (input) MAX_INSTANCE :: int where "MAX_INSTANCE \<equiv> 0x3FFFFF"

abbreviation (input) TAG_NULL :: int where "TAG_NULL \<equiv> 0"
abbreviation (input) TAG_BOOLEAN :: int where "TAG_BOOLEAN \<equiv> 1"
abbreviation (input) TAG_UNSIGNED :: int where "TAG_UNSIGNED \<equiv> 2"
abbreviation (input) TAG_SIGNED :: int where "TAG_SIGNED \<equiv> 3"
abbreviation (input) TAG_REAL :: int where "TAG_REAL \<equiv> 4"
abbreviation (input) TAG_DOUBLE :: int where "TAG_DOUBLE \<equiv> 5"
abbreviation (input) TAG_OCTET_STRING :: int where "TAG_OCTET_STRING \<equiv> 6"
abbreviation (input) TAG_CHARACTER_STRING :: int where "TAG_CHARACTER_STRING \<equiv> 7"
abbreviation (input) TAG_BIT_STRING :: int where "TAG_BIT_STRING \<equiv> 8"
abbreviation (input) TAG_ENUMERATED :: int where "TAG_ENUMERATED \<equiv> 9"
abbreviation (input) TAG_OBJECT_IDENTIFIER :: int where "TAG_OBJECT_IDENTIFIER \<equiv> 12"

section \<open>BVLL messages and NPDUs\<close>

definition bvll :: "int \<Rightarrow> bytes \<Rightarrow> bytes result" where
  "bvll function body =
     catR [pack_be 1 BVLC_TYPE, pack_be 1 function, pack_be 2 (4 + int (length body)), Inr body]"

definition bvlc :: "bytes \<Rightarrow> bool \<Rightarrow> bytes result" where
  "bvlc npdu_octets broadcast =
     bvll (if broadcast then BVLC_ORIGINAL_BROADCAST else BVLC_ORIGINAL_UNICAST) npdu_octets"

definition forwarded_npdu :: "bytes \<Rightarrow> bytes \<Rightarrow> bytes result" where
  "forwarded_npdu originating_mac npdu_octets = bvll BVLC_FORWARDED_NPDU (originating_mac @ npdu_octets)"

definition distribute_broadcast_to_network :: "bytes \<Rightarrow> bytes result" where
  "distribute_broadcast_to_network npdu_octets = bvll BVLC_DISTRIBUTE_BROADCAST_TO_NETWORK npdu_octets"

definition register_foreign_device :: "int \<Rightarrow> bytes result" where
  "register_foreign_device time_to_live =
     bindR (pack_be 2 time_to_live) (bvll BVLC_REGISTER_FOREIGN_DEVICE)"

definition read_broadcast_distribution_table :: "bytes result" where
  "read_broadcast_distribution_table = bvll BVLC_READ_BROADCAST_DISTRIBUTION_TABLE []"

definition read_foreign_device_table :: "bytes result" where
  "read_foreign_device_table = bvll BVLC_READ_FOREIGN_DEVICE_TABLE []"

definition delete_foreign_device_table_entry :: "bytes \<Rightarrow> bytes result" where
  "delete_foreign_device_table_entry entry_mac = bvll BVLC_DELETE_FOREIGN_DEVICE_TABLE_ENTRY entry_mac"

definition write_broadcast_distribution_table :: "(bytes \<times> bytes) list \<Rightarrow> bytes result" where
  "write_broadcast_distribution_table entries =
     bvll BVLC_WRITE_BROADCAST_DISTRIBUTION_TABLE (concat (map (\<lambda>(address, mask). address @ mask) entries))"

text \<open>\<open>npdu\<close> with its keyword arguments in the order of the source: the network layer message type,
  DNET, DADR, SNET, SADR, \<open>expecting_reply\<close> and the hop count (255 when the caller gives none).\<close>

definition npdu :: "bytes \<Rightarrow> int option \<Rightarrow> int option \<Rightarrow> bytes \<Rightarrow> int option \<Rightarrow> bytes \<Rightarrow> bool \<Rightarrow> int \<Rightarrow> bytes result" where
  "npdu payload network_message dnet dadr snet sadr expecting_reply hop_count =
     (let control = (if network_message \<noteq> None then 0x80 else 0)
                 OR (if dnet \<noteq> None then 0x20 else 0)
                 OR (if snet \<noteq> None then 0x08 else 0)
                 OR (if expecting_reply then 0x04 else 0) :: int
      in catR
        [bytes_of [0x01, control],
         (case dnet of None \<Rightarrow> Inr [] | Some d \<Rightarrow> catR [pack_be 2 d, pack_be 1 (int (length dadr)), Inr dadr]),
         (case snet of None \<Rightarrow> Inr [] | Some s \<Rightarrow> catR [pack_be 2 s, pack_be 1 (int (length sadr)), Inr sadr]),
         (case dnet of None \<Rightarrow> Inr [] | Some _ \<Rightarrow> bytes_of [hop_count]),
         (case network_message of None \<Rightarrow> Inr [] | Some m \<Rightarrow> bytes_of [m]),
         Inr payload])"

abbreviation npdu_plain :: "bytes \<Rightarrow> bytes result" where
  "npdu_plain payload \<equiv> npdu payload None None [] None [] False 255"

section \<open>Tagged primitives\<close>

definition object_id :: "int \<Rightarrow> int \<Rightarrow> bytes result" where
  "object_id object_type instance_number = pack_be 4 (push_bit 22 object_type OR instance_number)"

fun unsigned_octets_from :: "nat list \<Rightarrow> int \<Rightarrow> bytes result" where
  "unsigned_octets_from [] v = Inl ValueError"
| "unsigned_octets_from (n # ns) v =
     (if v < push_bit (8 * n) 1 then int_to_bytes n v else unsigned_octets_from ns v)"

definition unsigned_octets :: "int \<Rightarrow> bytes result" where
  "unsigned_octets v = unsigned_octets_from [1, 2, 3, 4] v"

definition context_unsigned :: "int \<Rightarrow> int \<Rightarrow> bytes result" where
  "context_unsigned tag v =
     bindR (unsigned_octets v) (\<lambda>body. catR [bytes_of [push_bit 4 tag OR 0x08 OR int (length body)], Inr body])"

definition context_object_id :: "int \<Rightarrow> int \<Rightarrow> int \<Rightarrow> bytes result" where
  "context_object_id tag object_type instance_number =
     catR [bytes_of [push_bit 4 tag OR 0x08 OR 4], object_id object_type instance_number]"

definition context_octet_string :: "int \<Rightarrow> bytes \<Rightarrow> bytes result" where
  "context_octet_string tag octets =
     (if length octets < 5 then catR [bytes_of [push_bit 4 tag OR 0x08 OR int (length octets)], Inr octets]
      else catR [bytes_of [push_bit 4 tag OR 0x08 OR 5, int (length octets)], Inr octets])"

definition opening_tag :: "int \<Rightarrow> bytes result" where
  "opening_tag tag = bytes_of [push_bit 4 tag OR 0x0E]"

definition closing_tag :: "int \<Rightarrow> bytes result" where
  "closing_tag tag = bytes_of [push_bit 4 tag OR 0x0F]"

definition application_unsigned :: "int \<Rightarrow> bytes result" where
  "application_unsigned v =
     bindR (unsigned_octets v) (\<lambda>body. catR [bytes_of [0x20 OR int (length body)], Inr body])"

definition application_enumerated :: "int \<Rightarrow> bytes result" where
  "application_enumerated v =
     bindR (unsigned_octets v) (\<lambda>body. catR [bytes_of [0x90 OR int (length body)], Inr body])"

definition application_null :: "bytes result" where
  "application_null = bytes_of [0x00]"

definition application_boolean :: "bool \<Rightarrow> bytes result" where
  "application_boolean v = bytes_of [if v then 0x11 else 0x10]"

definition application_real :: "pyfloat \<Rightarrow> bytes result" where
  "application_real v = catR [bytes_of [0x44], pack_f v]"

definition application_object_id :: "int \<Rightarrow> int \<Rightarrow> bytes result" where
  "application_object_id object_type instance_number = catR [bytes_of [0xC4], object_id object_type instance_number]"

definition application_character_string :: "pystr \<Rightarrow> bytes result" where
  "application_character_string s =
     bindR (utf8_encode s) (\<lambda>encoded. let body = 0x00 # encoded in
       if length body < 5 then catR [bytes_of [0x70 OR int (length body)], Inr body]
       else catR [bytes_of [0x75, int (length body)], Inr body])"

section \<open>APDUs\<close>

definition confirmed_request :: "int \<Rightarrow> int \<Rightarrow> bytes \<Rightarrow> bytes result" where
  "confirmed_request invoke_id service parameters =
     catR [bytes_of [0x00, 0x05, invoke_id, service], Inr parameters]"

text \<open>An optional parameter: nothing when absent.\<close>

definition optional :: "('a \<Rightarrow> bytes result) \<Rightarrow> 'a option \<Rightarrow> bytes result" where
  "optional encode v = (case v of None \<Rightarrow> Inr [] | Some x \<Rightarrow> encode x)"

lemma optional_simps [simp]: "optional f None = Inr []" "optional f (Some x) = f x"
  by (simp_all add: optional_def)

definition read_property_request :: "int \<Rightarrow> int \<Rightarrow> int \<Rightarrow> int \<Rightarrow> int option \<Rightarrow> bytes result" where
  "read_property_request invoke_id object_type instance_number property_identifier array_index =
     bindR (catR [context_object_id 0 object_type instance_number, context_unsigned 1 property_identifier,
                  optional (context_unsigned 2) array_index])
       (confirmed_request invoke_id SERVICE_READ_PROPERTY)"

definition write_property_request ::
    "int \<Rightarrow> int \<Rightarrow> int \<Rightarrow> int \<Rightarrow> bytes \<Rightarrow> int option \<Rightarrow> int option \<Rightarrow> bytes result" where
  "write_property_request invoke_id object_type instance_number property_identifier value_octets priority array_index =
     bindR (catR [context_object_id 0 object_type instance_number, context_unsigned 1 property_identifier,
                  optional (context_unsigned 2) array_index,
                  opening_tag 3, Inr value_octets, closing_tag 3,
                  optional (context_unsigned 4) priority])
       (confirmed_request invoke_id SERVICE_WRITE_PROPERTY)"

definition reinitialize_device_request :: "int \<Rightarrow> int \<Rightarrow> pystr option \<Rightarrow> bytes result" where
  "reinitialize_device_request invoke_id state password =
     bindR (catR [context_unsigned 0 state,
                  optional (\<lambda>p. bindR (utf8_encode p) (\<lambda>encoded. let body = 0x00 # encoded in
                    catR [if length body < 5 then bytes_of [0x18 OR int (length body)]
                          else bytes_of [0x1D, int (length body)], Inr body])) password])
       (confirmed_request invoke_id SERVICE_REINITIALIZE_DEVICE)"

definition read_property_ack :: "int \<Rightarrow> int \<Rightarrow> int \<Rightarrow> int \<Rightarrow> bytes \<Rightarrow> bytes result" where
  "read_property_ack invoke_id object_type instance_number property_identifier value_octets =
     catR [bytes_of [0x30, invoke_id, SERVICE_READ_PROPERTY],
           context_object_id 0 object_type instance_number, context_unsigned 1 property_identifier,
           opening_tag 3, Inr value_octets, closing_tag 3]"

definition error_pdu :: "int \<Rightarrow> int \<Rightarrow> int \<Rightarrow> int \<Rightarrow> bytes result" where
  "error_pdu invoke_id service error_class error_code =
     catR [bytes_of [0x50, invoke_id, service], application_enumerated error_class, application_enumerated error_code]"

text \<open>\<open>who_is()\<close> without limits, or with both (the source passes them together).\<close>

definition who_is :: "(int \<times> int) option \<Rightarrow> bytes result" where
  "who_is limits =
     catR [bytes_of [0x10, SERVICE_WHO_IS],
           optional (\<lambda>(low, high). catR [context_unsigned 0 low, context_unsigned 1 high]) limits]"

definition i_am :: "int \<Rightarrow> int \<Rightarrow> int \<Rightarrow> int \<Rightarrow> bytes result" where
  "i_am device_instance vendor_identifier max_apdu segmentation =
     catR [bytes_of [0x10, SERVICE_I_AM], application_object_id OBJECT_TYPE_DEVICE device_instance,
           application_unsigned max_apdu, application_enumerated segmentation,
           application_unsigned vendor_identifier]"

text \<open>One entry of a property reference list: a bare identifier, or a pair with an array index.\<close>

datatype property_reference = Bare int | Pair int "int option"

fun reference_parts :: "property_reference \<Rightarrow> int \<times> int option" where
  "reference_parts (Bare p) = (p, None)"
| "reference_parts (Pair p i) = (p, i)"

definition read_access_specification :: "int \<Rightarrow> int \<Rightarrow> property_reference list \<Rightarrow> bytes result" where
  "read_access_specification object_type instance_number property_identifiers =
     catR ([context_object_id 0 object_type instance_number, opening_tag 1] @
           map (\<lambda>reference. case reference_parts reference of (property_identifier, array_index) \<Rightarrow>
                  catR [context_unsigned 0 property_identifier, optional (context_unsigned 1) array_index])
               property_identifiers @
           [closing_tag 1])"

definition list_element_request :: "int \<Rightarrow> int \<Rightarrow> int \<Rightarrow> int \<Rightarrow> int \<Rightarrow> bytes list \<Rightarrow> bytes result" where
  "list_element_request invoke_id service object_type instance_number property_identifier elements =
     bindR (catR [context_object_id 0 object_type instance_number, context_unsigned 1 property_identifier,
                  opening_tag 3, Inr (concat elements), closing_tag 3])
       (confirmed_request invoke_id service)"

definition simple_ack :: "int \<Rightarrow> int \<Rightarrow> bytes result" where
  "simple_ack invoke_id service = bytes_of [push_bit 4 PDU_SIMPLE_ACK, invoke_id, service]"

definition reject_pdu :: "int \<Rightarrow> int \<Rightarrow> bytes result" where
  "reject_pdu invoke_id reason = bytes_of [push_bit 4 PDU_REJECT, invoke_id, reason]"

definition abort_pdu :: "int \<Rightarrow> int \<Rightarrow> bool \<Rightarrow> bytes result" where
  "abort_pdu invoke_id reason server =
     bytes_of [push_bit 4 PDU_ABORT OR (if server then 1 else 0), invoke_id, reason]"

section \<open>Further primitives\<close>

fun signed_octets_from :: "nat list \<Rightarrow> int \<Rightarrow> bytes result" where
  "signed_octets_from [] v = Inl ValueError"
| "signed_octets_from (n # ns) v =
     (if - push_bit (8 * n - 1) 1 \<le> v \<and> v < push_bit (8 * n - 1) 1 then int_to_bytes_signed n v
      else signed_octets_from ns v)"

definition signed_octets :: "int \<Rightarrow> bytes result" where
  "signed_octets v = signed_octets_from [1, 2, 3, 4] v"

definition application_signed :: "int \<Rightarrow> bytes result" where
  "application_signed v =
     bindR (signed_octets v) (\<lambda>body. catR [bytes_of [0x30 OR int (length body)], Inr body])"

definition application_octet_string :: "bytes \<Rightarrow> bytes result" where
  "application_octet_string octets =
     (if length octets < 5 then catR [bytes_of [0x60 OR int (length octets)], Inr octets]
      else if length octets < 254 then catR [bytes_of [0x65, int (length octets)], Inr octets]
      else catR [bytes_of [0x65, 254], pack_be 2 (int (length octets)), Inr octets])"

definition context_signed :: "int \<Rightarrow> int \<Rightarrow> bytes result" where
  "context_signed tag v =
     bindR (signed_octets v) (\<lambda>body. catR [bytes_of [push_bit 4 tag OR 0x08 OR int (length body)], Inr body])"

definition context_real :: "int \<Rightarrow> pyfloat \<Rightarrow> bytes result" where
  "context_real tag v = catR [bytes_of [push_bit 4 tag OR 0x08 OR 4], pack_f v]"

definition context_boolean :: "int \<Rightarrow> bool \<Rightarrow> bytes result" where
  "context_boolean tag v = bytes_of [push_bit 4 tag OR 0x08 OR 1, if v then 1 else 0]"

text \<open>The loop of \<open>application_bit_string\<close> over a \<open>bytearray\<close>: bit \<open>index\<close> of the string is bit
  \<open>7 - index mod 8\<close> of octet \<open>index div 8\<close>.\<close>

fun set_bits_from :: "bool list \<Rightarrow> nat \<Rightarrow> bytes \<Rightarrow> bytes" where
  "set_bits_from [] index octets = octets"
| "set_bits_from (b # bs) index octets =
     set_bits_from bs (Suc index)
       (if b then octets[index div 8 := octets ! (index div 8) OR drop_bit (index mod 8) 0x80] else octets)"

definition bit_string_body :: "bool list \<Rightarrow> bytes result" where
  "bit_string_body bits =
     (let octets = set_bits_from bits 0 (replicate ((length bits + 7) div 8) 0) in
      catR [bytes_of [int (length octets) * 8 - int (length bits)], Inr octets])"

definition application_bit_string :: "bool list \<Rightarrow> bytes result" where
  "application_bit_string bits =
     bindR (bit_string_body bits) (\<lambda>body. catR [bytes_of [0x80 OR int (length body)], Inr body])"

definition context_bit_string :: "int \<Rightarrow> bool list \<Rightarrow> bytes result" where
  "context_bit_string tag bits =
     bindR (application_bit_string bits) (\<lambda>encoded. let body = drop 1 encoded in
       catR [bytes_of [push_bit 4 tag OR 0x08 OR int (length body)], Inr body])"

definition status_flags :: "bool list \<Rightarrow> bytes result" where
  "status_flags bits = application_bit_string bits"

definition application_date :: "int \<Rightarrow> int \<Rightarrow> int \<Rightarrow> int \<Rightarrow> bytes result" where
  "application_date year month day weekday = bytes_of [0xA4, year - 1900, month, day, weekday]"

definition application_time :: "int \<Rightarrow> int \<Rightarrow> int \<Rightarrow> int \<Rightarrow> bytes result" where
  "application_time hour minute second hundredths = bytes_of [0xB4, hour, minute, second, hundredths]"

definition context_character_string :: "int \<Rightarrow> pystr \<Rightarrow> bytes result" where
  "context_character_string tag s =
     bindR (utf8_encode s) (\<lambda>encoded. let body = 0x00 # encoded in
       if length body < 5 then catR [bytes_of [push_bit 4 tag OR 0x08 OR int (length body)], Inr body]
       else catR [bytes_of [push_bit 4 tag OR 0x08 OR 5, int (length body)], Inr body])"

definition context_enumerated :: "int \<Rightarrow> int \<Rightarrow> bytes result" where
  "context_enumerated tag v = context_unsigned tag v"

section \<open>ReadPropertyMultiple-ACK and WriteGroup\<close>

definition property_result :: "int \<times> bytes option \<Rightarrow> bytes result" where
  "property_result r = (case r of (property_identifier, value_octets) \<Rightarrow>
     catR [context_unsigned 2 property_identifier,
           (case value_octets of
              None \<Rightarrow> catR [opening_tag 5, application_enumerated ERROR_CLASS_PROPERTY,
                            application_enumerated ERROR_CODE_UNKNOWN_PROPERTY, closing_tag 5]
            | Some v \<Rightarrow> catR [opening_tag 4, Inr v, closing_tag 4])])"

definition object_results :: "int \<times> int \<times> (int \<times> bytes option) list \<Rightarrow> bytes result" where
  "object_results r = (case r of (object_type, instance_number, properties) \<Rightarrow>
     catR ([context_object_id 0 object_type instance_number, opening_tag 1] @
           map property_result properties @ [closing_tag 1]))"

definition read_property_multiple_ack ::
    "int \<Rightarrow> (int \<times> int \<times> (int \<times> bytes option) list) list \<Rightarrow> bytes result" where
  "read_property_multiple_ack invoke_id results =
     bindR (catR (map object_results results)) (\<lambda>body.
       catR [bytes_of [push_bit 4 PDU_COMPLEX_ACK, invoke_id, SERVICE_READ_PROPERTY_MULTIPLE], Inr body])"

definition write_group_request ::
    "int \<Rightarrow> int \<Rightarrow> (int \<times> bytes \<times> int option) list \<Rightarrow> bool option \<Rightarrow> bytes result" where
  "write_group_request group_number write_priority change_list inhibit_delay =
     bindR (catR (map (\<lambda>(channel, value_octets, overriding_priority).
                     catR [context_unsigned 0 channel, optional (context_unsigned 1) overriding_priority,
                           Inr value_octets]) change_list)) (\<lambda>change_octets.
     bindR (catR [context_unsigned 0 group_number, context_unsigned 1 write_priority,
                  opening_tag 2, Inr change_octets, closing_tag 2,
                  optional (\<lambda>d. bytes_of [0x39, if d then 1 else 0]) inhibit_delay]) (\<lambda>parameters.
     catR [bytes_of [push_bit 4 PDU_UNCONFIRMED_REQUEST, SERVICE_WRITE_GROUP], Inr parameters]))"

end
