(* ===== verification/Codec_Tags.thy ===== *)
theory Codec_Tags
  imports Codec_Encode
begin

unbundle bit_operations_syntax

text \<open>
  \<open>read_tag\<close>, the reader every decoder of the harness is a loop over (\<open>wiretest/codec.py\<close>), and
  what its callers rely on. The laws: a successful read starts inside the data and advances
  (\<open>read_tag_progress\<close>), it depends only on the rest of the data (\<open>read_tag_drop\<close>), octets
  after a tag that ends inside the data do not change it (\<open>read_tag_append\<close>), and which
  exceptions it raises (\<open>read_tag_errors\<close>). The locale \<open>tag_reader\<close> states them as the
  interface and derives what the decoders use; it is interpreted on \<open>read_tag\<close>.
  \<open>encodes\<close> relates one encoded tag to what a reader sees in it, and every encoder of
  \<open>Codec_Encode\<close> for a primitive has a lemma of that form.
\<close>

datatype tag_kind = Open | Close | Value

type_synonym tag = "int \<times> bool \<times> tag_kind \<times> bytes \<times> nat"

section \<open>Reading one tag\<close>

definition extended_length :: "bytes \<Rightarrow> nat \<Rightarrow> (nat \<times> nat) result" where
  "extended_length data position =
     bindR (py_nth data position) (\<lambda>length_octet.
       if length_octet = 254 then
         bindR (unpack_be 2 (py_slice data (position + 1) (position + 3))) (\<lambda>v. Inr (nat v, position + 3))
       else if length_octet = 255 then
         bindR (unpack_be 4 (py_slice data (position + 1) (position + 5))) (\<lambda>v. Inr (nat v, position + 5))
       else Inr (unat length_octet, position + 1))"

text \<open>The three stages of \<open>read_tag\<close>: the tag number, which a first octet \<open>0xF?\<close> puts in the octet
  after it; then what the length/value/type field says of the content.\<close>

definition tag_number :: "bytes \<Rightarrow> octet \<Rightarrow> nat \<Rightarrow> (int \<times> nat) result" where
  "tag_number data first position =
     (if drop_bit 4 first = 0x0F then bindR (py_nth data position) (\<lambda>b. Inr (uint b, position + 1))
      else Inr (uint (drop_bit 4 first), position))"

definition tag_content :: "bytes \<Rightarrow> octet \<Rightarrow> int \<Rightarrow> nat \<Rightarrow> tag result" where
  "tag_content data first number position =
     (let is_context = (first AND 0x08 \<noteq> 0); length_value = unat (first AND 0x07) in
      if is_context \<and> length_value = 6 then Inr (number, True, Open, [], position)
      else if is_context \<and> length_value = 7 then Inr (number, True, Close, [], position)
      else
        bindR (if length_value = 5 then extended_length data position
               else Inr (length_value, position)) (\<lambda>(length_value, position).
        if \<not> is_context \<and> number = 1
        then bindR (bytes_of [int length_value]) (\<lambda>body. Inr (number, False, Value, body, position))
        else Inr (number, is_context, Value, py_slice data position (position + length_value),
                  position + length_value)))"

definition read_tag :: "bytes \<Rightarrow> nat \<Rightarrow> tag result" where
  "read_tag data position =
     bindR (py_nth data position) (\<lambda>first.
     bindR (tag_number data first (position + 1)) (\<lambda>(number, position).
     tag_content data first number position))"

text \<open>The position field of a tag, and the tag with its position moved.\<close>

definition next_position :: "tag \<Rightarrow> nat" where
  "next_position t = (case t of (_, _, _, _, q) \<Rightarrow> q)"

lemma next_position_simp [simp]: "next_position (n, c, k, b, q) = q"
  by (simp add: next_position_def)

definition shift_tag :: "nat \<Rightarrow> tag \<Rightarrow> tag" where
  "shift_tag p t = (case t of (n, c, k, b, q) \<Rightarrow> (n, c, k, b, p + q))"

lemma shift_tag_simp [simp]: "shift_tag p (n, c, k, b, q) = (n, c, k, b, p + q)"
  by (simp add: shift_tag_def)

section \<open>Laws of \<open>read_tag\<close>\<close>

lemma extended_length_position:
  "extended_length data p = Inr (l, q) \<Longrightarrow> p < q"
  by (auto simp: extended_length_def result_simps split: if_splits)

lemma tag_number_position: "tag_number data first p = Inr (n, q) \<Longrightarrow> p \<le> q"
  by (auto simp: tag_number_def result_simps split: if_splits)

lemma tag_content_position: "tag_content data first n p = Inr t \<Longrightarrow> p \<le> next_position t"
  by (auto simp: tag_content_def Let_def result_simps dest!: extended_length_position
      split: if_splits)

lemma read_tag_progress:
  "read_tag data p = Inr t \<Longrightarrow> p < length data \<and> p < next_position t"
  by (fastforce simp: read_tag_def result_simps dest: tag_number_position tag_content_position)

lemma extended_length_drop:
  "extended_length data (p + i) = bindR (extended_length (drop p data) i) (\<lambda>(l, q). Inr (l, p + q))"
  unfolding extended_length_def py_nth_drop [of data p i]
  using py_slice_drop [of data p "i + 1" "i + 3"] py_slice_drop [of data p "i + 1" "i + 5"]
  by (auto simp: bindR_assoc add.assoc intro!: bindR_cong split: bindR_split)

lemma tag_number_drop:
  "tag_number data first (p + i) = bindR (tag_number (drop p data) first i) (\<lambda>(n, q). Inr (n, p + q))"
  by (simp add: tag_number_def py_nth_drop bindR_assoc)

lemma tag_content_drop:
  "tag_content data first n (p + i) = bindR (tag_content (drop p data) first n i) (\<lambda>t. Inr (shift_tag p t))"
  by (cases "extended_length (drop p data) i")
    (auto simp: tag_content_def Let_def extended_length_drop bindR_assoc py_slice_drop add.assoc
      intro!: bindR_cong)

lemma read_tag_drop:
  "read_tag data (p + i) = bindR (read_tag (drop p data) i) (\<lambda>t. Inr (shift_tag p t))"
  unfolding read_tag_def py_nth_drop [of data p i]
  using tag_number_drop [of data _ p "i + 1"]
  by (auto simp: bindR_assoc tag_content_drop add.assoc intro!: bindR_cong)

lemma extended_length_append:
  assumes "extended_length data p = Inr (l, q)" and "q \<le> length data"
  shows "extended_length (data @ post) p = Inr (l, q)"
  using assms
  by (auto simp: extended_length_def result_simps nth_append py_slice_def unpack_be_def
      split: if_splits)

lemma tag_content_append:
  assumes "tag_content data first n p = Inr t" and "next_position t \<le> length data"
  shows "tag_content (data @ post) first n p = Inr t"
proof (cases "unat (first AND 7) = 5")
  case True
  then obtain l q where ext: "extended_length data p = Inr (l, q)" and q: "q \<le> next_position t"
    using assms(1) by (auto simp: tag_content_def Let_def result_simps split: if_splits)
  then have "extended_length (data @ post) p = Inr (l, q)"
    using assms(2) by (intro extended_length_append) auto
  with True ext assms show ?thesis
    by (auto simp: tag_content_def Let_def result_simps py_slice_def split: if_splits)
next
  case False
  with assms show ?thesis
    by (auto simp: tag_content_def Let_def result_simps py_slice_def split: if_splits)
qed

lemma tag_number_append:
  "tag_number data first p = Inr (n, q) \<Longrightarrow> tag_number (data @ post) first p = Inr (n, q)"
  by (auto simp: tag_number_def result_simps nth_append split: if_splits)

lemma read_tag_append:
  assumes "read_tag data p = Inr t" and "next_position t \<le> length data"
  shows "read_tag (data @ post) p = Inr t"
proof -
  obtain first n q where "py_nth data p = Inr first" and number: "tag_number data first (p + 1) = Inr (n, q)"
      and content: "tag_content data first n q = Inr t"
    using assms(1) by (auto simp: read_tag_def result_simps)
  then have "py_nth (data @ post) p = Inr first"
    by (auto simp: py_nth_def nth_append split: if_splits)
  then show ?thesis
    using tag_number_append [OF number] tag_content_append [OF content assms(2)]
    by (simp add: read_tag_def)
qed

text \<open>The exceptions a read can raise. The last is raised for one shape only: an application
  BOOLEAN whose length field is extended beyond 255.\<close>

lemma read_tag_errors:
  "read_tag data p = Inl e \<Longrightarrow> e \<in> {IndexError, StructError, ValueError}"
  by (auto simp: read_tag_def tag_number_def tag_content_def extended_length_def Let_def bindR_Inl_iff
      py_nth_def bytes_of_def unpack_be_def split: if_splits)

lemma read_tag_beyond: "length data \<le> p \<Longrightarrow> read_tag data p = Inl IndexError"
  by (simp add: read_tag_def py_nth_def)

section \<open>The interface of the decoders\<close>

text \<open>What a decoder may rely on in the reader it loops over.\<close>

locale tag_reader =
  fixes read :: "bytes \<Rightarrow> nat \<Rightarrow> tag result"
  assumes progress: "read data p = Inr t \<Longrightarrow> p < length data \<and> p < next_position t"
    and from_rest: "read data (p + i) = bindR (read (drop p data) i) (\<lambda>t. Inr (shift_tag p t))"
    and prefix_stable: "read data p = Inr t \<Longrightarrow> next_position t \<le> length data \<Longrightarrow> read (data @ post) p = Inr t"
begin

text \<open>One whole tag \<open>enc\<close>, standing anywhere in the data, is read the same.\<close>

lemma whole_tag_nonempty: "read enc 0 = Inr (n, c, k, b, length enc) \<Longrightarrow> enc \<noteq> []"
  using progress [of enc 0] by auto

lemma read_at:
  assumes "read enc 0 = Inr (n, c, k, b, length enc)" and "drop p data = enc @ post"
  shows "read data p = Inr (n, c, k, b, p + length enc)"
proof -
  have "read (enc @ post) 0 = Inr (n, c, k, b, length enc)"
    using assms(1) prefix_stable by simp
  then show ?thesis
    using from_rest [of data p 0] assms(2) by simp
qed

text \<open>A tag read in one byte string is read the same in another that has the same octets there.\<close>

lemma read_moved:
  assumes "read v q = Inr (n, c, k, b, after)" and "after \<le> length v" and "drop p data = drop q v @ rest"
  shows "read data p = Inr (n, c, k, b, p + (after - q)) \<and> drop (p + (after - q)) data = drop after v @ rest"
proof -
  have q: "q < after"
    using progress [OF assms(1)] by simp
  have "read (drop q v) 0 = Inr (n, c, k, b, after - q)"
    using from_rest [of v q 0] assms(1) by (cases "read (drop q v) 0") auto
  then have "read (drop p data) 0 = Inr (n, c, k, b, after - q)"
    using prefix_stable [of "drop q v" 0 "(n, c, k, b, after - q)" rest] assms(2,3) by simp
  moreover have "drop (after - q) (drop p data) = drop after v @ rest"
    using q assms(2,3) by simp
  ultimately show ?thesis
    using from_rest [of data p 0] by (simp add: add.commute)
qed

lemma position_bound:
  assumes "read enc 0 = Inr (n, c, k, b, length enc)" and "drop p data = enc @ post"
  shows "p < length data"
  using progress [OF read_at [OF assms]] by simp

end

interpretation rt: tag_reader read_tag
  by unfold_locales (fact read_tag_progress read_tag_drop read_tag_append)+

lemma drop_after: "drop p data = enc @ post \<Longrightarrow> drop (p + length enc) data = post"
  by (metis add.commute append_eq_conv_conj drop_drop)

text \<open>\<open>enc\<close> is one whole tag with this number, class, kind and content.\<close>

definition encodes :: "bytes \<Rightarrow> int \<Rightarrow> bool \<Rightarrow> tag_kind \<Rightarrow> bytes \<Rightarrow> bool" where
  "encodes enc n c k b \<longleftrightarrow> read_tag enc 0 = Inr (n, c, k, b, length enc)"

lemma encodes_nonempty: "encodes enc n c k b \<Longrightarrow> enc \<noteq> []"
  unfolding encodes_def by (rule rt.whole_tag_nonempty)

lemma encodes_read_at:
  "encodes enc n c k b \<Longrightarrow> drop p data = enc @ post \<Longrightarrow> read_tag data p = Inr (n, c, k, b, p + length enc)"
  unfolding encodes_def by (rule rt.read_at)

lemma encodes_position:
  "encodes enc n c k b \<Longrightarrow> drop p data = enc @ post \<Longrightarrow> p < length data"
  unfolding encodes_def by (rule rt.position_bound)

lemma encodes_end:
  assumes "encodes enc n c k b" and "drop p data = enc @ post"
  shows "p + length enc \<le> length data"
  using encodes_position [OF assms] arg_cong [OF assms(2), of length] by (simp del: length_drop add: length_drop)

text \<open>One whole tag, whatever it is.\<close>

definition whole_tag :: "bytes \<Rightarrow> bool" where
  "whole_tag enc = (case read_tag enc 0 of Inl _ \<Rightarrow> False | Inr (_, _, _, _, q) \<Rightarrow> q = length enc)"

lemma whole_tagE:
  assumes "whole_tag enc"
  obtains n c k b where "encodes enc n c k b"
  using assms by (auto simp: whole_tag_def encodes_def split: sum.splits)

lemma encodes_whole_tag: "encodes enc n c k b \<Longrightarrow> whole_tag enc"
  by (simp add: whole_tag_def encodes_def)

section \<open>What the encoders write\<close>

lemma octet_low_bits: "unat (w AND 7 :: octet) = unat w mod 8"
proof -
  have "w AND 7 = take_bit 3 w"
    by (simp add: take_bit_eq_mask mask_eq_exp_minus_1)
  then show ?thesis
    by (simp only: unsigned_take_bit_eq) (simp add: take_bit_eq_mod)
qed

lemma octet_context_bit: "(w AND 8 :: octet) \<noteq> 0 \<longleftrightarrow> odd (uint w div 8)"
proof -
  have "(w AND 8 :: octet) \<noteq> 0 \<longleftrightarrow> bit w 3"
    using and_exp_eq_0_iff_not_bit [of w 3] by simp
  also have "\<dots> \<longleftrightarrow> bit (uint w) 3"
    by (simp only: bit_uint_iff) simp
  finally show ?thesis
    by (simp add: bit_iff_odd)
qed

lemma octet_high_bits: "uint (drop_bit 4 w :: octet) = uint w div 16"
  by (simp add: drop_bit_eq_div uint_div)

text \<open>The fields of the first octet of a tag: number \<open>t\<close>, class bit \<open>c\<close>, length/value/type \<open>l\<close>.\<close>

lemma tag_octet_fields:
  assumes "0 \<le> t" and "t < 15" and "c \<in> {0, 1}" and "l < 8"
  defines "w \<equiv> word_of_int (16 * t + 8 * c + int l) :: octet"
  shows "uint (drop_bit 4 w) = t" and "drop_bit 4 w \<noteq> 15" and "w AND 8 \<noteq> 0 \<longleftrightarrow> c = 1"
    and "unat (w AND 7) = l"
proof -
  have u: "uint w = 16 * t + 8 * c + int l"
    unfolding w_def uint_octet_of_int using assms(1-4) by (intro mod_pos_pos_trivial) auto
  have "uint w div 16 = t" and "uint w div 8 = 2 * t + c"
    unfolding u using assms(3,4) by auto
  have "16 * t + 8 * c + int l = int l + 8 * (2 * t + c)"
    by simp
  then have "uint w mod 8 = int l"
    unfolding u using assms(4) by (simp only: mod_mult_self2) simp
  show "uint (drop_bit 4 w) = t" and "w AND 8 \<noteq> 0 \<longleftrightarrow> c = 1"
    using \<open>uint w div 16 = t\<close> \<open>uint w div 8 = 2 * t + c\<close> assms(3) by (auto simp: octet_high_bits octet_context_bit)
  then show "drop_bit 4 w \<noteq> 15"
    using assms(2) by auto
  show "unat (w AND 7) = l"
  proof -
    have "int (unat w mod 8) = uint w mod 8"
      by (simp add: zmod_int)
    then have "unat w mod 8 = l"
      using \<open>uint w mod 8 = int l\<close> by linarith
    then show ?thesis
      by (simp only: octet_low_bits)
  qed
qed

text \<open>A tag whose content follows its first octet (fewer than five octets), one whose length is in a
  second octet, and one whose length is in the two octets after a 254.\<close>

lemma read_tag_short:
  assumes "0 \<le> t" and "t < 15" and "c \<in> {0, 1}" and "c = 0 \<longrightarrow> t \<noteq> 1" and "length body < 5"
  shows "encodes (word_of_int (16 * t + 8 * c + int (length body)) # body) t (c = 1) Value body"
proof -
  define w :: octet where "w = word_of_int (16 * t + 8 * c + int (length body))"
  note w = tag_octet_fields [OF assms(1-3), of "length body", folded w_def]
  then have "read_tag (w # body) 0 = Inr (t, c = 1, Value, body, length (w # body))"
    using assms(3,4,5) by (auto simp: read_tag_def tag_number_def tag_content_def Let_def py_slice_def)
  then show ?thesis
    unfolding encodes_def w_def .
qed

lemma read_tag_long:
  assumes "0 \<le> t" and "t < 15" and "c \<in> {0, 1}" and "c = 0 \<longrightarrow> t \<noteq> 1" and "length body < 254"
  shows "encodes (word_of_int (16 * t + 8 * c + int 5) # word_of_int (int (length body)) # body) t (c = 1) Value body"
proof -
  define w :: octet where "w = word_of_int (16 * t + 8 * c + int 5)"
  define l :: octet where "l = word_of_int (int (length body))"
  have five: "(5 :: nat) < 8"
    by simp
  note w = tag_octet_fields [OF assms(1-3) five, folded w_def]
  have u: "unat l = length body"
    using assms(5) by (simp add: l_def unat_of_nat)
  then have "l \<noteq> 254" "l \<noteq> 255"
    using assms(5) by auto
  with w u have "read_tag (w # l # body) 0 = Inr (t, c = 1, Value, body, length (w # l # body))"
    using assms(3,4) by (auto simp: read_tag_def tag_number_def tag_content_def extended_length_def Let_def py_slice_def)
  then show ?thesis
    unfolding encodes_def w_def l_def .
qed

lemma read_tag_long16:
  assumes "0 \<le> t" and "t < 15" and "c \<in> {0, 1}" and "c = 0 \<longrightarrow> t \<noteq> 1" and "length body < 65536"
  shows "encodes (word_of_int (16 * t + 8 * c + int 5) # 254 # be_octets 2 (int (length body)) @ body) t (c = 1) Value body"
proof -
  define w :: octet where "w = word_of_int (16 * t + 8 * c + int 5)"
  have five: "(5 :: nat) < 8"
    by simp
  note w = tag_octet_fields [OF assms(1-3) five, folded w_def]
  have "extended_length (w # 254 # be_octets 2 (int (length body)) @ body) 1 = Inr (length body, 4)"
    using assms(5) by (simp add: extended_length_def py_slice_def unpack_be_def int_from_be_octets)
  with w have "read_tag (w # 254 # be_octets 2 (int (length body)) @ body) 0 =
      Inr (t, c = 1, Value, body, length (w # 254 # be_octets 2 (int (length body)) @ body))"
    using assms(3,4) by (auto simp: read_tag_def tag_number_def tag_content_def Let_def py_slice_def)
  then show ?thesis
    unfolding encodes_def w_def .
qed

lemma read_tag_bracket:
  assumes "0 \<le> t" and "t < 15" and "l \<in> {6, 7}"
  shows "encodes [word_of_int (16 * t + 8 + int l)] t True (if l = 6 then Open else Close) []"
proof -
  define w :: octet where "w = word_of_int (16 * t + 8 * 1 + int l)"
  have l: "l < 8" and c: "(1 :: int) \<in> {0, 1}"
    using assms(3) by auto
  note w = tag_octet_fields [OF assms(1,2) c l, folded w_def]
  then have "read_tag [w] 0 = Inr (t, True, if l = 6 then Open else Close, [], length [w])"
    using assms(3) by (auto simp: read_tag_def tag_number_def tag_content_def Let_def)
  then show ?thesis
    unfolding encodes_def w_def by (simp only: mult_1_right)
qed

end
