(* ===== verification/Codec_Primitives.thy ===== *)
theory Codec_Primitives
  imports Codec_Tags
begin

unbundle bit_operations_syntax

text \<open>
  What each encoder of a primitive puts on the wire, in terms of the reader: for every
  application- or context-tagged encoder of \<open>Codec_Encode\<close>, the octets it returns are one whole
  tag (\<open>encodes\<close>) whose content determines the value. The range lemmas (\<open>unsigned_octets_iff\<close>,
  \<open>signed_octets_iff\<close>, \<open>object_id_iff\<close>) say exactly when an encoder succeeds.
\<close>

named_theorems encoder_tags \<open>the tag each encoder writes\<close>

section \<open>Integer contents\<close>

definition octet_count :: "int \<Rightarrow> nat" where
  "octet_count v = (if v < 2 ^ 8 then 1 else if v < 2 ^ 16 then 2 else if v < 2 ^ 24 then 3 else 4)"

lemma octet_count_bounds: "1 \<le> octet_count v" "octet_count v \<le> 4" "octet_count v < 5"
  by (auto simp: octet_count_def)

lemma unsigned_octets_iff [result_simps]:
  "unsigned_octets v = Inr body \<longleftrightarrow> 0 \<le> v \<and> v < 2 ^ 32 \<and> body = be_octets (octet_count v) v"
  by (auto simp: unsigned_octets_def int_to_bytes_def octet_count_def push_bit_eq_mult
      simp del: be_octets.simps split: if_splits)

lemma octet_count_fits: "0 \<le> v \<Longrightarrow> v < 2 ^ 32 \<Longrightarrow> v < 256 ^ octet_count v"
  by (auto simp: octet_count_def)

lemma unsigned_octets_value:
  "unsigned_octets v = Inr body \<Longrightarrow> int_from_bytes body = v \<and> 1 \<le> length body \<and> length body < 5"
  using octet_count_bounds [of v] octet_count_fits [of v]
  by (auto simp: unsigned_octets_iff int_from_be_octets)

lemma unsigned_octets_errors:
  "v < 0 \<Longrightarrow> unsigned_octets v = Inl OverflowError"
  "2 ^ 32 \<le> v \<Longrightarrow> unsigned_octets v = Inl ValueError"
  by (auto simp: unsigned_octets_def int_to_bytes_def push_bit_eq_mult)

definition signed_octet_count :: "int \<Rightarrow> nat" where
  "signed_octet_count v =
     (if - (2 ^ 7) \<le> v \<and> v < 2 ^ 7 then 1 else if - (2 ^ 15) \<le> v \<and> v < 2 ^ 15 then 2
      else if - (2 ^ 23) \<le> v \<and> v < 2 ^ 23 then 3 else 4)"

lemma signed_octets_iff [result_simps]:
  "signed_octets v = Inr body \<longleftrightarrow>
     - (2 ^ 31) \<le> v \<and> v < 2 ^ 31 \<and> body = be_octets (signed_octet_count v) v"
  by (auto simp: signed_octets_def int_to_bytes_signed_def signed_octet_count_def push_bit_eq_mult
      simp del: be_octets.simps split: if_splits)

lemma signed_octets_value:
  "signed_octets v = Inr body \<Longrightarrow> int_from_bytes_signed body = v \<and> 1 \<le> length body \<and> length body < 5"
  by (auto simp: signed_octets_iff signed_octet_count_def int_from_be_octets_signed
      simp del: be_octets.simps)

text \<open>No shorter content has the same value.\<close>

lemma int_from_bytes_signed_range:
  assumes "bs \<noteq> []"
  shows "- (2 ^ (8 * length bs - 1)) \<le> int_from_bytes_signed bs \<and> int_from_bytes_signed bs < 2 ^ (8 * length bs - 1)"
proof -
  obtain b cs where bs: "bs = b # cs"
    using assms by (cases bs) auto
  have v: "int_from_bytes bs = uint b * 256 ^ length cs + int_from_bytes cs"
    by (simp add: bs int_from_bytes_Cons)
  have c: "0 \<le> int_from_bytes cs" "int_from_bytes cs < 256 ^ length cs"
    using int_from_bytes_nonneg int_from_bytes_bound by blast+
  have p: "(2 :: int) ^ (8 * length bs - 1) = 128 * 256 ^ length cs"
  proof -
    have "(2 :: int) ^ (8 * length bs - 1) = 2 ^ (7 + 8 * length cs)"
      by (simp add: bs)
    also have "\<dots> = 2 ^ 7 * (2 ^ 8) ^ length cs"
      by (simp only: power_add power_mult)
    finally show ?thesis
      by simp
  qed
  have h: "uint b * 256 ^ length cs \<le> 127 * 256 ^ length cs" if "uint b < 128"
    using that by (intro mult_right_mono) auto
  have l: "128 * 256 ^ length cs \<le> uint b * 256 ^ length cs" if "\<not> uint b < 128"
    using that by (intro mult_right_mono) auto
  have u: "uint b * 256 ^ length cs \<le> 255 * 256 ^ length cs"
    using uint_lt2p [of b] by (intro mult_right_mono) auto
  have n: "0 \<le> uint b * 256 ^ length cs"
    by simp
  show ?thesis
  proof (cases "uint b < 128")
    case True
    then have "int_from_bytes_signed bs = int_from_bytes bs"
      by (simp add: int_from_bytes_signed_def bs)
    with h [OF True] v c n show ?thesis
      unfolding p by linarith
  next
    case False
    then have "int_from_bytes_signed bs = int_from_bytes bs - 256 * 256 ^ length cs"
      by (simp add: int_from_bytes_signed_def bs)
    with l [OF False] u v c n show ?thesis
      unfolding p by linarith
  qed
qed

lemma unsigned_octets_shortest:
  assumes "unsigned_octets v = Inr body" and "int_from_bytes other = v" and "other \<noteq> []"
  shows "length body \<le> length other"
proof -
  have v: "0 \<le> v" "v < 256 ^ length other" "1 \<le> length other"
    using assms(2,3) int_from_bytes_nonneg int_from_bytes_bound by (auto simp: Suc_le_eq)
  have "length other = 1 \<or> length other = 2 \<or> length other = 3 \<or> 4 \<le> length other"
    using v(3) by linarith
  then have "octet_count v \<le> length other"
    using v by (auto simp: octet_count_def)
  then show ?thesis
    using assms(1) by (simp add: unsigned_octets_iff)
qed

lemma signed_octets_shortest:
  assumes "signed_octets v = Inr body" and "int_from_bytes_signed other = v" and "other \<noteq> []"
  shows "length body \<le> length other"
proof -
  have v: "- (2 ^ (8 * length other - 1)) \<le> v" "v < 2 ^ (8 * length other - 1)" "1 \<le> length other"
    using assms(2) int_from_bytes_signed_range [OF assms(3)] assms(3) by (auto simp: Suc_le_eq)
  have "length other = 1 \<or> length other = 2 \<or> length other = 3 \<or> 4 \<le> length other"
    using v(3) by linarith
  then have "signed_octet_count v \<le> length other"
    using v by (auto simp: signed_octet_count_def)
  then show ?thesis
    using assms(1) by (simp add: signed_octets_iff)
qed

lemma signed_octets_errors: "\<not> (- (2 ^ 31) \<le> v \<and> v < 2 ^ 31) \<Longrightarrow> signed_octets v = Inl ValueError"
  by (auto simp: signed_octets_def push_bit_eq_mult)

section \<open>Object identifiers\<close>

lemma object_id_or:
  assumes "0 \<le> i" and "i < 2 ^ 22"
  shows "push_bit 22 t OR i = t * 2 ^ 22 + (i :: int)"
  using assms by (subst or_eq_add_disjoint [where k = 22]) (auto simp: push_bit_eq_mult)

text \<open>An identifier that fits its field: a 10-bit object type and a 22-bit instance.\<close>

definition valid_object_id :: "int \<Rightarrow> int \<Rightarrow> bool" where
  "valid_object_id object_type instance_number \<longleftrightarrow>
     0 \<le> object_type \<and> object_type < 1024 \<and> 0 \<le> instance_number \<and> instance_number \<le> MAX_INSTANCE"

lemma object_id_valid:
  assumes "valid_object_id t i"
  shows "object_id t i = Inr (be_octets 4 (t * 2 ^ 22 + i))"
    and "int_from_bytes (be_octets 4 (t * 2 ^ 22 + i)) = t * 2 ^ 22 + i"
proof -
  have "0 \<le> t * 2 ^ 22 + i" and "t * 2 ^ 22 + i < 256 ^ 4"
    using assms by (auto simp: valid_object_id_def)
  then show "object_id t i = Inr (be_octets 4 (t * 2 ^ 22 + i))"
    and "int_from_bytes (be_octets 4 (t * 2 ^ 22 + i)) = t * 2 ^ 22 + i"
    using assms object_id_or [of i t]
    by (auto simp: object_id_def pack_be_def int_from_be_octets valid_object_id_def simp del: be_octets.simps)
qed

lemma object_id_fields:
  assumes "valid_object_id t i"
  shows "drop_bit 22 (t * 2 ^ 22 + i) = t" and "(t * 2 ^ 22 + i) AND MAX_INSTANCE = i"
proof -
  show "drop_bit 22 (t * 2 ^ 22 + i) = t"
    using assms by (simp add: drop_bit_eq_div valid_object_id_def)
  have "(t * 2 ^ 22 + i) AND MAX_INSTANCE = take_bit 22 (t * 2 ^ 22 + i)"
    by (simp add: take_bit_eq_mask mask_eq_exp_minus_1)
  then show "(t * 2 ^ 22 + i) AND MAX_INSTANCE = i"
    using assms by (simp add: take_bit_eq_mod valid_object_id_def)
qed

section \<open>First octets\<close>

lemma context_octet:
  assumes "0 \<le> t" and "t < 16" and "l < 8"
  shows "bytes_of [push_bit 4 t OR 8 OR int l] = Inr [word_of_int (16 * t + 8 + int l)]"
  using assms by (simp add: tag_octet_or bytes_of_def del: of_int_add)

lemma application_octet:
  assumes "0 \<le> t" and "t < 16" and "l < 8"
  shows "bytes_of [16 * t OR int l] = Inr [word_of_int (16 * t + int l)]"
proof -
  have "16 * t OR int l = 16 * t + int l"
    using assms by (intro or_eq_add_disjoint [where k = 4]) auto
  then show ?thesis
    using assms by (simp add: bytes_of_def del: of_int_add)
qed

lemma context_short:
  assumes "0 \<le> t" and "t < 15" and "length body < 5"
  shows "\<exists>enc. catR [bytes_of [push_bit 4 t OR 8 OR int (length body)], Inr body] = Inr enc \<and>
     encodes enc t True Value body"
  using assms context_octet [of t "length body"] read_tag_short [of t 1 body] by (simp del: of_int_add)

lemma application_short:
  assumes "0 \<le> t" and "t < 15" and "t \<noteq> 1" and "length body < 5"
  shows "\<exists>enc. catR [bytes_of [16 * t OR int (length body)], Inr body] = Inr enc \<and>
     encodes enc t False Value body"
  using assms application_octet [of t "length body"] read_tag_short [of t 0 body] by (simp del: of_int_add)

lemma context_long:
  assumes "0 \<le> t" and "t < 15" and "length body < 254"
  shows "\<exists>enc. catR [bytes_of [push_bit 4 t OR 8 OR 5, int (length body)], Inr body] = Inr enc \<and>
     encodes enc t True Value body"
proof -
  have "push_bit 4 t OR 8 OR 5 = 16 * t + 8 + int 5"
    using tag_octet_or [of 5 t] by simp
  then have "bytes_of [push_bit 4 t OR 8 OR 5, int (length body)] =
      Inr [word_of_int (16 * t + 8 * 1 + int 5), word_of_int (int (length body))]"
    using assms by (simp add: bytes_of_def del: of_int_add)
  then show ?thesis
    using assms read_tag_long [of t 1 body] by (simp del: of_int_add)
qed

lemma application_long:
  assumes "0 \<le> t" and "t < 15" and "t \<noteq> 1" and "length body < 254"
  shows "\<exists>enc. catR [bytes_of [16 * t + 5, int (length body)], Inr body] = Inr enc \<and>
     encodes enc t False Value body"
proof -
  have "bytes_of [16 * t + 5, int (length body)] =
      Inr [word_of_int (16 * t + 8 * 0 + int 5), word_of_int (int (length body))]"
    using assms by (simp add: bytes_of_def del: of_int_add)
  then show ?thesis
    using assms read_tag_long [of t 0 body] by (simp del: of_int_add)
qed

section \<open>The encoders\<close>

lemma opening_tag_ok [encoder_tags]:
  assumes "0 \<le> t" and "t < 15"
  shows "\<exists>enc. opening_tag t = Inr enc \<and> encodes enc t True Open []"
proof -
  have "push_bit 4 t OR 14 = 16 * t + 8 + int 6"
    using tag_octet_or [of 6 t] by simp
  then have "opening_tag t = Inr [word_of_int (16 * t + 8 + int 6)]"
    using assms by (simp add: opening_tag_def bytes_of_def del: of_int_add)
  then show ?thesis
    using assms read_tag_bracket [of t 6] by (simp del: of_int_add)
qed

lemma closing_tag_ok [encoder_tags]:
  assumes "0 \<le> t" and "t < 15"
  shows "\<exists>enc. closing_tag t = Inr enc \<and> encodes enc t True Close []"
proof -
  have "push_bit 4 t OR 15 = 16 * t + 8 + int 7"
    using tag_octet_or [of 7 t] by simp
  then have "closing_tag t = Inr [word_of_int (16 * t + 8 + int 7)]"
    using assms by (simp add: closing_tag_def bytes_of_def del: of_int_add)
  then show ?thesis
    using assms read_tag_bracket [of t 7] by (simp del: of_int_add)
qed

text \<open>Integers. \<open>int_content v\<close> is what an unsigned, enumerated or object-identifier encoder writes.\<close>

definition int_content :: "int \<Rightarrow> bytes" where
  "int_content v = be_octets (octet_count v) v"

lemma int_content_value [simp]: "0 \<le> v \<Longrightarrow> v < 2 ^ 32 \<Longrightarrow> int_from_bytes (int_content v) = v"
  using octet_count_fits [of v] by (simp add: int_content_def int_from_be_octets)

lemma length_int_content: "length (int_content v) < 5" "0 < length (int_content v)"
  using octet_count_bounds [of v] by (auto simp: int_content_def)

lemma context_unsigned_ok [encoder_tags]:
  assumes "0 \<le> t" and "t < 15" and "0 \<le> v" and "v < 2 ^ 32"
  shows "\<exists>enc. context_unsigned t v = Inr enc \<and> encodes enc t True Value (int_content v)"
proof -
  have "unsigned_octets v = Inr (int_content v)"
    using assms by (simp add: unsigned_octets_iff int_content_def)
  then show ?thesis
    using context_short [of t "int_content v"] assms length_int_content by (simp add: context_unsigned_def)
qed

lemma application_unsigned_ok [encoder_tags]:
  assumes "0 \<le> v" and "v < 2 ^ 32"
  shows "\<exists>enc. application_unsigned v = Inr enc \<and> encodes enc TAG_UNSIGNED False Value (int_content v)"
proof -
  have "unsigned_octets v = Inr (int_content v)"
    using assms by (simp add: unsigned_octets_iff int_content_def)
  then show ?thesis
    using application_short [of 2 "int_content v"] length_int_content by (simp add: application_unsigned_def)
qed

lemma application_enumerated_ok [encoder_tags]:
  assumes "0 \<le> v" and "v < 2 ^ 32"
  shows "\<exists>enc. application_enumerated v = Inr enc \<and> encodes enc TAG_ENUMERATED False Value (int_content v)"
proof -
  have "unsigned_octets v = Inr (int_content v)"
    using assms by (simp add: unsigned_octets_iff int_content_def)
  then show ?thesis
    using application_short [of 9 "int_content v"] length_int_content by (simp add: application_enumerated_def)
qed

lemma context_signed_ok [encoder_tags]:
  assumes "0 \<le> t" and "t < 15" and "signed_octets v = Inr body"
  shows "\<exists>enc. context_signed t v = Inr enc \<and> encodes enc t True Value body"
  using assms context_short [of t body] signed_octets_value [of v body] by (simp add: context_signed_def)

lemma application_signed_ok [encoder_tags]:
  assumes "signed_octets v = Inr body"
  shows "\<exists>enc. application_signed v = Inr enc \<and> encodes enc TAG_SIGNED False Value body"
  using assms application_short [of 3 body] signed_octets_value [of v body] by (simp add: application_signed_def)

text \<open>Object identifiers: always four octets.\<close>

definition object_id_content :: "int \<Rightarrow> int \<Rightarrow> bytes" where
  "object_id_content t i = be_octets 4 (t * 2 ^ 22 + i)"

lemma length_object_id_content [simp]: "length (object_id_content t i) = 4"
  by (simp add: object_id_content_def del: be_octets.simps)

lemma object_id_content_value:
  "valid_object_id t i \<Longrightarrow> int_from_bytes (object_id_content t i) = t * 2 ^ 22 + i"
  by (simp only: object_id_content_def object_id_valid)

lemma context_object_id_ok [encoder_tags]:
  assumes "0 \<le> tag" and "tag < 15" and "valid_object_id t i"
  shows "\<exists>enc. context_object_id tag t i = Inr enc \<and> encodes enc tag True Value (object_id_content t i)"
  using context_short [of tag "object_id_content t i"] assms
  by (simp add: context_object_id_def object_id_valid object_id_content_def del: be_octets.simps)

lemma application_object_id_ok [encoder_tags]:
  assumes "valid_object_id t i"
  shows "\<exists>enc. application_object_id t i = Inr enc \<and>
     encodes enc TAG_OBJECT_IDENTIFIER False Value (object_id_content t i)"
  using application_short [of 12 "object_id_content t i"] assms
  by (simp add: application_object_id_def object_id_valid object_id_content_def del: be_octets.simps)

text \<open>NULL, BOOLEAN and REAL.\<close>

lemma application_null_ok [encoder_tags]:
  "\<exists>enc. application_null = Inr enc \<and> encodes enc TAG_NULL False Value []"
  using read_tag_short [of 0 0 "[]"] by (simp add: application_null_def bytes_of_def)

lemma application_boolean_ok [encoder_tags]:
  "\<exists>enc. application_boolean v = Inr enc \<and> encodes enc TAG_BOOLEAN False Value [if v then 1 else 0]"
  by (simp add: application_boolean_def bytes_of_def encodes_def read_tag_def tag_number_def
      tag_content_def Let_def drop_bit_eq_div)

lemma context_boolean_ok [encoder_tags]:
  assumes "0 \<le> t" and "t < 15"
  shows "\<exists>enc. context_boolean t v = Inr enc \<and> encodes enc t True Value [if v then 1 else 0]"
  using assms tag_octet_or [of 1 t] read_tag_short [of t 1 "[if v then 1 else 0]"]
  by (auto simp: context_boolean_def bytes_of_def)

lemma application_real_ok [encoder_tags]:
  assumes "pack_f v = Inr body"
  shows "\<exists>enc. application_real v = Inr enc \<and> encodes enc TAG_REAL False Value body"
  using application_short [of 4 body] assms pack_f_length [OF assms] by (simp add: application_real_def)

lemma context_real_ok [encoder_tags]:
  assumes "0 \<le> t" and "t < 15" and "pack_f v = Inr body"
  shows "\<exists>enc. context_real t v = Inr enc \<and> encodes enc t True Value body"
  using context_short [of t body] assms pack_f_length [OF assms(3)] by (simp add: context_real_def)

text \<open>Strings: one length octet holds up to 253; the encoders of character strings and of context
  octet strings have no longer form, \<open>application_octet_string\<close> has the 16-bit one.\<close>

lemma application_character_string_ok [encoder_tags]:
  assumes "utf8_encode s = Inr encoded" and "length encoded < 253"
  shows "\<exists>enc. application_character_string s = Inr enc \<and>
     encodes enc TAG_CHARACTER_STRING False Value (0 # encoded)"
  using application_short [of 7 "0 # encoded"] application_long [of 7 "0 # encoded"] assms
  by (simp add: application_character_string_def Let_def)

lemma context_character_string_ok [encoder_tags]:
  assumes "0 \<le> t" and "t < 15" and "utf8_encode s = Inr encoded" and "length encoded < 253"
  shows "\<exists>enc. context_character_string t s = Inr enc \<and> encodes enc t True Value (0 # encoded)"
  using context_short [of t "0 # encoded"] context_long [of t "0 # encoded"] assms
  by (simp add: context_character_string_def Let_def)

lemma context_octet_string_ok [encoder_tags]:
  assumes "0 \<le> t" and "t < 15" and "length octets < 254"
  shows "\<exists>enc. context_octet_string t octets = Inr enc \<and> encodes enc t True Value octets"
  using context_short [of t octets] context_long [of t octets] assms
  by (simp add: context_octet_string_def)

lemma application_octet_string_ok [encoder_tags]:
  assumes "length octets < 65536"
  shows "\<exists>enc. application_octet_string octets = Inr enc \<and> encodes enc TAG_OCTET_STRING False Value octets"
proof (cases "length octets < 254")
  case True
  then show ?thesis
    using application_short [of 6 octets] application_long [of 6 octets]
    by (simp add: application_octet_string_def)
next
  case False
  then have "application_octet_string octets = Inr (0x65 # 254 # be_octets 2 (int (length octets)) @ octets)"
    using assms by (simp add: application_octet_string_def bytes_of_def pack_be_def del: be_octets.simps)
  then show ?thesis
    using read_tag_long16 [of 6 0 octets] assms by (simp del: be_octets.simps)
qed

lemma application_bit_string_ok [encoder_tags]:
  assumes "bit_string_body bits = Inr body" and "length body < 5"
  shows "\<exists>enc. application_bit_string bits = Inr enc \<and> encodes enc TAG_BIT_STRING False Value body"
  using application_short [of 8 body] assms by (simp add: application_bit_string_def)

lemma context_bit_string_ok [encoder_tags]:
  assumes "0 \<le> t" and "t < 15" and "bit_string_body bits = Inr body" and "length body < 5"
  shows "\<exists>enc. context_bit_string t bits = Inr enc \<and> encodes enc t True Value body"
  using context_short [of t body] application_octet [of 8 "length body"] assms
  by (simp add: context_bit_string_def application_bit_string_def Let_def)

end
