(* ===== verification/Codec_Decode.thy ===== *)
theory Codec_Decode
  imports Codec_Primitives
begin

unbundle bit_operations_syntax

text \<open>
  The decoders of \<open>wiretest/codec.py\<close>. Each is a loop over \<open>read_tag\<close>:
  \<^item> \<open>scan_tags\<close> is \<open>while position < len(data)\<close> with one \<open>read_tag\<close> per turn and the rest of
    the loop body as a function of the tag and of the loop's variables;
  \<^item> \<open>close_loop\<close> is \<open>while depth\<close>, which skips constructed data up to its closing tag.
  Both terminate because a successful read advances and starts inside the data; an unclosed
  value ends in the \<open>IndexError\<close> of the read past its end, as in the source.
  \<open>well_tagged\<close> is the abstract notion of a value: a sequence of whole tags whose opening and
  closing tags match. The round trips of the requests and answers are over such values.
\<close>

section \<open>The two loops\<close>

function scan_tags :: "(nat \<Rightarrow> tag \<Rightarrow> 's \<Rightarrow> 's result) \<Rightarrow> bytes \<Rightarrow> nat \<Rightarrow> 's \<Rightarrow> 's result" where
  "scan_tags body data position s =
     (if position < length data then
        bindR (read_tag data position) (\<lambda>t.
        bindR (body position t s) (\<lambda>s'.
        scan_tags body data (next_position t) s'))
      else Inr s)"
  by pat_completeness auto
termination
  by (relation "measure (\<lambda>(body, data, position, s). length data - position)")
    (auto dest!: read_tag_progress)

declare scan_tags.simps [simp del]

fun depth_after :: "tag_kind \<Rightarrow> nat \<Rightarrow> nat" where
  "depth_after Open depth = depth + 1"
| "depth_after Close depth = depth - 1"
| "depth_after Value depth = depth"

function close_loop :: "bytes \<Rightarrow> nat \<Rightarrow> nat \<Rightarrow> nat \<Rightarrow> (nat \<times> nat) result" where
  "close_loop data depth tag_start position =
     (if depth = 0 then Inr (tag_start, position)
      else bindR (read_tag data position) (\<lambda>(number, is_context, kind, body, after).
        close_loop data (depth_after kind depth) position after))"
  by pat_completeness auto
termination
  by (relation "measure (\<lambda>(data, depth, tag_start, position). length data - position)")
    (auto dest!: read_tag_progress)

declare close_loop.simps [simp del]

section \<open>Decoders\<close>

definition i_am_device_instance :: "bytes \<Rightarrow> int option result" where
  "i_am_device_instance apdu =
     (if length apdu < 7 \<or> uint (drop_bit 4 (apdu ! 0)) \<noteq> PDU_UNCONFIRMED_REQUEST
         \<or> uint (apdu ! 1) \<noteq> SERVICE_I_AM then Inr None
      else bindR (read_tag apdu 2) (\<lambda>(number, is_context, kind, body, _).
        if is_context \<or> number \<noteq> 12 \<or> length body \<noteq> 4 then Inr None
        else bindR (unpack_be 4 body) (\<lambda>identifier.
          Inr (if drop_bit 22 identifier = OBJECT_TYPE_DEVICE then Some (identifier AND MAX_INSTANCE) else None))))"

text \<open>The search loop of \<open>read_property_value\<close>: the first \<open>[3]\<close> opening tag, then the octets up to
  its closing tag. The inner loop returns or raises, so the search never goes on after it.\<close>

function read_property_value_from :: "bytes \<Rightarrow> nat \<Rightarrow> bytes option result" where
  "read_property_value_from apdu position =
     (if position < length apdu then
        bindR (read_tag apdu position) (\<lambda>(number, is_context, kind, _, after).
          if is_context \<and> number = 3 \<and> kind = Open then
            bindR (close_loop apdu 1 after after) (\<lambda>(tag_start, _). Inr (Some (py_slice apdu after tag_start)))
          else read_property_value_from apdu after)
      else Inr None)"
  by pat_completeness auto
termination
  by (relation "measure (\<lambda>(apdu, position). length apdu - position)") (auto dest!: read_tag_progress)

declare read_property_value_from.simps [simp del]

definition read_property_value :: "bytes \<Rightarrow> bytes option result" where
  "read_property_value apdu = read_property_value_from apdu 3"

definition object_identifier_of :: "bytes \<Rightarrow> (int \<times> int) result" where
  "object_identifier_of body = bindR (unpack_be 4 body) (\<lambda>raw. Inr (drop_bit 22 raw, raw AND MAX_INSTANCE))"

text \<open>\<open>parse_read_property_request(apdu, with_array_index=True)\<close>; without the flag the source drops the
  index and does not read it.\<close>

definition parse_read_property_request_indexed :: "bytes \<Rightarrow> (int \<times> int \<times> int \<times> int option) option result" where
  "parse_read_property_request_indexed apdu = except_None [IndexError, StructError]
     (bindR (read_tag apdu 4) (\<lambda>(_, _, _, body, position).
      bindR (object_identifier_of body) (\<lambda>(object_type, instance_number).
      bindR (read_tag apdu position) (\<lambda>(_, _, _, property_octets, position).
      bindR (if position < length apdu then
               bindR (read_tag apdu position) (\<lambda>(number, is_context, kind, body, _).
                 Inr (if is_context \<and> number = 2 \<and> kind = Value then Some (int_from_bytes body) else None))
             else Inr None) (\<lambda>array_index.
      Inr (Some (object_type, instance_number, int_from_bytes property_octets, array_index)))))))"

definition parse_read_property_request :: "bytes \<Rightarrow> (int \<times> int \<times> int) option result" where
  "parse_read_property_request apdu = except_None [IndexError, StructError]
     (bindR (read_tag apdu 4) (\<lambda>(_, _, _, body, position).
      bindR (object_identifier_of body) (\<lambda>(object_type, instance_number).
      bindR (read_tag apdu position) (\<lambda>(_, _, _, property_octets, _).
      Inr (Some (object_type, instance_number, int_from_bytes property_octets))))))"

definition application_elements :: "bytes \<Rightarrow> bytes list result" where
  "application_elements octets =
     scan_tags (\<lambda>start t elements. Inr (elements @ [py_slice octets start (next_position t)])) octets 0 []"

definition application_values :: "bytes \<Rightarrow> (int \<times> bytes) list result" where
  "application_values octets =
     scan_tags (\<lambda>_ (number, is_context, kind, body, _) values.
       Inr (if kind = Value \<and> \<not> is_context then values @ [(number, body)] else values)) octets 0 []"

definition character_string :: "bytes \<Rightarrow> pystr option result" where
  "character_string v =
     (if v = [] then Inr None
      else bindR (read_tag v 0) (\<lambda>(number, is_context, kind, body, _).
        Inr (if is_context \<or> number \<noteq> 7 \<or> body = [] then None else Some (utf8_decode_replace (drop 1 body)))))"

text \<open>The dict that \<open>read_access_specifications\<close> builds, in insertion order: assigning to a key that is
  there keeps its place.\<close>

fun dict_set :: "('k \<times> 'v) list \<Rightarrow> 'k \<Rightarrow> 'v \<Rightarrow> ('k \<times> 'v) list" where
  "dict_set [] k v = [(k, v)]"
| "dict_set ((k', v') # d) k v = (if k' = k then (k, v) # d else (k', v') # dict_set d k v)"

definition dict_append :: "('k \<times> 'v list) list \<Rightarrow> 'k \<Rightarrow> 'v \<Rightarrow> ('k \<times> 'v list) list" where
  "dict_append d k v = map (\<lambda>(k', vs). if k' = k then (k', vs @ [v]) else (k', vs)) d"

definition read_access_step ::
    "nat \<Rightarrow> tag \<Rightarrow> ((int \<times> int) \<times> int list) list \<times> (int \<times> int) option \<Rightarrow>
     (((int \<times> int) \<times> int list) list \<times> (int \<times> int) option) result" where
  "read_access_step start t s =
     (case t of (number, is_context, kind, body, _) \<Rightarrow> case s of (members, current) \<Rightarrow>
        if kind = Value \<and> is_context \<and> number = 0 \<and> length body = 4 \<and> current = None then
          bindR (object_identifier_of body) (\<lambda>key. Inr (dict_set members key [], Some key))
        else case current of
          Some key \<Rightarrow>
            if kind = Value \<and> is_context \<and> number = 0 then Inr (dict_append members key (int_from_bytes body), current)
            else if kind = Close \<and> number = 1 then Inr (members, None)
            else Inr (members, current)
        | None \<Rightarrow> if kind = Close \<and> number = 1 then Inr (members, None) else Inr (members, current))"

definition read_access_specifications :: "bytes \<Rightarrow> ((int \<times> int) \<times> int list) list result" where
  "read_access_specifications v = bindR (scan_tags read_access_step v 0 ([], None)) (\<lambda>(members, _). Inr members)"

text \<open>The Python values \<open>decode_application\<close> returns.\<close>

datatype py_value =
    PyNone
  | PyBool bool
  | PyInt int
  | PyFloat pyfloat
  | PyStr pystr
  | PyBits "bool list"
  | PyObjectId int int
  | PyBytes bytes

definition octet_bits :: "octet \<Rightarrow> bool list" where
  "octet_bits octet = map (\<lambda>position. octet AND drop_bit position 0x80 \<noteq> 0) [0..<8]"

definition bits_of_body :: "bytes \<Rightarrow> bool list result" where
  "bits_of_body body =
     bindR (py_nth body 0) (\<lambda>unused. let bits = concat (map octet_bits (drop 1 body)) in
       Inr (if unused \<noteq> 0 then py_prefix bits (int (length bits) - uint unused) else bits))"

definition decode_content :: "int \<Rightarrow> bytes \<Rightarrow> py_value result" where
  "decode_content number body =
     (if number = TAG_NULL then Inr PyNone
      else if number = TAG_BOOLEAN then bindR (py_nth body 0) (\<lambda>b. Inr (PyBool (b \<noteq> 0)))
      else if number = TAG_UNSIGNED \<or> number = TAG_ENUMERATED then Inr (PyInt (int_from_bytes body))
      else if number = TAG_SIGNED then Inr (PyInt (int_from_bytes_signed body))
      else if number = TAG_REAL then bindR (unpack_f body) (\<lambda>x. Inr (PyFloat x))
      else if number = TAG_DOUBLE then bindR (unpack_d body) (\<lambda>x. Inr (PyFloat x))
      else if number = TAG_CHARACTER_STRING then Inr (PyStr (utf8_decode_replace (drop 1 body)))
      else if number = TAG_BIT_STRING then bindR (bits_of_body body) (\<lambda>bits. Inr (PyBits bits))
      else if number = TAG_OBJECT_IDENTIFIER then
        bindR (object_identifier_of body) (\<lambda>(object_type, instance_number). Inr (PyObjectId object_type instance_number))
      else Inr (PyBytes body))"

definition decode_application :: "bytes \<Rightarrow> py_value result" where
  "decode_application octets =
     (if octets = [] then Inr PyNone
      else bindR (read_tag octets 0) (\<lambda>(number, is_context, kind, body, _).
        if is_context \<or> kind \<noteq> Value then Inr PyNone else decode_content number body))"

definition decoded_values :: "bytes \<Rightarrow> py_value list result" where
  "decoded_values octets =
     scan_tags (\<lambda>start (number, is_context, kind, body, position) values.
       if kind = Value \<and> \<not> is_context then
         bindR (decode_application (py_slice octets start position)) (\<lambda>v. Inr (values @ [v]))
       else Inr values) octets 0 []"

definition application_tag :: "bytes \<Rightarrow> int option result" where
  "application_tag octets =
     (if octets = [] then Inr None
      else bindR (read_tag octets 0) (\<lambda>(number, is_context, _, _, _). Inr (if is_context then None else Some number)))"

definition error_class_and_code :: "bytes \<Rightarrow> (int \<times> int) option result" where
  "error_class_and_code apdu =
     bindR (application_values (drop 3 apdu)) (\<lambda>values.
       Inr (if length values < 2 then None
            else Some (int_from_bytes (snd (values ! 0)), int_from_bytes (snd (values ! 1)))))"

record write_request =
  object_type :: int
  instance_number :: int
  property_identifier :: int
  array_index :: "int option"
  value_octets :: bytes
  priority :: "int option"

definition parse_write_property_request :: "bytes \<Rightarrow> write_request option result" where
  "parse_write_property_request apdu = except_None [IndexError, StructError]
     (bindR (py_nth apdu 0) (\<lambda>pdu.
      if uint (drop_bit 4 pdu) \<noteq> PDU_CONFIRMED_REQUEST then Inr None
      else bindR (py_nth apdu 3) (\<lambda>service.
      if uint service \<noteq> SERVICE_WRITE_PROPERTY then Inr None
      else bindR (read_tag apdu 4) (\<lambda>(_, _, _, body, position).
      bindR (object_identifier_of body) (\<lambda>(ot, inst).
      bindR (read_tag apdu position) (\<lambda>(_, _, _, body, position).
      let pid = int_from_bytes body in
      bindR (read_tag apdu position) (\<lambda>(number, _, kind, body, after).
      let (index, position) = (if number = 2 \<and> kind = Value then (Some (int_from_bytes body), after)
                               else (None, position)) in
      bindR (read_tag apdu position) (\<lambda>(_, _, _, _, start).
      bindR (close_loop apdu 1 start start) (\<lambda>(tag_start, position).
      let octets = py_slice apdu start tag_start in
      bindR (if position < length apdu then
               bindR (read_tag apdu position) (\<lambda>(_, _, _, body, _). Inr (Some (int_from_bytes body)))
             else Inr None) (\<lambda>prio.
      Inr (Some \<lparr>object_type = ot, instance_number = inst, property_identifier = pid,
                 array_index = index, value_octets = octets, priority = prio\<rparr>)))))))))))"

definition context_values :: "bytes \<Rightarrow> (int \<times> bytes) list result" where
  "context_values octets =
     scan_tags (\<lambda>_ (number, is_context, kind, body, _) values.
       Inr (if is_context \<and> kind = Value then values @ [(number, body)] else values)) octets 0 []"

end
