(* ===== verification/Codec_Roundtrip.thy ===== *)
theory Codec_Roundtrip
  imports Codec_Decode
begin

unbundle bit_operations_syntax

text \<open>
  The decoders against the encoders. \<open>well_tagged\<close> is the abstract notion of a tagged value; the
  loops of \<open>Codec_Decode\<close> are characterised once over it (\<open>close_loop_value\<close>) and over sequences of
  whole tags (\<open>scan_tags_step\<close>), and each round trip applies them.
\<close>

section \<open>The loops over whole tags\<close>

lemma scan_tags_step:
  assumes "encodes enc n c k b" and "drop p data = enc @ post"
  shows "scan_tags body data p s =
     bindR (body p (n, c, k, b, p + length enc) s) (scan_tags body data (p + length enc))"
  using encodes_read_at [OF assms] encodes_position [OF assms]
  by (subst scan_tags.simps) (simp add: if_splits)

lemma scan_tags_end: "length data \<le> p \<Longrightarrow> scan_tags body data p s = Inr s"
  by (subst scan_tags.simps) simp

text \<open>A value: whole tags, every opening tag closed and no closing tag without its opening.\<close>

function balanced_from :: "bytes \<Rightarrow> nat \<Rightarrow> nat \<Rightarrow> bool" where
  "balanced_from v depth position =
     (if position < length v then
        (case read_tag v position of
           Inl _ \<Rightarrow> False
         | Inr (_, _, kind, _, after) \<Rightarrow>
             after \<le> length v \<and> \<not> (kind = Close \<and> depth = 0) \<and> balanced_from v (depth_after kind depth) after)
      else depth = 0)"
  by pat_completeness auto
termination
  by (relation "measure (\<lambda>(v, depth, position). length v - position)") (auto dest!: read_tag_progress)

declare balanced_from.simps [simp del]

definition well_tagged :: "bytes \<Rightarrow> bool" where
  "well_tagged v = balanced_from v 0 0"

text \<open>Moving a scan to a place that holds the same octets, with more nesting around it: the scan of the
  value ends where the value does, and goes on from there.\<close>

lemma balanced_from_moved:
  assumes "balanced_from v d q" and "q \<le> length v" and "drop p data = drop q v @ rest"
  shows "balanced_from data (d + e) p = balanced_from data e (p + (length v - q))"
  using assms
proof (induction v d q arbitrary: p rule: balanced_from.induct)
  case (1 v d q)
  show ?case
  proof (cases "q < length v")
    case True
    then obtain n c k b after where r: "read_tag v q = Inr (n, c, k, b, after)"
      and after: "after \<le> length v" and k: "\<not> (k = Close \<and> d = 0)" and bal: "balanced_from v (depth_after k d) after"
      using "1.prems"(1) by (subst (asm) balanced_from.simps) (auto split: sum.splits)
    have q: "q < after"
      using read_tag_progress [OF r] by simp
    have moved: "read_tag data p = Inr (n, c, k, b, p + (after - q))" "drop (p + (after - q)) data = drop after v @ rest"
      using rt.read_moved [OF r after "1.prems"(3)] by auto
    have len: "p + (after - q) \<le> length data" "p < length data"
      using arg_cong [OF "1.prems"(3), of length] True after q by simp_all
    have "depth_after k (d + e) = depth_after k d + e"
      using k by (cases k) auto
    then have "balanced_from data (d + e) p = balanced_from data (depth_after k d + e) (p + (after - q))"
      using moved len k by (subst balanced_from.simps) auto
    also have "\<dots> = balanced_from data e (p + (after - q) + (length v - after))"
      using "1.IH" [OF True r] bal after moved(2) by auto
    finally show ?thesis
      using q after by (simp add: algebra_simps)
  next
    case False
    then show ?thesis
      using "1.prems" by (subst (asm) balanced_from.simps) simp
  qed
qed

lemma well_tagged_append [intro]:
  assumes "well_tagged a" and "well_tagged b"
  shows "well_tagged (a @ b)"
proof -
  have "balanced_from (a @ b) 0 0 = balanced_from (a @ b) 0 (length a)"
    using balanced_from_moved [of a 0 0 0 "a @ b" b 0] assms(1) by (simp add: well_tagged_def)
  also have "\<dots> = balanced_from (a @ b) 0 (length a + length b)"
    using balanced_from_moved [of b 0 0 "length a" "a @ b" "[]" 0] assms(2) by (simp add: well_tagged_def)
  also have "\<dots>"
    by (subst balanced_from.simps) simp
  finally show ?thesis
    by (simp add: well_tagged_def)
qed

lemma well_tagged_Nil [simp]: "well_tagged []"
  by (simp add: well_tagged_def balanced_from.simps)

lemma balanced_from_tag:
  assumes "encodes enc n c k b" and "drop p data = enc @ post" and "\<not> (k = Close \<and> d = 0)"
  shows "balanced_from data d p = balanced_from data (depth_after k d) (p + length enc)"
proof -
  have "p + length enc \<le> length data"
    using arg_cong [OF assms(2), of length] encodes_position [OF assms(1,2)] by simp
  then show ?thesis
    using encodes_read_at [OF assms(1,2)] encodes_position [OF assms(1,2)] assms(3)
    by (subst balanced_from.simps) simp
qed

lemma well_tagged_tag [intro]:
  assumes "encodes enc n c Value b"
  shows "well_tagged enc"
  using balanced_from_tag [OF assms, of 0 enc "[]" 0]
  by (simp add: well_tagged_def balanced_from.simps [of enc 0 "length enc"])

lemma well_tagged_concat: "list_all well_tagged vs \<Longrightarrow> well_tagged (concat vs)"
  by (induction vs) auto

lemma well_tagged_bracket:
  assumes "encodes op n c Open b" and "well_tagged v" and "encodes cl m d Close b'"
  shows "well_tagged (op @ v @ cl)"
proof -
  let ?w = "op @ v @ cl"
  have "balanced_from ?w 0 0 = balanced_from ?w 1 (length op)"
    using balanced_from_tag [OF assms(1), of 0 ?w "v @ cl" 0] by simp
  also have "\<dots> = balanced_from ?w 1 (length op + length v)"
    using balanced_from_moved [of v 0 0 "length op" ?w cl 1] assms(2) by (simp add: well_tagged_def)
  also have "\<dots> = balanced_from ?w 0 (length op + length v + length cl)"
    using balanced_from_tag [OF assms(3), of "length op + length v" ?w "[]" 1] by simp
  also have "\<dots>"
    by (subst balanced_from.simps) simp
  finally show ?thesis
    by (simp add: well_tagged_def)
qed

text \<open>\<open>while depth\<close> stops at the closing tag of the value it is in.\<close>

lemma close_loop_from:
  assumes "balanced_from v d q" and "q \<le> length v" and "drop p data = drop q v @ cl @ post"
    and "encodes cl n c Close b"
  shows "close_loop data (d + 1) ts p = Inr (p + (length v - q), p + (length v - q) + length cl)"
  using assms
proof (induction v d q arbitrary: p ts rule: balanced_from.induct)
  case (1 v d q)
  show ?case
  proof (cases "q < length v")
    case True
    then obtain n c k b after where r: "read_tag v q = Inr (n, c, k, b, after)"
      and after: "after \<le> length v" and k: "\<not> (k = Close \<and> d = 0)" and bal: "balanced_from v (depth_after k d) after"
      using "1.prems"(1) by (subst (asm) balanced_from.simps) (auto split: sum.splits)
    have q: "q < after"
      using read_tag_progress [OF r] by simp
    have moved: "read_tag data p = Inr (n, c, k, b, p + (after - q))"
        "drop (p + (after - q)) data = drop after v @ cl @ post"
      using rt.read_moved [OF r after "1.prems"(3)] by auto
    have "depth_after k (d + 1) = depth_after k d + 1"
      using k by (cases k) auto
    then have "close_loop data (d + 1) ts p = close_loop data (depth_after k d + 1) p (p + (after - q))"
      using moved by (subst close_loop.simps) simp
    then show ?thesis
      using "1.IH" [OF True r] bal after q moved(2) "1.prems"(4) by simp
  next
    case False
    then have "d = 0"
      using "1.prems"(1) by (subst (asm) balanced_from.simps) simp
    moreover have "drop p data = cl @ post" and "length v - q = 0"
      using False "1.prems"(3) by auto
    moreover have "read_tag data p = Inr (n, c, Close, b, p + length cl)"
      using encodes_read_at [OF "1.prems"(4)] \<open>drop p data = cl @ post\<close> by blast
    ultimately show ?thesis
      by (subst close_loop.simps) (simp add: close_loop.simps [of data 0])
  qed
qed

lemma close_loop_value:
  assumes "well_tagged v" and "drop p data = v @ cl @ post" and "encodes cl n c Close b"
  shows "close_loop data 1 ts p = Inr (p + length v, p + length v + length cl)"
  using close_loop_from [of v 0 0 p data cl post n c b ts] assms by (simp add: well_tagged_def)

section \<open>Requests\<close>

text \<open>Ranges of the fields: an octet, and what \<open>_unsigned_octets\<close> takes.\<close>

definition is_octet :: "int \<Rightarrow> bool" where
  "is_octet v \<longleftrightarrow> 0 \<le> v \<and> v < 256"

definition is_unsigned :: "int \<Rightarrow> bool" where
  "is_unsigned v \<longleftrightarrow> 0 \<le> v \<and> v < 2 ^ 32"

lemma is_unsigned_content: "is_unsigned v \<Longrightarrow> int_from_bytes (int_content v) = v"
  unfolding is_unsigned_def using int_content_value by blast

text \<open>What an optional unsigned parameter writes: nothing, or one tag.\<close>

definition encodes_optional :: "bytes \<Rightarrow> int \<Rightarrow> int option \<Rightarrow> bool" where
  "encodes_optional enc t v =
     (case v of None \<Rightarrow> enc = [] | Some i \<Rightarrow> encodes enc t True Value (int_content i))"

lemma unsigned_parameter:
  assumes "is_unsigned v" and "0 \<le> t" and "t < 15"
  obtains enc where "context_unsigned t v = Inr enc" and "encodes enc t True Value (int_content v)"
  using context_unsigned_ok [of t v] assms unfolding is_unsigned_def by auto

lemma optional_parameter:
  assumes "pred_option is_unsigned v" and "0 \<le> t" and "t < 15"
  obtains enc where "optional (context_unsigned t) v = Inr enc" and "encodes_optional enc t v"
  using assms unsigned_parameter [of _ t] by (cases v) (auto simp: encodes_optional_def)

lemma object_parameter:
  assumes "valid_object_id ot i" and "0 \<le> t" and "t < 15"
  obtains enc where "context_object_id t ot i = Inr enc" and "encodes enc t True Value (object_id_content ot i)"
  using context_object_id_ok [of t ot i] assms by auto

lemma object_identifier_of_content:
  assumes "valid_object_id t i"
  shows "object_identifier_of (object_id_content t i) = Inr (t, i)"
proof -
  have "unpack_be 4 (object_id_content t i) = Inr (t * 2 ^ 22 + i)"
    unfolding unpack_be_def length_object_id_content object_id_content_value [OF assms] by simp
  then show ?thesis
    unfolding object_identifier_of_def by (simp only: bindR_simps object_id_fields [OF assms])
qed

lemma confirmed_request_ok:
  assumes "is_octet invoke" and "is_octet service"
  shows "confirmed_request invoke service parameters =
     Inr ([0, 5, word_of_int invoke, word_of_int service] @ parameters)"
  using assms by (simp add: confirmed_request_def bytes_of_def is_octet_def)

lemma read_property_request_shape:
  assumes "is_octet invoke" and "valid_object_id ot i" and "is_unsigned p" and "pred_option is_unsigned idx"
  obtains oid pid ix where
    "read_property_request invoke ot i p idx = Inr ([0, 5, word_of_int invoke, 12] @ oid @ pid @ ix)"
    "encodes oid 0 True Value (object_id_content ot i)" "encodes pid 1 True Value (int_content p)"
    "encodes_optional ix 2 idx"
proof -
  obtain oid where oid: "context_object_id 0 ot i = Inr oid" "encodes oid 0 True Value (object_id_content ot i)"
    by (rule object_parameter [OF assms(2), of 0]) auto
  obtain pid where pid: "context_unsigned 1 p = Inr pid" "encodes pid 1 True Value (int_content p)"
    by (rule unsigned_parameter [OF assms(3), of 1]) auto
  obtain ix where ix: "optional (context_unsigned 2) idx = Inr ix" "encodes_optional ix 2 idx"
    by (rule optional_parameter [OF assms(4), of 2]) auto
  have "read_property_request invoke ot i p idx = Inr ([0, 5, word_of_int invoke, 12] @ oid @ pid @ ix)"
    using oid(1) pid(1) ix(1) confirmed_request_ok [OF assms(1), of 12]
    by (simp add: read_property_request_def is_octet_def)
  with that oid(2) pid(2) ix(2) show thesis
    by blast
qed

text \<open>The first two parameters of a request are read back.\<close>

lemma parse_object_and_property:
  assumes "encodes oid 0 True Value (object_id_content ot i)" and "encodes pid 1 True Value (int_content p)"
    and "drop 4 apdu = oid @ pid @ rest"
  shows "read_tag apdu 4 = Inr (0, True, Value, object_id_content ot i, 4 + length oid)"
    and "read_tag apdu (4 + length oid) = Inr (1, True, Value, int_content p, 4 + length oid + length pid)"
    and "drop (4 + length oid + length pid) apdu = rest"
  using encodes_read_at [OF assms(1,3)] drop_after [OF assms(3)] encodes_read_at [OF assms(2), of "4 + length oid" apdu rest]
    drop_after [of "4 + length oid" apdu pid rest] by auto

lemma read_property_request_parses_indexed:
  assumes "is_octet invoke" and "valid_object_id ot i" and "is_unsigned p" and "pred_option is_unsigned idx"
  shows "bindR (read_property_request invoke ot i p idx) parse_read_property_request_indexed
     = Inr (Some (ot, i, p, idx))"
proof -
  obtain oid pid ix where apdu: "read_property_request invoke ot i p idx = Inr ([0, 5, word_of_int invoke, 12] @ oid @ pid @ ix)"
    and enc: "encodes oid 0 True Value (object_id_content ot i)" "encodes pid 1 True Value (int_content p)"
    and ix: "encodes_optional ix 2 idx"
    by (rule read_property_request_shape [OF assms])
  let ?apdu = "[0, 5, word_of_int invoke, 12] @ oid @ pid @ ix"
  have "drop 4 ?apdu = oid @ pid @ ix"
    by simp
  note tags = parse_object_and_property [OF enc this]
  have "(if 4 + length oid + length pid < length ?apdu then
           bindR (read_tag ?apdu (4 + length oid + length pid)) (\<lambda>(number, is_context, kind, body, _).
             Inr (if is_context \<and> number = 2 \<and> kind = Value then Some (int_from_bytes body) else None))
         else Inr None) = Inr idx"
  proof (cases idx)
    case None
    then show ?thesis
      using ix by (simp add: encodes_optional_def)
  next
    case (Some j)
    then have e: "encodes ix 2 True Value (int_content j)" and "is_unsigned j"
      using ix assms(4) by (auto simp: encodes_optional_def)
    then show ?thesis
      using Some encodes_read_at [OF e, of _ _ "[]"] encodes_nonempty [OF e] tags(3)
      by (simp add: is_unsigned_content)
  qed
  then show ?thesis
    unfolding apdu parse_read_property_request_indexed_def bindR_simps tags split
      object_identifier_of_content [OF assms(2)]
    by (simp add: is_unsigned_content [OF assms(3)])
qed

lemma read_property_request_parses:
  assumes "is_octet invoke" and "valid_object_id ot i" and "is_unsigned p" and "pred_option is_unsigned idx"
  shows "bindR (read_property_request invoke ot i p idx) parse_read_property_request = Inr (Some (ot, i, p))"
proof -
  obtain oid pid ix where apdu: "read_property_request invoke ot i p idx = Inr ([0, 5, word_of_int invoke, 12] @ oid @ pid @ ix)"
    and enc: "encodes oid 0 True Value (object_id_content ot i)" "encodes pid 1 True Value (int_content p)"
    by (rule read_property_request_shape [OF assms])
  have "drop 4 ([0, 5, word_of_int invoke, 12] @ oid @ pid @ ix) = oid @ pid @ ix"
    by simp
  note tags = parse_object_and_property [OF enc this]
  show ?thesis
    unfolding apdu parse_read_property_request_def bindR_simps tags split
      object_identifier_of_content [OF assms(2)]
    by (simp add: is_unsigned_content [OF assms(3)])
qed

lemma bracket_parameter:
  assumes "0 \<le> t" and "t < 15"
  obtains op cl where "opening_tag t = Inr op" and "closing_tag t = Inr cl"
    and "encodes op t True Open []" and "encodes cl t True Close []"
  using opening_tag_ok [OF assms] closing_tag_ok [OF assms] by auto

lemma write_property_request_shape:
  assumes "is_octet invoke" and "valid_object_id ot i" and "is_unsigned p"
    and "pred_option is_unsigned prio" and "pred_option is_unsigned idx"
  obtains oid pid ix op cl pr where
    "write_property_request invoke ot i p v prio idx =
       Inr ([0, 5, word_of_int invoke, 15] @ oid @ pid @ ix @ op @ v @ cl @ pr)"
    "encodes oid 0 True Value (object_id_content ot i)" "encodes pid 1 True Value (int_content p)"
    "encodes_optional ix 2 idx" "encodes op 3 True Open []" "encodes cl 3 True Close []"
    "encodes_optional pr 4 prio"
proof -
  obtain oid where oid: "context_object_id 0 ot i = Inr oid" "encodes oid 0 True Value (object_id_content ot i)"
    by (rule object_parameter [OF assms(2), of 0]) auto
  obtain pid where pid: "context_unsigned 1 p = Inr pid" "encodes pid 1 True Value (int_content p)"
    by (rule unsigned_parameter [OF assms(3), of 1]) auto
  obtain ix where ix: "optional (context_unsigned 2) idx = Inr ix" "encodes_optional ix 2 idx"
    by (rule optional_parameter [OF assms(5), of 2]) auto
  obtain pr where pr: "optional (context_unsigned 4) prio = Inr pr" "encodes_optional pr 4 prio"
    by (rule optional_parameter [OF assms(4), of 4]) auto
  obtain op cl where br: "opening_tag 3 = Inr op" "closing_tag 3 = Inr cl"
      "encodes op 3 True Open []" "encodes cl 3 True Close []"
    by (rule bracket_parameter [of 3]) auto
  have "write_property_request invoke ot i p v prio idx =
      Inr ([0, 5, word_of_int invoke, 15] @ oid @ pid @ ix @ op @ v @ cl @ pr)"
    using oid(1) pid(1) ix(1) br(1,2) pr(1) confirmed_request_ok [OF assms(1), of 15]
    by (simp add: write_property_request_def is_octet_def)
  with that oid(2) pid(2) ix(2) br(3,4) pr(2) show thesis
    by blast
qed

text \<open>An optional \<open>[2]\<close> in front of an opening tag: the parser looks at the next tag and takes it or not.\<close>

lemma parse_optional_index:
  assumes "encodes_optional ix 2 idx" and "pred_option is_unsigned idx" and "encodes op 3 True Open []"
    and "drop q apdu = ix @ op @ rest"
  shows "\<exists>number c kind body after. read_tag apdu q = Inr (number, c, kind, body, after) \<and>
     (if number = 2 \<and> kind = Value then (Some (int_from_bytes body), after) else (None, q)) = (idx, q + length ix)"
proof (cases idx)
  case None
  then show ?thesis
    using assms(1,4) encodes_read_at [OF assms(3), of q apdu rest] by (auto simp: encodes_optional_def)
next
  case (Some j)
  then have e: "encodes ix 2 True Value (int_content j)" and "is_unsigned j"
    using assms(1,2) by (auto simp: encodes_optional_def)
  then show ?thesis
    using Some encodes_read_at [OF e assms(4)] by (auto simp: is_unsigned_content)
qed

text \<open>An optional last parameter.\<close>

lemma parse_optional_last:
  assumes "encodes_optional pr t prio" and "pred_option is_unsigned prio" and "drop q apdu = pr" and "q \<le> length apdu"
  shows "(if q < length apdu then
            bindR (read_tag apdu q) (\<lambda>(_, _, _, body, _). Inr (Some (int_from_bytes body)))
          else Inr None) = Inr prio"
proof (cases prio)
  case None
  then have "drop q apdu = []"
    using assms(1,3) by (simp add: encodes_optional_def)
  then show ?thesis
    using None by simp
next
  case (Some j)
  then have e: "encodes pr t True Value (int_content j)" and "is_unsigned j"
    using assms(1,2) by (auto simp: encodes_optional_def)
  then show ?thesis
    using Some encodes_read_at [OF e, of q apdu "[]"] encodes_position [OF e, of q apdu "[]"] assms(3)
    by (simp add: is_unsigned_content)
qed

text \<open>The value between an opening and a closing tag.\<close>

lemma parse_bracketed:
  assumes "encodes op 3 True Open []" and "well_tagged v" and "encodes cl 3 True Close []"
    and "drop q apdu = op @ v @ cl @ rest"
  defines "start \<equiv> q + length op"
  shows "read_tag apdu q = Inr (3, True, Open, [], start)"
    and "close_loop apdu 1 ts start = Inr (start + length v, start + length v + length cl)"
    and "py_slice apdu start (start + length v) = v"
    and "drop (start + length v + length cl) apdu = rest"
    and "start + length v + length cl \<le> length apdu"
proof -
  have d: "drop start apdu = v @ cl @ rest"
    unfolding start_def using drop_after [OF assms(4)] .
  show "read_tag apdu q = Inr (3, True, Open, [], start)"
    unfolding start_def by (rule encodes_read_at [OF assms(1,4)])
  show "close_loop apdu 1 ts start = Inr (start + length v, start + length v + length cl)"
    by (rule close_loop_value [OF assms(2) d assms(3)])
  show "py_slice apdu start (start + length v) = v"
    by (simp add: py_slice_def d)
  show "drop (start + length v + length cl) apdu = rest"
    using drop_after [OF drop_after [OF d]] .
  show "start + length v + length cl \<le> length apdu"
    using arg_cong [OF d, of length] encodes_nonempty [OF assms(3)] by (cases cl) auto
qed

lemma write_property_request_parses:
  assumes "is_octet invoke" and "valid_object_id ot i" and "is_unsigned p"
    and "pred_option is_unsigned prio" and "pred_option is_unsigned idx" and "well_tagged v"
  shows "bindR (write_property_request invoke ot i p v prio idx) parse_write_property_request =
     Inr (Some \<lparr>object_type = ot, instance_number = i, property_identifier = p,
                array_index = idx, value_octets = v, priority = prio\<rparr>)"
proof -
  obtain oid pid ix op cl pr where apdu: "write_property_request invoke ot i p v prio idx =
       Inr ([0, 5, word_of_int invoke, 15] @ oid @ pid @ ix @ op @ v @ cl @ pr)"
    and enc: "encodes oid 0 True Value (object_id_content ot i)" "encodes pid 1 True Value (int_content p)"
    and ix: "encodes_optional ix 2 idx" and br: "encodes op 3 True Open []" "encodes cl 3 True Close []"
    and pr: "encodes_optional pr 4 prio"
    by (rule write_property_request_shape [OF assms(1-5)])
  define octets where "octets = [0, 5, word_of_int invoke, 15 :: octet] @ oid @ pid @ ix @ op @ v @ cl @ pr"
  have "drop 4 octets = oid @ pid @ ix @ op @ v @ cl @ pr"
    by (simp add: octets_def)
  note tags = parse_object_and_property [OF enc this]
  obtain number c kind body after where third:
      "read_tag octets (4 + length oid + length pid) = Inr (number, c, kind, body, after)"
      "(if number = 2 \<and> kind = Value then (Some (int_from_bytes body), after) else (None, 4 + length oid + length pid))
         = (idx, 4 + length oid + length pid + length ix)"
    using parse_optional_index [OF ix assms(5) br(1) tags(3)] by blast
  note inner = parse_bracketed [OF br(1) assms(6) br(2) drop_after [OF tags(3)]]
  note last = parse_optional_last [OF pr assms(4) inner(4,5)]
  have "py_nth octets 0 = Inr 0" and "py_nth octets 3 = Inr 15"
    by (simp_all add: octets_def)
  then show ?thesis
    unfolding apdu octets_def [symmetric] parse_write_property_request_def bindR_simps tags split Let_def
      object_identifier_of_content [OF assms(2)] third inner(1,2,3) last
    by (simp add: is_unsigned_content [OF assms(3)])
qed

section \<open>Answers\<close>

lemma read_property_value_skip:
  assumes "encodes enc n c Value b" and "drop q apdu = enc @ rest"
  shows "read_property_value_from apdu q = read_property_value_from apdu (q + length enc)"
  using encodes_read_at [OF assms] encodes_position [OF assms]
  by (subst read_property_value_from.simps) simp

lemma read_property_ack_value:
  assumes "is_octet invoke" and "valid_object_id ot i" and "is_unsigned p" and "well_tagged v"
  shows "bindR (read_property_ack invoke ot i p v) read_property_value = Inr (Some v)"
proof -
  obtain oid where oid: "context_object_id 0 ot i = Inr oid" "encodes oid 0 True Value (object_id_content ot i)"
    by (rule object_parameter [OF assms(2), of 0]) auto
  obtain pid where pid: "context_unsigned 1 p = Inr pid" "encodes pid 1 True Value (int_content p)"
    by (rule unsigned_parameter [OF assms(3), of 1]) auto
  obtain op cl where br: "opening_tag 3 = Inr op" "closing_tag 3 = Inr cl"
      "encodes op 3 True Open []" "encodes cl 3 True Close []"
    by (rule bracket_parameter [of 3]) auto
  define octets where "octets = [0x30, word_of_int invoke, 12 :: octet] @ oid @ pid @ op @ v @ cl @ []"
  have apdu: "read_property_ack invoke ot i p v = Inr octets"
    using assms(1) oid(1) pid(1) br(1,2)
    by (simp add: read_property_ack_def bytes_of_def is_octet_def octets_def)
  have d: "drop 3 octets = oid @ pid @ op @ v @ cl @ []"
    by (simp add: octets_def)
  note skip = read_property_value_skip [OF oid(2) d] read_property_value_skip [OF pid(2) drop_after [OF d]]
  note inner = parse_bracketed [OF br(3) assms(4) br(4) drop_after [OF drop_after [OF d]]]
  have "read_property_value_from octets (3 + length oid + length pid) = Inr (Some v)"
    using inner encodes_position [OF br(3) drop_after [OF drop_after [OF d]]]
    by (subst read_property_value_from.simps) simp
  then show ?thesis
    by (simp add: apdu read_property_value_def skip)
qed

end
