(* ===== verification/Codec_Values.thy ===== *)
theory Codec_Values
  imports Codec_Roundtrip
begin

unbundle bit_operations_syntax

text \<open>
  Application-tagged primitives as Python values. \<open>primitive enc v\<close>: the octets \<open>enc\<close> are one
  application-tagged primitive that decodes to \<open>v\<close>; runs of primitives are split and decoded
  element by element. The locale \<open>primitive_codec\<close> is the contract of an encoder (on its valid
  arguments it writes one primitive of its tag number that decodes to the argument) and what
  follows from it: round trips, the tag number, lists, injectivity. It is interpreted on every
  application encoder of the codec. The bit loop of \<open>application_bit_string\<close> is specified bit by bit.
\<close>

section \<open>Runs of primitives\<close>

definition primitive :: "bytes \<Rightarrow> py_value \<Rightarrow> bool" where
  "primitive enc v \<longleftrightarrow> (\<exists>n b. encodes enc n False Value b \<and> decode_content n b = Inr v)"

lemma primitive_decodes: "primitive enc v \<Longrightarrow> decode_application enc = Inr v"
  by (auto simp: primitive_def decode_application_def encodes_def dest: encodes_nonempty [unfolded encodes_def])

lemma primitive_well_tagged: "primitive enc v \<Longrightarrow> well_tagged enc"
  by (auto simp: primitive_def)

lemma py_slice_whole:
  "drop p data = enc @ post \<Longrightarrow> py_slice data p (p + length enc) = enc"
  by (simp add: py_slice_def)

lemma decoded_values_scan:
  assumes "list_all2 primitive encs vs" and "drop p data = concat encs" and "p \<le> length data"
  shows "scan_tags (\<lambda>start (number, is_context, kind, body, position) values.
       if kind = Value \<and> \<not> is_context then
         bindR (decode_application (py_slice data start position)) (\<lambda>v. Inr (values @ [v]))
       else Inr values) data p acc = Inr (acc @ vs)"
  using assms
proof (induction encs vs arbitrary: p acc rule: list_all2_induct)
  case Nil
  then show ?case
    by (simp add: scan_tags_end)
next
  case (Cons enc encs v vs)
  obtain n b where e: "encodes enc n False Value b"
    using Cons.hyps(1) by (auto simp: primitive_def)
  have d: "drop p data = enc @ concat encs"
    using Cons.prems(1) by simp
  show ?case
    using encodes_end [OF e d] primitive_decodes [OF Cons.hyps(1)] Cons.IH [OF drop_after [OF d]]
    by (subst scan_tags_step [OF e d]) (simp add: py_slice_whole [OF d])
qed

lemma decoded_values_primitives:
  "list_all2 primitive encs vs \<Longrightarrow> decoded_values (concat encs) = Inr vs"
  unfolding decoded_values_def using decoded_values_scan [of encs vs 0 "concat encs" "[]"] by simp

lemma elements_scan:
  assumes "list_all whole_tag encs" and "drop p data = concat encs" and "p \<le> length data"
  shows "scan_tags (\<lambda>start t elements. Inr (elements @ [py_slice data start (next_position t)])) data p acc = Inr (acc @ encs)"
  using assms
proof (induction encs arbitrary: p acc)
  case Nil
  then show ?case
    by (simp add: scan_tags_end)
next
  case (Cons enc encs)
  obtain n c k b where e: "encodes enc n c k b"
    using Cons.prems(1) by (auto elim: whole_tagE)
  have d: "drop p data = enc @ concat encs"
    using Cons.prems(2) by simp
  show ?case
    using encodes_end [OF e d] Cons.IH [OF _ drop_after [OF d]] Cons.prems(1)
    by (subst scan_tags_step [OF e d]) (simp add: py_slice_whole [OF d])
qed

lemma application_elements_whole:
  "list_all whole_tag encs \<Longrightarrow> application_elements (concat encs) = Inr encs"
  unfolding application_elements_def using elements_scan [of encs 0 "concat encs" "[]"] by simp

section \<open>The contract of an application encoder\<close>

locale primitive_codec =
  fixes encode :: "'a \<Rightarrow> bytes result"
    and valid :: "'a \<Rightarrow> bool"
    and number :: "'a \<Rightarrow> int"
    and py :: "'a \<Rightarrow> py_value"
  assumes encode_tag: "valid x \<Longrightarrow>
    \<exists>enc b. encode x = Inr enc \<and> encodes enc (number x) False Value b \<and> decode_content (number x) b = Inr (py x)"
begin

lemma encode_primitive:
  assumes "valid x"
  obtains enc where "encode x = Inr enc" and "primitive enc (py x)"
  using encode_tag [OF assms] unfolding primitive_def by blast

lemma decode_encode: "valid x \<Longrightarrow> bindR (encode x) decode_application = Inr (py x)"
  by (rule encode_primitive [of x]) (auto simp: primitive_decodes)

lemma tag_encode:
  assumes "valid x"
  shows "bindR (encode x) application_tag = Inr (Some (number x))"
proof -
  obtain enc b where enc: "encode x = Inr enc" and e: "encodes enc (number x) False Value b"
    using encode_tag [OF assms] by auto
  show ?thesis
    using encodes_nonempty [OF e] e by (simp add: enc application_tag_def encodes_def)
qed

lemma encode_well_tagged: "valid x \<Longrightarrow> encode x = Inr enc \<Longrightarrow> well_tagged enc"
  by (rule encode_primitive [of x]) (auto dest: primitive_well_tagged)

lemma encode_list:
  assumes "list_all valid xs"
  shows "\<exists>encs. catR (map encode xs) = Inr (concat encs) \<and> list_all2 primitive encs (map py xs)"
  using assms
proof (induction xs)
  case Nil
  have "catR (map encode []) = Inr (concat []) \<and> list_all2 primitive [] (map py [])"
    by simp
  then show ?case
    by blast
next
  case (Cons x xs)
  obtain encs where "catR (map encode xs) = Inr (concat encs)" "list_all2 primitive encs (map py xs)"
    using Cons by auto
  moreover obtain enc where "encode x = Inr enc" "primitive enc (py x)"
    using encode_primitive [of x] Cons.prems by auto
  ultimately have "catR (map encode (x # xs)) = Inr (concat (enc # encs)) \<and> list_all2 primitive (enc # encs) (map py (x # xs))"
    by simp
  then show ?case
    by blast
qed

lemma decode_list: "list_all valid xs \<Longrightarrow> bindR (catR (map encode xs)) decoded_values = Inr (map py xs)"
  using encode_list [of xs] decoded_values_primitives by auto

lemma split_list:
  assumes "list_all valid xs"
  shows "bindR (catR (map encode xs)) application_elements = Inr (map (\<lambda>x. projr (encode x)) xs)"
proof -
  have "whole_tag (projr (encode x))" and "encode x = Inr (projr (encode x))" if "x \<in> set xs" for x
    using encode_tag [of x] assms that by (auto simp: list_all_iff intro: encodes_whole_tag)
  then have "map encode xs = map Inr (map (\<lambda>x. projr (encode x)) xs)"
    and "list_all whole_tag (map (\<lambda>x. projr (encode x)) xs)"
    by (auto simp: list_all_iff)
  then show ?thesis
    using application_elements_whole by (simp only: catR_Inr bindR_simps)
qed

lemma encode_distinct: "valid x \<Longrightarrow> valid y \<Longrightarrow> py x \<noteq> py y \<Longrightarrow> encode x \<noteq> encode y"
  using decode_encode [of x] decode_encode [of y] by auto

end

section \<open>The bit loop\<close>

text \<open>Bit \<open>index\<close> of a bit string, most significant bit of the first octet first.\<close>

definition bit_at :: "bytes \<Rightarrow> nat \<Rightarrow> bool" where
  "bit_at octets index = (octets ! (index div 8) AND drop_bit (index mod 8) 0x80 \<noteq> 0)"

lemma bit_mask_octet:
  assumes "j < 8"
  shows "drop_bit j (0x80 :: octet) = 2 ^ (7 - j)"
proof -
  have "j \<in> {0, 1, 2, 3, 4, 5, 6, 7}"
    using assms by auto
  then show ?thesis
    by (auto simp: drop_bit_eq_div)
qed

lemma bit_at_bit: "bit_at octets index = bit (octets ! (index div 8)) (7 - index mod 8)"
  by (simp add: bit_at_def bit_mask_octet and_exp_eq_0_iff_not_bit)

lemma or_mask_bit:
  fixes w :: octet
  assumes "i < 8" and "j < 8"
  shows "bit (w OR drop_bit i 0x80) (7 - j) \<longleftrightarrow> bit w (7 - j) \<or> i = j"
  using assms by (auto simp: bit_mask_octet bit_or_iff bit_exp_iff)

lemma length_set_bits_from [simp]: "length (set_bits_from bs index octets) = length octets"
  by (induction bs index octets rule: set_bits_from.induct) auto

lemma bit_at_set:
  assumes "index < 8 * length octets" and "i < 8 * length octets"
  shows "bit_at (octets[index div 8 := octets ! (index div 8) OR drop_bit (index mod 8) 0x80]) i
     \<longleftrightarrow> bit_at octets i \<or> i = index"
proof (cases "i div 8 = index div 8")
  case True
  then have "i = index \<longleftrightarrow> index mod 8 = i mod 8"
    by (metis div_mult_mod_eq)
  then show ?thesis
    using True assms or_mask_bit [of "index mod 8" "i mod 8" "octets ! (index div 8)"]
    by (simp add: bit_at_bit less_mult_imp_div_less mult.commute)
next
  case False
  then show ?thesis
    using assms by (auto simp: bit_at_bit)
qed

lemma set_bits_from_bit:
  assumes "index + length bs \<le> 8 * length octets" and "i < 8 * length octets"
  shows "bit_at (set_bits_from bs index octets) i \<longleftrightarrow>
     bit_at octets i \<or> (index \<le> i \<and> i < index + length bs \<and> bs ! (i - index))"
  using assms
proof (induction bs index octets rule: set_bits_from.induct)
  case (1 index octets)
  then show ?case by auto
next
  case (2 b bs index octets)
  let ?next = "if b then octets[index div 8 := octets ! (index div 8) OR drop_bit (index mod 8) 0x80] else octets"
  have "bit_at ?next i \<longleftrightarrow> bit_at octets i \<or> (b \<and> i = index)"
    using bit_at_set [of index octets i] "2.prems" by simp
  moreover have "bit_at (set_bits_from (b # bs) index octets) i \<longleftrightarrow>
      bit_at ?next i \<or> (Suc index \<le> i \<and> i < Suc index + length bs \<and> bs ! (i - Suc index))"
    using "2.IH" "2.prems" by simp
  ultimately show ?case
    by (cases "i = index") (auto simp: nth_Cons' Suc_le_eq)
qed

lemma length_octet_bits [simp]: "length (octet_bits w) = 8"
  by (simp add: octet_bits_def)

lemma length_concat_octet_bits [simp]: "length (concat (map octet_bits octets)) = 8 * length octets"
  by (induction octets) auto

lemma concat_octet_bits_nth:
  "i < 8 * length octets \<Longrightarrow> concat (map octet_bits octets) ! i = bit_at octets i"
proof (induction octets arbitrary: i)
  case Nil
  then show ?case by simp
next
  case (Cons w octets)
  show ?case
  proof (cases "i < 8")
    case True
    then show ?thesis
      by (simp add: nth_append bit_at_def octet_bits_def)
  next
    case False
    then have "i div 8 = Suc ((i - 8) div 8)" and "i mod 8 = (i - 8) mod 8"
      by (simp_all add: le_div_geq le_mod_geq)
    then show ?thesis
      using Cons.IH [of "i - 8"] Cons.prems False by (simp add: nth_append bit_at_def)
  qed
qed

lemma set_bits_bits:
  assumes "length bits \<le> 8 * n"
  shows "concat (map octet_bits (set_bits_from bits 0 (replicate n 0))) = bits @ replicate (8 * n - length bits) False"
proof (rule nth_equalityI)
  show "length (concat (map octet_bits (set_bits_from bits 0 (replicate n 0)))) =
      length (bits @ replicate (8 * n - length bits) False)"
    using assms by simp
next
  fix i
  assume "i < length (concat (map octet_bits (set_bits_from bits 0 (replicate n 0))))"
  then have i: "i < 8 * n"
    by simp
  then have "\<not> bit_at (replicate n 0) i"
    by (simp add: bit_at_bit less_mult_imp_div_less mult.commute)
  then show "concat (map octet_bits (set_bits_from bits 0 (replicate n 0))) ! i =
      (bits @ replicate (8 * n - length bits) False) ! i"
    using i assms by (simp add: concat_octet_bits_nth set_bits_from_bit nth_append)
qed

text \<open>The content of a bit string decodes to the bits, whatever their number.\<close>

lemma bit_string_body_ok:
  "\<exists>body. bit_string_body bits = Inr body \<and> length body = 1 + (length bits + 7) div 8 \<and> bits_of_body body = Inr bits"
proof -
  define n where "n = (length bits + 7) div 8"
  define octets where "octets = set_bits_from bits 0 (replicate n 0)"
  have n: "length bits \<le> 8 * n" "8 * n - length bits < 8"
    unfolding n_def by presburger+
  have len: "length octets = n"
    by (simp add: octets_def)
  have spare: "int n * 8 - int (length bits) = int (8 * n - length bits)"
    using n(1) by (simp add: of_nat_diff)
  have body: "bit_string_body bits = Inr (word_of_int (int (8 * n - length bits)) # octets)"
    using n(2) unfolding bit_string_body_def n_def [symmetric] Let_def octets_def [symmetric] len spare
    by (simp add: bytes_of_def)
  have u: "uint (word_of_int (int (8 * n - length bits)) :: octet) = int (8 * n - length bits)"
    unfolding uint_octet_of_int using n(2) by simp
  then have z: "(word_of_int (int (8 * n - length bits)) :: octet) = 0 \<longleftrightarrow> 8 * n - length bits = 0"
    by (metis of_nat_0 of_nat_eq_0_iff uint_0_iff)
  have "bits_of_body (word_of_int (int (8 * n - length bits)) # octets) = Inr bits"
    using n u z set_bits_bits [OF n(1)]
    by (auto simp: bits_of_body_def Let_def octets_def py_prefix_def simp del: of_nat_diff)
  with body len show ?thesis
    by (auto simp: n_def)
qed

section \<open>The encoders keep the contract\<close>

lemma encoder_content:
  assumes "\<exists>enc. m = Inr enc \<and> encodes enc n False Value b" and "decode_content n b = Inr v"
  shows "\<exists>enc b. m = Inr enc \<and> encodes enc n False Value b \<and> decode_content n b = Inr v"
  using assms by blast

interpretation pu: primitive_codec application_unsigned is_unsigned "\<lambda>_. TAG_UNSIGNED" PyInt
proof
  fix v assume "is_unsigned v"
  then show "\<exists>enc b. application_unsigned v = Inr enc \<and> encodes enc TAG_UNSIGNED False Value b \<and>
      decode_content TAG_UNSIGNED b = Inr (PyInt v)"
    using is_unsigned_content [of v]
    by (intro encoder_content [OF application_unsigned_ok]) (auto simp: is_unsigned_def decode_content_def)
qed

interpretation pe: primitive_codec application_enumerated is_unsigned "\<lambda>_. TAG_ENUMERATED" PyInt
proof
  fix v assume "is_unsigned v"
  then show "\<exists>enc b. application_enumerated v = Inr enc \<and> encodes enc TAG_ENUMERATED False Value b \<and>
      decode_content TAG_ENUMERATED b = Inr (PyInt v)"
    using is_unsigned_content [of v]
    by (intro encoder_content [OF application_enumerated_ok]) (auto simp: is_unsigned_def decode_content_def)
qed

definition is_signed :: "int \<Rightarrow> bool" where
  "is_signed v \<longleftrightarrow> - (2 ^ 31) \<le> v \<and> v < 2 ^ 31"

interpretation ps: primitive_codec application_signed is_signed "\<lambda>_. TAG_SIGNED" PyInt
proof
  fix v assume "is_signed v"
  then obtain body where body: "signed_octets v = Inr body"
    by (auto simp: is_signed_def signed_octets_iff)
  then show "\<exists>enc b. application_signed v = Inr enc \<and> encodes enc TAG_SIGNED False Value b \<and>
      decode_content TAG_SIGNED b = Inr (PyInt v)"
    using signed_octets_value [OF body]
    by (intro encoder_content [OF application_signed_ok [OF body]]) (simp add: decode_content_def)
qed

interpretation pb: primitive_codec application_boolean "\<lambda>_. True" "\<lambda>_. TAG_BOOLEAN" PyBool
proof
  fix v :: bool
  show "\<exists>enc b. application_boolean v = Inr enc \<and> encodes enc TAG_BOOLEAN False Value b \<and>
      decode_content TAG_BOOLEAN b = Inr (PyBool v)"
    by (rule encoder_content [OF application_boolean_ok]) (simp add: decode_content_def)
qed

interpretation pr: primitive_codec application_real is_single "\<lambda>_. TAG_REAL" PyFloat
proof
  fix v assume v: "is_single v"
  then obtain body where body: "pack_f v = Inr body"
    using is_single_pack_ok [of v] by (auto simp: succeeds_iff)
  then show "\<exists>enc b. application_real v = Inr enc \<and> encodes enc TAG_REAL False Value b \<and>
      decode_content TAG_REAL b = Inr (PyFloat v)"
    using unpack_pack_f [OF v body]
    by (intro encoder_content [OF application_real_ok [OF body]]) (simp add: decode_content_def)
qed

interpretation po: primitive_codec "\<lambda>(t, i). application_object_id t i" "\<lambda>(t, i). valid_object_id t i"
  "\<lambda>_. TAG_OBJECT_IDENTIFIER" "\<lambda>(t, i). PyObjectId t i"
proof
  fix x :: "int \<times> int"
  assume "case x of (t, i) \<Rightarrow> valid_object_id t i"
  then have "valid_object_id (fst x) (snd x)"
    by auto
  then show "\<exists>enc b. (case x of (t, i) \<Rightarrow> application_object_id t i) = Inr enc \<and>
      encodes enc TAG_OBJECT_IDENTIFIER False Value b \<and>
      decode_content TAG_OBJECT_IDENTIFIER b = Inr (case x of (t, i) \<Rightarrow> PyObjectId t i)"
    using object_identifier_of_content [of "fst x" "snd x"]
    unfolding case_prod_unfold
    by (intro encoder_content [OF application_object_id_ok]) (auto simp: decode_content_def case_prod_unfold)
qed

text \<open>Text that fits one length octet, octets that fit the 16-bit length, bits that fit a tag without
  a length octet.\<close>

definition fits_string :: "pystr \<Rightarrow> bool" where
  "fits_string s = (case utf8_encode s of Inl _ \<Rightarrow> False | Inr encoded \<Rightarrow> length encoded < 253)"

interpretation pc: primitive_codec application_character_string fits_string "\<lambda>_. TAG_CHARACTER_STRING" PyStr
proof
  fix s assume "fits_string s"
  then obtain encoded where e: "utf8_encode s = Inr encoded" "length encoded < 253"
    by (auto simp: fits_string_def split: sum.splits)
  then show "\<exists>enc b. application_character_string s = Inr enc \<and> encodes enc TAG_CHARACTER_STRING False Value b \<and>
      decode_content TAG_CHARACTER_STRING b = Inr (PyStr s)"
    using utf8_decode_encode [OF e(1), of "[]"]
    by (intro encoder_content [OF application_character_string_ok [OF e]]) (simp add: decode_content_def)
qed

interpretation px: primitive_codec application_octet_string "\<lambda>octets. length octets < 65536" "\<lambda>_. TAG_OCTET_STRING" PyBytes
proof
  fix octets :: bytes assume "length octets < 65536"
  then show "\<exists>enc b. application_octet_string octets = Inr enc \<and> encodes enc TAG_OCTET_STRING False Value b \<and>
      decode_content TAG_OCTET_STRING b = Inr (PyBytes octets)"
    by (intro encoder_content [OF application_octet_string_ok]) (simp_all add: decode_content_def)
qed

interpretation pt: primitive_codec application_bit_string "\<lambda>bits. length bits \<le> 24" "\<lambda>_. TAG_BIT_STRING" PyBits
proof
  fix bits :: "bool list" assume l: "length bits \<le> 24"
  obtain body where body: "bit_string_body bits = Inr body" "length body = 1 + (length bits + 7) div 8"
      "bits_of_body body = Inr bits"
    using bit_string_body_ok [of bits] by auto
  then have "length body < 5"
    using l by linarith
  then show "\<exists>enc b. application_bit_string bits = Inr enc \<and> encodes enc TAG_BIT_STRING False Value b \<and>
      decode_content TAG_BIT_STRING b = Inr (PyBits bits)"
    using body(3) by (intro encoder_content [OF application_bit_string_ok [OF body(1)]]) (simp_all add: decode_content_def)
qed

section \<open>Values of any application type\<close>

text \<open>The values the encoders accept, with the encoder, the domain, the tag and the Python value of each. The contract
  holds for all of them at once, so that it speaks of lists of mixed values.\<close>

datatype app_value =
    AppBoolean bool
  | AppUnsigned int
  | AppSigned int
  | AppReal pyfloat
  | AppOctetString bytes
  | AppCharacterString pystr
  | AppBitString "bool list"
  | AppEnumerated int
  | AppObjectId int int

fun app_encode :: "app_value \<Rightarrow> bytes result" where
  "app_encode (AppBoolean b) = application_boolean b"
| "app_encode (AppUnsigned v) = application_unsigned v"
| "app_encode (AppSigned v) = application_signed v"
| "app_encode (AppReal x) = application_real x"
| "app_encode (AppOctetString octets) = application_octet_string octets"
| "app_encode (AppCharacterString s) = application_character_string s"
| "app_encode (AppBitString bits) = application_bit_string bits"
| "app_encode (AppEnumerated v) = application_enumerated v"
| "app_encode (AppObjectId t i) = application_object_id t i"

fun app_valid :: "app_value \<Rightarrow> bool" where
  "app_valid (AppBoolean b) = True"
| "app_valid (AppUnsigned v) = is_unsigned v"
| "app_valid (AppSigned v) = is_signed v"
| "app_valid (AppReal x) = is_single x"
| "app_valid (AppOctetString octets) = (length octets < 65536)"
| "app_valid (AppCharacterString s) = fits_string s"
| "app_valid (AppBitString bits) = (length bits \<le> 24)"
| "app_valid (AppEnumerated v) = is_unsigned v"
| "app_valid (AppObjectId t i) = valid_object_id t i"

fun app_tag :: "app_value \<Rightarrow> int" where
  "app_tag (AppBoolean b) = TAG_BOOLEAN"
| "app_tag (AppUnsigned v) = TAG_UNSIGNED"
| "app_tag (AppSigned v) = TAG_SIGNED"
| "app_tag (AppReal x) = TAG_REAL"
| "app_tag (AppOctetString octets) = TAG_OCTET_STRING"
| "app_tag (AppCharacterString s) = TAG_CHARACTER_STRING"
| "app_tag (AppBitString bits) = TAG_BIT_STRING"
| "app_tag (AppEnumerated v) = TAG_ENUMERATED"
| "app_tag (AppObjectId t i) = TAG_OBJECT_IDENTIFIER"

fun app_python :: "app_value \<Rightarrow> py_value" where
  "app_python (AppBoolean b) = PyBool b"
| "app_python (AppUnsigned v) = PyInt v"
| "app_python (AppSigned v) = PyInt v"
| "app_python (AppReal x) = PyFloat x"
| "app_python (AppOctetString octets) = PyBytes octets"
| "app_python (AppCharacterString s) = PyStr s"
| "app_python (AppBitString bits) = PyBits bits"
| "app_python (AppEnumerated v) = PyInt v"
| "app_python (AppObjectId t i) = PyObjectId t i"

interpretation pv: primitive_codec app_encode app_valid app_tag app_python
proof
  fix v assume "app_valid v"
  then show "\<exists>enc b. app_encode v = Inr enc \<and> encodes enc (app_tag v) False Value b \<and>
      decode_content (app_tag v) b = Inr (app_python v)"
    by (cases v) (use pb.encode_tag pu.encode_tag ps.encode_tag pr.encode_tag px.encode_tag pc.encode_tag pt.encode_tag
        pe.encode_tag po.encode_tag in auto)
qed

section \<open>Error PDUs and I-Am\<close>

lemma application_values_scan:
  assumes "list_all2 (\<lambda>enc (n, b). encodes enc n False Value b) encs vs" and "drop p data = concat encs"
    and "p \<le> length data"
  shows "scan_tags (\<lambda>_ (number, is_context, kind, body, _) values.
       Inr (if kind = Value \<and> \<not> is_context then values @ [(number, body)] else values)) data p acc = Inr (acc @ vs)"
  using assms
proof (induction encs vs arbitrary: p acc rule: list_all2_induct)
  case Nil
  then show ?case
    by (simp add: scan_tags_end)
next
  case (Cons enc encs v vs)
  have e: "encodes enc (fst v) False Value (snd v)"
    using Cons.hyps(1) by (simp add: case_prod_unfold)
  have d: "drop p data = enc @ concat encs"
    using Cons.prems(1) by simp
  show ?case
    using encodes_end [OF e d] Cons.IH [OF drop_after [OF d]]
    by (subst scan_tags_step [OF e d]) simp
qed

lemma application_values_run:
  "list_all2 (\<lambda>enc (n, b). encodes enc n False Value b) encs vs \<Longrightarrow> application_values (concat encs) = Inr vs"
  unfolding application_values_def using application_values_scan [of encs vs 0 "concat encs" "[]"] by simp

lemma error_pdu_shape:
  assumes "is_octet invoke" and "is_octet service" and "is_unsigned cls" and "is_unsigned code"
  obtains e1 e2 where "error_pdu invoke service cls code = Inr ([0x50, word_of_int invoke, word_of_int service] @ e1 @ e2)"
    and "encodes e1 TAG_ENUMERATED False Value (int_content cls)"
    and "encodes e2 TAG_ENUMERATED False Value (int_content code)"
proof -
  obtain e1 e2 where "application_enumerated cls = Inr e1" "encodes e1 TAG_ENUMERATED False Value (int_content cls)"
      "application_enumerated code = Inr e2" "encodes e2 TAG_ENUMERATED False Value (int_content code)"
    using application_enumerated_ok [of cls] application_enumerated_ok [of code] assms(3,4)
    unfolding is_unsigned_def by blast
  with that show thesis
    using assms(1,2) by (simp add: error_pdu_def bytes_of_def is_octet_def)
qed

lemma error_pdu_decodes:
  assumes "is_octet invoke" and "is_octet service" and "is_unsigned cls" and "is_unsigned code"
  shows "bindR (error_pdu invoke service cls code) error_class_and_code = Inr (Some (cls, code))"
proof -
  obtain e1 e2 where "error_pdu invoke service cls code = Inr ([0x50, word_of_int invoke, word_of_int service] @ e1 @ e2)"
    and e: "encodes e1 TAG_ENUMERATED False Value (int_content cls)" "encodes e2 TAG_ENUMERATED False Value (int_content code)"
    by (rule error_pdu_shape [OF assms])
  moreover have "application_values (concat [e1, e2]) = Inr [(TAG_ENUMERATED, int_content cls), (TAG_ENUMERATED, int_content code)]"
    by (rule application_values_run) (simp add: e)
  ultimately show ?thesis
    using assms(3,4) by (simp add: error_class_and_code_def is_unsigned_content)
qed

lemma i_am_decodes:
  assumes "0 \<le> inst" and "inst \<le> MAX_INSTANCE" and "is_unsigned vendor" and "is_unsigned max_apdu" and "is_unsigned seg"
  shows "bindR (i_am inst vendor max_apdu seg) i_am_device_instance = Inr (Some inst)"
proof -
  have valid: "valid_object_id OBJECT_TYPE_DEVICE inst"
    using assms(1,2) by (simp add: valid_object_id_def)
  obtain oid where oid: "application_object_id OBJECT_TYPE_DEVICE inst = Inr oid"
      "encodes oid TAG_OBJECT_IDENTIFIER False Value (object_id_content OBJECT_TYPE_DEVICE inst)"
    using application_object_id_ok [OF valid] by blast
  obtain ma se ve where rest: "application_unsigned max_apdu = Inr ma" "application_enumerated seg = Inr se"
      "application_unsigned vendor = Inr ve"
    using application_unsigned_ok [of max_apdu] application_enumerated_ok [of seg] application_unsigned_ok [of vendor] assms(3-5)
    unfolding is_unsigned_def by blast
  define apdu where "apdu = [0x10, 0 :: octet] @ oid @ ma @ se @ ve"
  have enc: "i_am inst vendor max_apdu seg = Inr apdu"
    by (simp add: i_am_def bytes_of_def oid(1) rest apdu_def)
  have "drop 2 apdu = oid @ ma @ se @ ve"
    by (simp add: apdu_def)
  note tag = encodes_read_at [OF oid(2) this]
  have long: "length oid = 5"
    using oid(1) by (auto simp: application_object_id_def object_id_valid(1) [OF valid] bytes_of_def
        simp del: be_octets.simps)
  have "unpack_be 4 (object_id_content OBJECT_TYPE_DEVICE inst) = Inr (OBJECT_TYPE_DEVICE * 2 ^ 22 + inst)"
    unfolding unpack_be_def length_object_id_content object_id_content_value [OF valid] by simp
  then show ?thesis
    using tag long object_id_fields [OF valid]
    by (simp add: enc i_am_device_instance_def) (simp add: apdu_def drop_bit_eq_div)
qed

end
