(* ===== verification/Codec_Access.thy ===== *)
theory Codec_Access
  imports Codec_Values
begin

unbundle bit_operations_syntax

text \<open>
  Lists of read access specifications: the property references a ReadPropertyMultiple request carries,
  encoded by \<open>read_access_specification\<close> and read back by \<open>read_access_specifications\<close>. The decoder
  keeps a dict in insertion order, so the round trip is stated for specifications of distinct objects;
  it drops the array indices.
\<close>

section \<open>The dict\<close>

lemma dict_set_fresh: "k \<notin> fst ` set d \<Longrightarrow> dict_set d k v = d @ [(k, v)]"
  by (induction d) auto

lemma dict_append_last: "k \<notin> fst ` set d \<Longrightarrow> dict_append (d @ [(k, vs)]) k v = d @ [(k, vs @ [v])]"
  by (induction d) (auto simp: dict_append_def)

section \<open>One specification\<close>

definition valid_reference :: "property_reference \<Rightarrow> bool" where
  "valid_reference r = (case reference_parts r of (p, idx) \<Rightarrow> is_unsigned p \<and> pred_option is_unsigned idx)"

abbreviation reference_property :: "property_reference \<Rightarrow> int" where
  "reference_property r \<equiv> fst (reference_parts r)"

abbreviation encode_reference :: "property_reference \<Rightarrow> bytes result" where
  "encode_reference r \<equiv> (case reference_parts r of (p, idx) \<Rightarrow>
     catR [context_unsigned 0 p, optional (context_unsigned 1) idx])"

lemma reference_shape:
  assumes "valid_reference r"
  obtains a b where "encode_reference r = Inr (a @ b)"
    and "encodes a 0 True Value (int_content (reference_property r))" and "encodes_optional b 1 (snd (reference_parts r))"
proof -
  obtain p idx where r: "reference_parts r = (p, idx)"
    by (cases "reference_parts r")
  with assms have v: "is_unsigned p" "pred_option is_unsigned idx"
    by (auto simp: valid_reference_def)
  obtain a where "context_unsigned 0 p = Inr a" "encodes a 0 True Value (int_content p)"
    by (rule unsigned_parameter [OF v(1), of 0]) auto
  moreover obtain b where "optional (context_unsigned 1) idx = Inr b" "encodes_optional b 1 idx"
    by (rule optional_parameter [OF v(2), of 1]) auto
  ultimately show thesis
    using that r by simp
qed

lemma scan_optional_index:
  assumes "encodes_optional b 1 idx" and "drop p data = b @ post"
  shows "scan_tags read_access_step data p (members, Some key) =
    scan_tags read_access_step data (p + length b) (members, Some key)"
proof (cases idx)
  case None
  then show ?thesis
    using assms(1) by (simp add: encodes_optional_def)
next
  case (Some j)
  then have e: "encodes b 1 True Value (int_content j)"
    using assms(1) by (simp add: encodes_optional_def)
  show ?thesis
    by (subst scan_tags_step [OF e assms(2)]) (simp add: read_access_step_def)
qed

lemma scan_reference:
  assumes "valid_reference r" and "encode_reference r = Inr enc" and "drop p data = enc @ post"
    and "key \<notin> fst ` set members"
  shows "scan_tags read_access_step data p (members @ [(key, ps)], Some key) =
    scan_tags read_access_step data (p + length enc) (members @ [(key, ps @ [reference_property r])], Some key)"
proof -
  obtain a b where enc: "enc = a @ b"
    and a: "encodes a 0 True Value (int_content (reference_property r))" and b: "encodes_optional b 1 (snd (reference_parts r))"
    by (rule reference_shape [OF assms(1)]) (simp only: assms(2) sum.inject)
  have u: "is_unsigned (reference_property r)"
    using assms(1) by (auto simp: valid_reference_def)
  have d: "drop p data = a @ b @ post"
    using assms(3) enc by simp
  have "scan_tags read_access_step data p (members @ [(key, ps)], Some key) =
      scan_tags read_access_step data (p + length a) (members @ [(key, ps @ [reference_property r])], Some key)"
    using u assms(4)
    by (subst scan_tags_step [OF a d]) (simp add: read_access_step_def dict_append_last is_unsigned_content)
  then show ?thesis
    using scan_optional_index [OF b drop_after [OF d]] by (simp add: enc add.assoc)
qed

lemma encode_references:
  assumes "list_all valid_reference rs"
  shows "\<exists>encs. map encode_reference rs = map Inr encs \<and> length encs = length rs"
  using assms
proof (induction rs)
  case (Cons r rs)
  moreover obtain enc where "encode_reference r = Inr enc"
    using reference_shape [of r] Cons.prems by auto
  ultimately obtain encs where "map encode_reference (r # rs) = map Inr (enc # encs)" "length (enc # encs) = length (r # rs)"
    by auto
  then show ?case
    by blast
qed simp

lemma scan_references:
  assumes "list_all valid_reference rs" and "map encode_reference rs = map Inr encs"
    and "drop p data = concat encs @ post" and "key \<notin> fst ` set members"
  shows "scan_tags read_access_step data p (members @ [(key, ps)], Some key) =
    scan_tags read_access_step data (p + length (concat encs)) (members @ [(key, ps @ map reference_property rs)], Some key)"
  using assms
proof (induction rs arbitrary: encs p ps)
  case Nil
  then show ?case by simp
next
  case (Cons r rs)
  then obtain enc encs' where encs: "encs = enc # encs'" "encode_reference r = Inr enc" "map encode_reference rs = map Inr encs'"
    by (cases encs) auto
  have d: "drop p data = enc @ concat encs' @ post"
    using Cons.prems(3) encs(1) by simp
  show ?case
    using scan_reference [OF _ encs(2) d Cons.prems(4), of ps] Cons.IH [OF _ encs(3) drop_after [OF d] Cons.prems(4)] Cons.prems(1)
    by (simp add: encs(1) add.assoc)
qed

definition valid_specification :: "int \<times> int \<times> property_reference list \<Rightarrow> bool" where
  "valid_specification spec = (case spec of (ot, i, rs) \<Rightarrow> valid_object_id ot i \<and> list_all valid_reference rs)"

lemma read_access_specification_shape:
  assumes "valid_specification (ot, i, rs)"
  obtains oid op encs cl where "read_access_specification ot i rs = Inr (oid @ op @ concat encs @ cl)"
    and "encodes oid 0 True Value (object_id_content ot i)" and "encodes op 1 True Open []"
    and "map encode_reference rs = map Inr encs" and "encodes cl 1 True Close []"
proof -
  have v: "valid_object_id ot i" "list_all valid_reference rs"
    using assms by (auto simp: valid_specification_def)
  obtain oid where oid: "context_object_id 0 ot i = Inr oid" "encodes oid 0 True Value (object_id_content ot i)"
    by (rule object_parameter [OF v(1), of 0]) auto
  obtain op cl where br: "opening_tag 1 = Inr op" "closing_tag 1 = Inr cl"
      "encodes op 1 True Open []" "encodes cl 1 True Close []"
    by (rule bracket_parameter [of 1]) auto
  obtain encs where encs: "map encode_reference rs = map Inr encs"
    using encode_references [OF v(2)] by blast
  have "read_access_specification ot i rs = Inr (oid @ op @ concat encs @ cl)"
    unfolding read_access_specification_def encs by (simp add: oid(1) br(1,2) catR_append)
  with that oid(2) br(3,4) encs show thesis
    by blast
qed

lemma scan_specification:
  assumes "valid_specification (ot, i, rs)" and "read_access_specification ot i rs = Inr enc"
    and "drop p data = enc @ post" and "(ot, i) \<notin> fst ` set members"
  shows "scan_tags read_access_step data p (members, None) =
    scan_tags read_access_step data (p + length enc) (members @ [((ot, i), map reference_property rs)], None)"
proof -
  obtain oid op encs cl where enc: "enc = oid @ op @ concat encs @ cl"
    and oid: "encodes oid 0 True Value (object_id_content ot i)" and op: "encodes op 1 True Open []"
    and encs: "map encode_reference rs = map Inr encs" and cl: "encodes cl 1 True Close []"
    by (rule read_access_specification_shape [OF assms(1)]) (simp add: assms(2))
  have v: "valid_object_id ot i" "list_all valid_reference rs"
    using assms(1) by (auto simp: valid_specification_def)
  have d: "drop p data = oid @ op @ concat encs @ cl @ post"
    using assms(3) enc by simp
  note d1 = drop_after [OF d]
  note d2 = drop_after [OF d1]
  note d3 = drop_after [OF d2]
  have "scan_tags read_access_step data p (members, None) =
      scan_tags read_access_step data (p + length oid) (members @ [((ot, i), [])], Some (ot, i))"
    using assms(4)
    by (subst scan_tags_step [OF oid d]) (simp add: read_access_step_def object_identifier_of_content [OF v(1)] dict_set_fresh)
  also have "\<dots> = scan_tags read_access_step data (p + length oid + length op) (members @ [((ot, i), [])], Some (ot, i))"
    by (subst scan_tags_step [OF op d1]) (simp add: read_access_step_def)
  also have "\<dots> = scan_tags read_access_step data (p + length oid + length op + length (concat encs))
      (members @ [((ot, i), map reference_property rs)], Some (ot, i))"
    using scan_references [OF v(2) encs d2 assms(4), of "[]"] by simp
  also have "\<dots> = scan_tags read_access_step data (p + length enc) (members @ [((ot, i), map reference_property rs)], None)"
    by (subst scan_tags_step [OF cl d3]) (simp add: read_access_step_def enc add.assoc)
  finally show ?thesis .
qed

section \<open>A list of specifications\<close>

abbreviation spec_key :: "int \<times> int \<times> property_reference list \<Rightarrow> int \<times> int" where
  "spec_key spec \<equiv> (case spec of (ot, i, rs) \<Rightarrow> (ot, i))"

abbreviation encode_spec :: "int \<times> int \<times> property_reference list \<Rightarrow> bytes result" where
  "encode_spec spec \<equiv> (case spec of (ot, i, rs) \<Rightarrow> read_access_specification ot i rs)"

abbreviation decoded_spec :: "int \<times> int \<times> property_reference list \<Rightarrow> (int \<times> int) \<times> int list" where
  "decoded_spec spec \<equiv> (case spec of (ot, i, rs) \<Rightarrow> ((ot, i), map reference_property rs))"

lemma scan_specifications:
  assumes "list_all valid_specification specs" and "catR (map encode_spec specs) = Inr enc"
    and "drop p data = enc @ post" and "distinct (map spec_key specs)"
    and "spec_key ` set specs \<inter> fst ` set members = {}"
  shows "scan_tags read_access_step data p (members, None) =
    scan_tags read_access_step data (p + length enc) (members @ map decoded_spec specs, None)"
  using assms
proof (induction specs arbitrary: enc p members)
  case Nil
  then show ?case by simp
next
  case (Cons spec specs)
  obtain ot i rs where spec: "spec = (ot, i, rs)"
    by (cases spec)
  obtain a b where enc: "read_access_specification ot i rs = Inr a" "catR (map encode_spec specs) = Inr b" "enc = a @ b"
    using Cons.prems(2) by (auto simp: spec bindR_Inr_iff)
  have d: "drop p data = a @ b @ post"
    using Cons.prems(3) enc(3) by simp
  have "scan_tags read_access_step data p (members, None) =
      scan_tags read_access_step data (p + length a) (members @ [((ot, i), map reference_property rs)], None)"
    using scan_specification [OF _ enc(1) d, of members] Cons.prems(1,5) by (simp add: spec)
  also have "\<dots> = scan_tags read_access_step data (p + length a + length b)
      ((members @ [((ot, i), map reference_property rs)]) @ map decoded_spec specs, None)"
    using Cons.prems(1,4,5) by (intro Cons.IH [OF _ enc(2) drop_after [OF d]]) (auto simp: spec)
  finally show ?case
    by (simp add: enc(3) spec add.assoc)
qed

lemma encode_specs_ok:
  assumes "list_all valid_specification specs"
  shows "\<exists>enc. catR (map encode_spec specs) = Inr enc"
  using assms
proof (induction specs)
  case (Cons spec specs)
  obtain ot i rs where spec: "spec = (ot, i, rs)"
    by (cases spec)
  obtain a where "read_access_specification ot i rs = Inr a"
    using Cons.prems spec by (auto elim: read_access_specification_shape)
  then show ?case
    using Cons by (auto simp: spec)
qed simp

lemma read_access_specifications_roundtrip:
  assumes "list_all valid_specification specs" and "distinct (map spec_key specs)"
  shows "bindR (catR (map encode_spec specs)) read_access_specifications = Inr (map decoded_spec specs)"
proof -
  obtain enc where enc: "catR (map encode_spec specs) = Inr enc"
    using encode_specs_ok [OF assms(1)] by blast
  have "scan_tags read_access_step enc 0 ([], None) = Inr (map decoded_spec specs, None)"
    using scan_specifications [OF assms(1) enc, of 0 enc "[]" "[]"] assms(2) by (simp add: scan_tags_end)
  then show ?thesis
    by (simp add: enc read_access_specifications_def)
qed

end
