(* ===== verification/Codec_Safety.thy ===== *)
theory Codec_Safety
  imports Codec_Access
begin

unbundle bit_operations_syntax

text \<open>
  Which exceptions leave the decoders on arbitrary octets. \<open>raises_only E m\<close> is closed under sequencing, so the
  exceptions of a decoder follow from those of \<open>read_tag\<close> and of \<open>struct.unpack\<close>. The parsers that promise
  a value or \<open>None\<close> catch two of the three.
\<close>

definition raises_only :: "py_error set \<Rightarrow> 'a result \<Rightarrow> bool" where
  "raises_only E m = (case m of Inl e \<Rightarrow> e \<in> E | Inr _ \<Rightarrow> True)"

lemma raises_onlyD: "raises_only E m \<Longrightarrow> m = Inl e \<Longrightarrow> e \<in> E"
  by (simp add: raises_only_def)

lemma raises_only_Inr [simp, intro]: "raises_only E (Inr x)"
  by (simp add: raises_only_def)

lemma raises_only_bind: "raises_only E m \<Longrightarrow> (\<And>x. raises_only E (f x)) \<Longrightarrow> raises_only E (bindR m f)"
  by (cases m) (auto simp: raises_only_def)

lemma raises_only_if: "(c \<Longrightarrow> raises_only E m) \<Longrightarrow> (\<not> c \<Longrightarrow> raises_only E n) \<Longrightarrow> raises_only E (if c then m else n)"
  by simp

lemma raises_only_prod: "(\<And>x y. raises_only E (f x y)) \<Longrightarrow> raises_only E (case p of (x, y) \<Rightarrow> f x y)"
  by (cases p) simp

abbreviation read_errors :: "py_error set" where
  "read_errors \<equiv> {IndexError, StructError, ValueError}"

lemma raises_read_tag: "raises_only read_errors (read_tag data p)"
  using read_tag_errors [of data p] by (auto simp: raises_only_def split: sum.split)

lemma raises_unpack: "raises_only read_errors (unpack_be n bs)"
  by (simp add: raises_only_def unpack_be_def)

lemma raises_py_nth: "raises_only read_errors (py_nth xs i)"
  by (simp add: raises_only_def py_nth_def)

lemma raises_object_identifier: "raises_only read_errors (object_identifier_of body)"
  unfolding object_identifier_of_def by (intro raises_only_bind raises_unpack raises_only_Inr)

lemma raises_close_loop: "raises_only read_errors (close_loop data depth ts p)"
proof (induction data depth ts p rule: close_loop.induct)
  case (1 data depth ts p)
  show ?case
  proof (cases "depth = 0")
    case True
    then show ?thesis
      by (subst close_loop.simps) simp
  next
    case False
    show ?thesis
    proof (cases "read_tag data p")
      case (Inl e)
      then show ?thesis
        using False raises_read_tag [of data p] by (simp add: close_loop.simps [of data depth] raises_only_def)
    next
      case (Inr t)
      obtain n c k b q where t: "t = (n, c, k, b, q)"
        by (cases t)
      show ?thesis
        using False Inr "1.IH" [OF False Inr t [symmetric] refl refl refl] by (simp add: t close_loop.simps [of data depth])
    qed
  qed
qed

lemma raises_scan_tags:
  assumes "\<And>p t s. raises_only read_errors (body p t s)"
  shows "raises_only read_errors (scan_tags body data p s)"
  using assms
proof (induction body data p s rule: scan_tags.induct)
  case (1 body data p s)
  show ?case
  proof (cases "p < length data")
    case False
    then show ?thesis
      by (subst scan_tags.simps) simp
  next
    case True
    have "raises_only read_errors (bindR (body p t s) (\<lambda>s'. scan_tags body data (next_position t) s'))"
      if t: "read_tag data p = Inr t" for t
      using "1.prems" [of p t s] "1.IH" [OF True t _ "1.prems"]
      by (cases "body p t s") (auto simp: raises_only_def)
    then show ?thesis
      using True raises_read_tag [of data p]
      by (subst scan_tags.simps, cases "read_tag data p") (auto simp: raises_only_def)
  qed
qed

lemmas raises_rules = raises_only_bind raises_only_if raises_only_prod raises_only_Inr raises_read_tag raises_unpack
  raises_py_nth raises_object_identifier raises_close_loop

lemma raises_except_None:
  "raises_only E m \<Longrightarrow> raises_only (E - set caught) (except_None caught m)"
  by (cases m) (auto simp: raises_only_def)

lemma raises_parse_read: "raises_only {ValueError} (parse_read_property_request apdu)"
proof -
  have "raises_only (read_errors - set [IndexError, StructError]) (parse_read_property_request apdu)"
    unfolding parse_read_property_request_def by (intro raises_except_None raises_rules)
  moreover have "read_errors - set [IndexError, StructError] = {ValueError}"
    by auto
  ultimately show ?thesis
    by simp
qed

lemma raises_parse_read_indexed: "raises_only {ValueError} (parse_read_property_request_indexed apdu)"
proof -
  have "raises_only (read_errors - set [IndexError, StructError]) (parse_read_property_request_indexed apdu)"
    unfolding parse_read_property_request_indexed_def by (intro raises_except_None raises_rules)
  moreover have "read_errors - set [IndexError, StructError] = {ValueError}"
    by auto
  ultimately show ?thesis
    by simp
qed

lemma raises_parse_write: "raises_only {ValueError} (parse_write_property_request apdu)"
proof -
  have "raises_only (read_errors - set [IndexError, StructError]) (parse_write_property_request apdu)"
    unfolding parse_write_property_request_def Let_def by (intro raises_except_None raises_rules)
  moreover have "read_errors - set [IndexError, StructError] = {ValueError}"
    by auto
  ultimately show ?thesis
    by simp
qed

end
