(* ===== verification/Codec_Frame.thy ===== *)
theory Codec_Frame
  imports Codec_Access Codec_Safety
begin

unbundle bit_operations_syntax

text \<open>
  \<open>class Frame\<close> of \<open>wiretest/codec.py\<close>: one received datagram decoded down to the APDU or to the
  network layer message. The constructor is \<open>Frame\<close>: a frame whose field \<open>ok\<close> tells whether it
  decoded, or the exception that leaves the constructor when an address field is cut short. The
  properties of the class follow, then the round trips with \<open>bvlc\<close> / \<open>forwarded_npdu\<close> and \<open>npdu\<close>.
\<close>

section \<open>Decoding a datagram\<close>

type_synonym address = "string \<times> int"

record frame =
  raw :: bytes
  source :: address
  bvlc_function :: "int option"
  bvll_data :: bytes
  originating_mac :: bytes
  has_npdu :: bool
  snet :: "int option"
  sadr :: bytes
  dnet :: "int option"
  dadr :: bytes
  expecting_reply :: bool
  network_message :: "int option"
  payload :: bytes
  ok :: bool

definition initial_frame :: "bytes \<Rightarrow> address \<Rightarrow> frame" where
  "initial_frame data src =
     \<lparr>raw = data, source = src, bvlc_function = None, bvll_data = [], originating_mac = [], has_npdu = False,
      snet = None, sadr = [], dnet = None, dadr = [], expecting_reply = False, network_message = None,
      payload = [], ok = False\<rparr>"

text \<open>A network number, an address length and the address: \<open>struct.unpack(">HB", ...)\<close> and the slice
  after it.\<close>

definition read_address :: "bytes \<Rightarrow> nat \<Rightarrow> (int \<times> bytes \<times> nat) result" where
  "read_address octets position =
     (let field = py_slice octets position (position + 3) in
      bindR (if length field = 3 then Inr (int_from_bytes (take 2 field), unat (field ! 2)) else Inl StructError)
        (\<lambda>(net, len). Inr (net, py_slice octets (position + 3) (position + 3 + len), position + 3 + len)))"

definition decode_npdu :: "bytes \<Rightarrow> frame \<Rightarrow> frame result" where
  "decode_npdu octets f =
     (if length octets < 2 \<or> octets ! 0 \<noteq> 0x01 then Inr f
      else
        let control = octets ! 1;
            f = f\<lparr>has_npdu := True, expecting_reply := (control AND 0x04 \<noteq> 0)\<rparr> in
        bindR (if control AND 0x20 \<noteq> 0
               then bindR (read_address octets 2) (\<lambda>(net, adr, position). Inr (f\<lparr>dnet := Some net, dadr := adr\<rparr>, position))
               else Inr (f, 2)) (\<lambda>(f, position).
        bindR (if control AND 0x08 \<noteq> 0
               then bindR (read_address octets position) (\<lambda>(net, adr, position). Inr (f\<lparr>snet := Some net, sadr := adr\<rparr>, position))
               else Inr (f, position)) (\<lambda>(f, position).
        let position = (if control AND 0x20 \<noteq> 0 then position + 1 else position) in
        bindR (if control AND 0x80 \<noteq> 0
               then bindR (py_nth octets position) (\<lambda>m.
                 Inr (f\<lparr>network_message := Some (uint m)\<rparr>, if m \<ge> 0x80 then position + 1 + 2 else position + 1))
               else Inr (f, position)) (\<lambda>(f, position).
        Inr (f\<lparr>payload := drop position octets, ok := True\<rparr>)))))"

definition Frame :: "bytes \<Rightarrow> address \<Rightarrow> frame result" where
  "Frame data src =
     (let f = initial_frame data src in
      if length data < 4 \<or> uint (data ! 0) \<noteq> BVLC_TYPE then Inr f
      else
        let f = f\<lparr>bvlc_function := Some (uint (data ! 1)), bvll_data := drop 4 data\<rparr> in
        if uint (data ! 1) \<notin> set BVLC_FUNCTIONS_WITH_NPDU then Inr (f\<lparr>ok := True\<rparr>)
        else if uint (data ! 1) = BVLC_FORWARDED_NPDU
        then decode_npdu (drop 10 data) (f\<lparr>originating_mac := py_slice data 4 10\<rparr>)
        else decode_npdu (drop 4 data) f)"

section \<open>Properties of a frame\<close>

definition pdu_type :: "frame \<Rightarrow> int option" where
  "pdu_type f = (if network_message f = None \<and> payload f \<noteq> [] then Some (uint (drop_bit 4 (payload f ! 0))) else None)"

definition invoke_id :: "frame \<Rightarrow> int option result" where
  "invoke_id f =
     (if pdu_type f \<in> Some ` {PDU_SIMPLE_ACK, PDU_COMPLEX_ACK, PDU_ERROR, PDU_REJECT, PDU_ABORT}
      then bindR (py_nth (payload f) 1) (\<lambda>b. Inr (Some (uint b)))
      else if pdu_type f = Some PDU_CONFIRMED_REQUEST \<and> length (payload f) > 2 then Inr (Some (uint (payload f ! 2)))
      else Inr None)"

definition service :: "frame \<Rightarrow> int option result" where
  "service f =
     (if pdu_type f \<in> Some ` {PDU_SIMPLE_ACK, PDU_COMPLEX_ACK, PDU_ERROR}
      then bindR (py_nth (payload f) 2) (\<lambda>b. Inr (Some (uint b)))
      else if pdu_type f = Some PDU_CONFIRMED_REQUEST \<and> length (payload f) > 3 then Inr (Some (uint (payload f ! 3)))
      else if pdu_type f = Some PDU_UNCONFIRMED_REQUEST \<and> length (payload f) > 1 then Inr (Some (uint (payload f ! 1)))
      else Inr None)"

definition result_code :: "frame \<Rightarrow> int option" where
  "result_code f =
     (if bvlc_function f = Some BVLC_RESULT \<and> length (bvll_data f) \<ge> 2
      then Some (int_from_bytes (take 2 (bvll_data f))) else None)"

text \<open>\<open>range(0, len(data) - width + 1, width)\<close>: the offsets of the whole entries.\<close>

definition entry_offsets :: "nat \<Rightarrow> bytes \<Rightarrow> nat list" where
  "entry_offsets width data = map (\<lambda>k. k * width) [0..<length data div width]"

text \<open>\<open>socket.inet_ntoa\<close> and \<open>mac_text\<close>: a B/IP address as dotted decimal and port, any other address in
  hexadecimal.\<close>

fun decimal :: "nat \<Rightarrow> string" where
  "decimal n = (if n < 10 then [char_of (48 + n)] else decimal (n div 10) @ [char_of (48 + n mod 10)])"

declare decimal.simps [simp del]

definition inet_ntoa :: "bytes \<Rightarrow> string" where
  "inet_ntoa octets = decimal (unat (octets ! 0)) @ ''.'' @ decimal (unat (octets ! 1)) @ ''.'' @
     decimal (unat (octets ! 2)) @ ''.'' @ decimal (unat (octets ! 3))"

definition hex_digit :: "nat \<Rightarrow> char" where
  "hex_digit n = char_of (if n < 10 then 48 + n else 87 + n)"

definition hex_text :: "bytes \<Rightarrow> string" where
  "hex_text octets = concat (map (\<lambda>b. [hex_digit (unat b div 16), hex_digit (unat b mod 16)]) octets)"

definition mac_text :: "bytes \<Rightarrow> string" where
  "mac_text octets =
     (if length octets = 6
      then inet_ntoa (take 4 octets) @ '':'' @ decimal (nat (int_from_bytes (drop 4 octets)))
      else hex_text octets)"

text \<open>The entries of the tables of a BBMD.\<close>

definition bdt_entries :: "frame \<Rightarrow> (string \<times> string) list option" where
  "bdt_entries f =
     (if bvlc_function f \<noteq> Some BVLC_READ_BROADCAST_DISTRIBUTION_TABLE_ACK then None
      else Some (map (\<lambda>offset. (mac_text (py_slice (bvll_data f) offset (offset + 6)),
                                inet_ntoa (py_slice (bvll_data f) (offset + 6) (offset + 10))))
                     (entry_offsets 10 (bvll_data f))))"

definition fdt_entries :: "frame \<Rightarrow> (string \<times> int \<times> int) list option" where
  "fdt_entries f =
     (if bvlc_function f \<noteq> Some BVLC_READ_FOREIGN_DEVICE_TABLE_ACK then None
      else Some (map (\<lambda>offset. (mac_text (py_slice (bvll_data f) offset (offset + 6)),
                                int_from_bytes (py_slice (bvll_data f) (offset + 6) (offset + 8)),
                                int_from_bytes (py_slice (bvll_data f) (offset + 8) (offset + 10))))
                     (entry_offsets 10 (bvll_data f))))"

definition networks :: "frame \<Rightarrow> int list" where
  "networks f = map (\<lambda>offset. int_from_bytes (py_slice (payload f) offset (offset + 2))) (entry_offsets 2 (payload f))"

text \<open>\<open>describe\<close>: the line a test prints for a frame. Formatting the function code of a datagram that has none raises.\<close>

definition upper_hex_digit :: "nat \<Rightarrow> char" where
  "upper_hex_digit n = char_of (if n < 10 then 48 + n else 55 + n)"

definition octet_02X :: "int \<Rightarrow> string" where
  "octet_02X n = [upper_hex_digit (nat n div 16), upper_hex_digit (nat n mod 16)]"

definition frame_describe :: "frame \<Rightarrow> string result" where
  "frame_describe f =
     (let text = ''from '' @ fst (source f) @ '':'' @ decimal (nat (snd (source f))) in
      if \<not> has_npdu f
      then (case bvlc_function f of
              None \<Rightarrow> Inl TypeError
            | Some function \<Rightarrow> Inr (text @ '' BVLL function=0x'' @ octet_02X function @ '' data='' @ hex_text (bvll_data f)))
      else Inr (text @
        (if originating_mac f \<noteq> [] then '' Forwarded-NPDU originating='' @ mac_text (originating_mac f) else []) @
        (case snet f of None \<Rightarrow> [] | Some net \<Rightarrow> '' SNET='' @ decimal (nat net) @ '' SADR='' @ mac_text (sadr f)) @
        (case dnet f of None \<Rightarrow> [] | Some net \<Rightarrow> '' DNET='' @ decimal (nat net)) @
        (case network_message f of
           Some m \<Rightarrow> '' network-message=0x'' @ octet_02X m @ '' data='' @ hex_text (payload f)
         | None \<Rightarrow> '' APDU='' @ hex_text (payload f))))"

section \<open>Round trips\<close>

definition valid_npdu :: "int option \<Rightarrow> int option \<Rightarrow> bytes \<Rightarrow> int option \<Rightarrow> bytes \<Rightarrow> int \<Rightarrow> bool" where
  "valid_npdu message dst da src sa hop \<longleftrightarrow>
     pred_option is_octet message \<and>
     pred_option (\<lambda>n. 0 \<le> n \<and> n < 65536) dst \<and> length da < 256 \<and>
     pred_option (\<lambda>n. 0 \<le> n \<and> n < 65536) src \<and> length sa < 256 \<and> is_octet hop"

text \<open>The address field as it is written.\<close>

definition address_octets :: "int option \<Rightarrow> bytes \<Rightarrow> bytes" where
  "address_octets net adr =
     (case net of None \<Rightarrow> [] | Some n \<Rightarrow> be_octets 2 n @ word_of_int (int (length adr)) # adr)"

lemma address_octets_ok:
  assumes "pred_option (\<lambda>n. 0 \<le> n \<and> n < 65536) net" and "length adr < 256"
  shows "(case net of None \<Rightarrow> Inr [] | Some d \<Rightarrow> catR [pack_be 2 d, pack_be 1 (int (length adr)), Inr adr])
     = Inr (address_octets net adr)"
proof (cases net)
  case (Some d)
  have "be_octets 1 (int (length adr)) = [word_of_int (int (length adr))]"
    by simp
  then show ?thesis
    using assms Some by (simp add: address_octets_def pack_be_def)
qed (simp add: address_octets_def)

lemma read_address_at:
  assumes "drop p octets = address_octets (Some net) adr @ rest" and "0 \<le> net" and "net < 65536" and "length adr < 256"
  shows "read_address octets p = Inr (net, adr, p + (3 + length adr))"
    and "drop (p + (3 + length adr)) octets = rest"
proof -
  have field: "py_slice octets p (p + 3) = be_octets 2 net @ [word_of_int (int (length adr))]"
    by (simp add: py_slice_def assms(1) address_octets_def numeral_3_eq_3 del: be_octets.simps)
  have len: "unat (word_of_int (int (length adr)) :: octet) = length adr"
    using assms(4) by (simp add: unat_eq_nat_uint uint_octet_of_int del: of_int_of_nat_eq)
  have "drop 3 (drop p octets) = adr @ rest"
    by (simp add: assms(1) address_octets_def numeral_3_eq_3 del: be_octets.simps drop_drop)
  then have adr: "drop (p + 3) octets = adr @ rest"
    by (simp add: add.commute)
  then show "drop (p + (3 + length adr)) octets = rest"
    using drop_after [OF adr] by (simp add: add.assoc)
  have "py_slice octets (p + 3) (p + 3 + length adr) = adr"
    by (rule py_slice_whole [OF adr])
  then show "read_address octets p = Inr (net, adr, p + (3 + length adr))"
    unfolding read_address_def Let_def field
    using len assms(2,3) by (simp add: int_from_be_octets nth_append add.assoc del: be_octets.simps of_int_of_nat_eq)
qed

text \<open>The control octet, with the bits the decoder tests.\<close>

definition control_field :: "int option \<Rightarrow> int option \<Rightarrow> int option \<Rightarrow> bool \<Rightarrow> int" where
  "control_field message dst src reply =
     (if message \<noteq> None then 0x80 else 0) OR (if dst \<noteq> None then 0x20 else 0)
       OR (if src \<noteq> None then 0x08 else 0) OR (if reply then 0x04 else 0)"

lemma control_field_range: "0 \<le> control_field m d s r \<and> control_field m d s r < 256"
  by (simp add: control_field_def)

lemma control_field_bits:
  "(word_of_int (control_field m d s r) :: octet) AND 0x80 \<noteq> 0 \<longleftrightarrow> m \<noteq> None"
  "(word_of_int (control_field m d s r) :: octet) AND 0x20 \<noteq> 0 \<longleftrightarrow> d \<noteq> None"
  "(word_of_int (control_field m d s r) :: octet) AND 0x08 \<noteq> 0 \<longleftrightarrow> s \<noteq> None"
  "(word_of_int (control_field m d s r) :: octet) AND 0x04 \<noteq> 0 \<longleftrightarrow> r"
  by (simp_all add: control_field_def split: if_splits)

lemma npdu_shape:
  assumes "valid_npdu m d da s sa hop"
  shows "npdu data m d da s sa reply hop =
     Inr ([1, word_of_int (control_field m d s reply)] @ address_octets d da @ address_octets s sa @
          (case d of None \<Rightarrow> [] | Some _ \<Rightarrow> [word_of_int hop]) @
          (case m of None \<Rightarrow> [] | Some msg \<Rightarrow> [word_of_int msg]) @ data)"
proof -
  note v = assms [unfolded valid_npdu_def]
  have head: "bytes_of [0x01, control_field m d s reply] = Inr [1, word_of_int (control_field m d s reply)]"
    using control_field_range by (simp add: bytes_of_def)
  have hop: "(case d of None \<Rightarrow> Inr [] | Some _ \<Rightarrow> bytes_of [hop]) = Inr (case d of None \<Rightarrow> [] | Some _ \<Rightarrow> [word_of_int hop])"
    using v by (auto simp: bytes_of_def is_octet_def split: option.splits)
  have msg: "(case m of None \<Rightarrow> Inr [] | Some x \<Rightarrow> bytes_of [x]) = Inr (case m of None \<Rightarrow> [] | Some x \<Rightarrow> [word_of_int x])"
    using v by (auto simp: bytes_of_def is_octet_def split: option.splits)
  show ?thesis
    unfolding npdu_def control_field_def [symmetric] Let_def head hop msg
    using v by (simp add: address_octets_ok)
qed

text \<open>The address part of the decoder, absent or present; \<open>g\<close> stores it in the frame.\<close>

lemma optional_address:
  assumes "pred_option (\<lambda>n. 0 \<le> n \<and> n < 65536) net" and "length adr < 256"
    and "drop p octets = address_octets net adr @ rest"
  shows "(if net \<noteq> None then bindR (read_address octets p) (\<lambda>(n, a, q). Inr (g n a, q)) else Inr (f, p)) =
      Inr (case net of None \<Rightarrow> f | Some n \<Rightarrow> g n adr, p + length (address_octets net adr))"
  using assms read_address_at(1) [of p octets _ adr rest]
  by (cases net) (auto simp: address_octets_def numeral_3_eq_3 simp del: be_octets.simps)

text \<open>What \<open>_decode\<close> makes of an NPDU: the fields the encoder was given, the payload less the vendor
  identifier of a proprietary network layer message.\<close>

definition with_npdu :: "frame \<Rightarrow> bytes \<Rightarrow> int option \<Rightarrow> int option \<Rightarrow> bytes \<Rightarrow> int option \<Rightarrow> bytes \<Rightarrow> bool \<Rightarrow> frame" where
  "with_npdu f data m d da s sa reply =
     f\<lparr>has_npdu := True, expecting_reply := reply,
       dnet := (case d of None \<Rightarrow> dnet f | Some n \<Rightarrow> Some n), dadr := (case d of None \<Rightarrow> dadr f | Some n \<Rightarrow> da),
       snet := (case s of None \<Rightarrow> snet f | Some n \<Rightarrow> Some n), sadr := (case s of None \<Rightarrow> sadr f | Some n \<Rightarrow> sa),
       network_message := (case m of None \<Rightarrow> network_message f | Some n \<Rightarrow> Some n),
       payload := (case m of None \<Rightarrow> data | Some n \<Rightarrow> if n \<ge> 0x80 then drop 2 data else data),
       ok := True\<rparr>"

lemma uint_octet_small: "is_octet v \<Longrightarrow> uint (word_of_int v :: octet) = v"
  unfolding uint_octet_of_int is_octet_def by simp

lemma decode_npdu_encoded:
  assumes "valid_npdu m d da s sa hop" and "npdu data m d da s sa reply hop = Inr octets"
  shows "decode_npdu octets f = Inr (with_npdu f data m d da s sa reply)"
proof -
  note v = assms(1) [unfolded valid_npdu_def]
  define control where "control = (word_of_int (control_field m d s reply) :: octet)"
  define tail where "tail = (case m of None \<Rightarrow> [] | Some msg \<Rightarrow> [word_of_int msg :: octet]) @ data"
  define hops where "hops = (case d of None \<Rightarrow> [] | Some _ \<Rightarrow> [word_of_int hop :: octet])"
  have octets: "octets = [1, control] @ address_octets d da @ address_octets s sa @ hops @ tail"
    using npdu_shape [OF assms(1)] assms(2) by (simp add: control_def tail_def hops_def)
  note bits = control_field_bits [of m d s reply, folded control_def]
  have d2: "drop 2 octets = address_octets d da @ address_octets s sa @ hops @ tail"
    by (simp add: octets)
  define q where "q = 2 + length (address_octets d da) + length (address_octets s sa) + length hops"
  have q: "drop q octets = tail"
    unfolding q_def by (rule drop_after [OF drop_after [OF drop_after [OF d2]]])
  have d3: "drop (2 + length (address_octets d da)) octets = address_octets s sa @ hops @ tail"
    by (rule drop_after [OF d2])
  have hopq: "(if d \<noteq> None then p + 1 else p) = p + length hops" for p
    by (auto simp: hops_def split: option.splits)
  have first: "octets ! 0 = 1" "octets ! 1 = control" "\<not> length octets < 2"
    by (simp_all add: octets)
  have msg: "(if m \<noteq> None then bindR (py_nth octets q) (\<lambda>w.
        Inr (g\<lparr>network_message := Some (uint w)\<rparr>, if w \<ge> 0x80 then q + 1 + 2 else q + 1)) else Inr (g, q)) =
      Inr (g\<lparr>network_message := (case m of None \<Rightarrow> network_message g | Some n \<Rightarrow> Some n)\<rparr>,
           q + (case m of None \<Rightarrow> 0 | Some n \<Rightarrow> if n \<ge> 0x80 then 3 else 1))" for g :: frame
  proof (cases m)
    case None
    then show ?thesis by simp
  next
    case (Some n)
    then have n: "uint (word_of_int n :: octet) = n" "is_octet n"
      using v by (auto simp: uint_octet_small)
    have "drop q octets = word_of_int n # data"
      using q Some by (simp add: tail_def)
    then have "py_nth octets q = Inr (word_of_int n)"
      using py_nth_drop [of octets q 0] by simp
    moreover have "(word_of_int n :: octet) \<ge> 0x80 \<longleftrightarrow> n \<ge> 0x80"
      using n(1) by (simp add: word_le_def)
    ultimately show ?thesis
      using Some n by simp
  qed
  have rest: "drop (q + (case m of None \<Rightarrow> 0 | Some n \<Rightarrow> if n \<ge> 0x80 then 3 else 1)) octets =
      (case m of None \<Rightarrow> data | Some n \<Rightarrow> if n \<ge> 0x80 then drop 2 data else data)"
    using arg_cong [OF q, of "drop (case m of None \<Rightarrow> 0 | Some n \<Rightarrow> if n \<ge> 0x80 then 3 else 1)"]
    by (simp add: tail_def add.commute numeral_3_eq_3 numeral_2_eq_2 split: option.splits if_splits)
  have dst: "pred_option (\<lambda>n. 0 \<le> n \<and> n < 65536) d" "length da < 256"
    and src: "pred_option (\<lambda>n. 0 \<le> n \<and> n < 65536) s" "length sa < 256"
    using v by auto
  show ?thesis
    unfolding decode_npdu_def first bits Let_def optional_address [OF dst d2] optional_address [OF src d3]
      bindR_simps split hopq q_def [symmetric] msg rest
    by (cases d; cases s; cases m) (simp_all add: with_npdu_def first)
qed

lemma bvll_ok:
  assumes "is_octet func" and "length body < 65532"
  shows "bvll func body = Inr ([0x81, word_of_int func] @ be_octets 2 (4 + int (length body)) @ body)"
proof -
  have "be_octets 1 v = [word_of_int v]" for v
    by simp
  then show ?thesis
    using assms by (simp add: bvll_def pack_be_def is_octet_def del: be_octets.simps)
qed

text \<open>The header of a BVLL message, whatever its func and body.\<close>

lemma Frame_bvll:
  assumes "is_octet func" and "length body < 65532" and "bvll func body = Inr data"
  shows "Frame data src =
     (let f = (initial_frame data src)\<lparr>bvlc_function := Some func, bvll_data := body\<rparr> in
      if func \<notin> set BVLC_FUNCTIONS_WITH_NPDU then Inr (f\<lparr>ok := True\<rparr>)
      else if func = BVLC_FORWARDED_NPDU then decode_npdu (drop 6 body) (f\<lparr>originating_mac := take 6 body\<rparr>)
      else decode_npdu body f)"
proof -
  have data: "data = [0x81, word_of_int func] @ be_octets 2 (4 + int (length body)) @ body"
    using bvll_ok [OF assms(1,2)] assms(3) by simp
  have d4: "drop 4 data = body"
    by (simp add: data del: be_octets.simps)
  have "drop 10 data = drop 6 (drop 4 data)"
    by simp
  then have d10: "drop 10 data = drop 6 body"
    by (simp only: d4)
  have slice: "py_slice data 4 10 = take 6 body"
    by (simp add: py_slice_def d4)
  have head: "\<not> length data < 4" "uint (data ! 0) = 0x81" "uint (data ! 1) = func"
    using uint_octet_small [OF assms(1)] by (simp_all add: data del: be_octets.simps)
  show ?thesis
    unfolding Frame_def Let_def d4 d10 slice head by (simp add: head(1))
qed

text \<open>A datagram written by \<open>bvlc\<close> around \<open>npdu\<close>, and one a BBMD forwards.\<close>

lemma Frame_bvlc_npdu:
  assumes "valid_npdu m d da s sa hop" and "npdu data m d da s sa reply hop = Inr octets"
    and "bvlc octets broadcast = Inr datagram" and "length octets < 65532"
  shows "Frame datagram src = Inr (with_npdu
     ((initial_frame datagram src)\<lparr>bvlc_function := Some (if broadcast then BVLC_ORIGINAL_BROADCAST else BVLC_ORIGINAL_UNICAST),
        bvll_data := octets\<rparr>) data m d da s sa reply)"
proof -
  let ?func = "if broadcast then BVLC_ORIGINAL_BROADCAST else BVLC_ORIGINAL_UNICAST"
  have "is_octet ?func" and "?func \<in> set BVLC_FUNCTIONS_WITH_NPDU" and "?func \<noteq> BVLC_FORWARDED_NPDU"
    by (simp_all add: is_octet_def BVLC_FUNCTIONS_WITH_NPDU_def)
  then show ?thesis
    using Frame_bvll [of ?func octets datagram src] assms(3,4) decode_npdu_encoded [OF assms(1,2)]
    by (simp add: bvlc_def Let_def)
qed

lemma Frame_forwarded_npdu:
  assumes "valid_npdu m d da s sa hop" and "npdu data m d da s sa reply hop = Inr octets"
    and "forwarded_npdu mac octets = Inr datagram" and "length mac = 6" and "length octets < 65526"
  shows "Frame datagram src = Inr (with_npdu
     ((initial_frame datagram src)\<lparr>bvlc_function := Some BVLC_FORWARDED_NPDU, bvll_data := mac @ octets,
        originating_mac := mac\<rparr>) data m d da s sa reply)"
  using Frame_bvll [of BVLC_FORWARDED_NPDU "mac @ octets" datagram src] assms(3-5) decode_npdu_encoded [OF assms(1,2)]
  by (simp add: forwarded_npdu_def Let_def is_octet_def BVLC_FUNCTIONS_WITH_NPDU_def)

text \<open>The exceptions that leave the constructor.\<close>

lemma read_address_errors: "read_address octets p = Inl e \<Longrightarrow> e = StructError"
  by (auto simp: read_address_def Let_def bindR_Inl_iff split: if_splits)

lemma decode_npdu_errors: "decode_npdu octets f = Inl e \<Longrightarrow> e \<in> {StructError, IndexError}"
  by (auto simp: decode_npdu_def Let_def bindR_Inl_iff py_nth_def dest: read_address_errors split: if_splits)

lemma Frame_errors: "Frame data src = Inl e \<Longrightarrow> e \<in> {StructError, IndexError}"
  by (auto simp: Frame_def Let_def dest: decode_npdu_errors split: if_splits)

text \<open>What a decoded frame keeps to: the source it was given, network numbers of 16 bits and addresses
  of at most 255 octets. A frame never has more octets than the datagram it came from.\<close>

definition frame_wf :: "frame \<Rightarrow> bool" where
  "frame_wf f \<longleftrightarrow>
     pred_option (\<lambda>n. 0 \<le> n \<and> n < 65536) (dnet f) \<and> length (dadr f) < 256 \<and>
     pred_option (\<lambda>n. 0 \<le> n \<and> n < 65536) (snet f) \<and> length (sadr f) < 256 \<and>
     pred_option is_octet (network_message f) \<and> pred_option is_octet (bvlc_function f)"

lemma is_octet_uint [simp]: "is_octet (uint (w :: octet))"
  by (simp add: is_octet_def octet_uint_bound)

lemma unat_octet_bound: "unat (w :: octet) < 256"
  by (rule less_le_trans [OF unsigned_less]) simp

lemma read_address_range:
  assumes "read_address octets p = Inr (net, adr, q)"
  shows "0 \<le> net \<and> net < 65536 \<and> length adr < 256"
proof -
  let ?field = "py_slice octets p (p + 3)"
  have f: "length ?field = 3" and net: "net = int_from_bytes (take 2 ?field)"
    and adr: "adr = py_slice octets (p + 3) (p + 3 + unat (?field ! 2))"
    using assms by (auto simp: read_address_def Let_def bindR_Inr_iff split: if_splits)
  have "length (take 2 ?field) = 2"
    using f by simp
  then have "net < 256 ^ 2"
    using int_from_bytes_bound [of "take 2 ?field"] net by simp
  moreover have "length adr \<le> unat (?field ! 2)"
    using adr length_py_slice_le [of octets "p + 3" "p + 3 + unat (?field ! 2)"] by simp
  then have "length adr < 256"
    using unat_octet_bound [of "?field ! 2"] by simp
  ultimately show ?thesis
    using net by simp
qed

lemma frame_wf_updates:
  assumes "frame_wf f"
  shows "frame_wf (f\<lparr>has_npdu := a, expecting_reply := b\<rparr>)"
    and "0 \<le> net \<and> net < 65536 \<and> length adr < 256 \<Longrightarrow> frame_wf (f\<lparr>dnet := Some net, dadr := adr\<rparr>)"
    and "0 \<le> net \<and> net < 65536 \<and> length adr < 256 \<Longrightarrow> frame_wf (f\<lparr>snet := Some net, sadr := adr\<rparr>)"
    and "is_octet m \<Longrightarrow> frame_wf (f\<lparr>network_message := Some m\<rparr>)"
    and "frame_wf (f\<lparr>payload := data, ok := c\<rparr>)"
  using assms by (simp_all add: frame_wf_def)

lemma decode_npdu_wf:
  assumes "decode_npdu octets f = Inr g" and "frame_wf f"
  shows "frame_wf g \<and> source g = source f \<and> bvlc_function g = bvlc_function f"
proof (cases "length octets < 2 \<or> octets ! 0 \<noteq> 0x01")
  case True
  then show ?thesis
    using assms by (simp add: decode_npdu_def)
next
  case False
  let ?c = "octets ! 1"
  let ?f0 = "f\<lparr>has_npdu := True, expecting_reply := (?c AND 0x04 \<noteq> 0)\<rparr>"
  obtain f1 p1 where s1: "(if ?c AND 0x20 \<noteq> 0
      then bindR (read_address octets 2) (\<lambda>(net, adr, position). Inr (?f0\<lparr>dnet := Some net, dadr := adr\<rparr>, position))
      else Inr (?f0, 2)) = Inr (f1, p1)"
    using assms(1) False by (simp only: decode_npdu_def Let_def if_False bindR_Inr_iff) auto
  obtain f2 p2 where s2: "(if ?c AND 0x08 \<noteq> 0
      then bindR (read_address octets p1) (\<lambda>(net, adr, position). Inr (f1\<lparr>snet := Some net, sadr := adr\<rparr>, position))
      else Inr (f1, p1)) = Inr (f2, p2)"
    using assms(1) False by (simp only: decode_npdu_def Let_def if_False s1 bindR_simps split bindR_Inr_iff) auto
  let ?q = "if ?c AND 0x20 \<noteq> 0 then p2 + 1 else p2"
  obtain f3 p3 where s3: "(if ?c AND 0x80 \<noteq> 0
      then bindR (py_nth octets ?q) (\<lambda>m.
        Inr (f2\<lparr>network_message := Some (uint m)\<rparr>, if m \<ge> 0x80 then ?q + 1 + 2 else ?q + 1))
      else Inr (f2, ?q)) = Inr (f3, p3)"
      and g: "g = f3\<lparr>payload := drop p3 octets, ok := True\<rparr>"
    using assms(1) False
    by (simp only: decode_npdu_def Let_def if_False s1 s2 bindR_simps split bindR_Inr_iff) auto
  have w1: "frame_wf f1 \<and> source f1 = source f \<and> bvlc_function f1 = bvlc_function f"
    using s1 assms(2) by (auto simp: bindR_Inr_iff frame_wf_updates dest!: read_address_range split: if_splits)
  then have w2: "frame_wf f2 \<and> source f2 = source f \<and> bvlc_function f2 = bvlc_function f"
    using s2 by (auto simp: bindR_Inr_iff frame_wf_updates dest!: read_address_range split: if_splits)
  then have "frame_wf f3 \<and> source f3 = source f \<and> bvlc_function f3 = bvlc_function f"
    using s3 by (auto simp: bindR_Inr_iff frame_wf_updates split: if_splits)
  then show ?thesis
    by (simp add: g frame_wf_updates)
qed

lemma Frame_wf:
  assumes "Frame data src = Inr f"
  shows "frame_wf f \<and> source f = src \<and> (bvlc_function f = None \<longrightarrow> length data < 4 \<or> uint (data ! 0) \<noteq> BVLC_TYPE)"
proof -
  have "frame_wf (initial_frame data src)" and "source (initial_frame data src) = src"
    by (simp_all add: frame_wf_def initial_frame_def)
  moreover have "frame_wf (g\<lparr>bvlc_function := Some n, bvll_data := b, ok := k\<rparr>)"
      "frame_wf (g\<lparr>bvlc_function := Some n, bvll_data := b\<rparr>)"
      "frame_wf (g\<lparr>bvlc_function := Some n, bvll_data := b, originating_mac := m\<rparr>)"
    if "frame_wf g" and "is_octet n" for g n b m k
    using that by (simp_all add: frame_wf_def)
  moreover have "is_octet 4"
    by (simp add: is_octet_def)
  ultimately show ?thesis
    using assms unfolding Frame_def Let_def
    by (auto dest!: decode_npdu_wf split: if_splits simp del: One_nat_def)
qed

text \<open>\<open>describe\<close> fails exactly on the frames of datagrams that are not BVLL messages at all.\<close>

lemma frame_describe_raises:
  assumes "Frame data src = Inr f"
  shows "frame_describe f = Inl TypeError \<longleftrightarrow> length data < 4 \<or> uint (data ! 0) \<noteq> BVLC_TYPE"
proof (cases "length data < 4 \<or> uint (data ! 0) \<noteq> BVLC_TYPE")
  case True
  then have "f = initial_frame data src"
    using assms unfolding Frame_def Let_def by (auto split: if_splits)
  then show ?thesis
    using True by (simp add: frame_describe_def Let_def initial_frame_def)
next
  case False
  then have "bvlc_function f \<noteq> None"
    using Frame_wf [OF assms] by blast
  then show ?thesis
    using False by (auto simp: frame_describe_def Let_def)
qed

end
