(* ===== verification/Py_State.thy ===== *)
theory Py_State
  imports Py_Prelude
begin

text \<open>
  Methods that change their object and may raise: a state transformer whose result is a value or an
  exception. The state is kept when an exception is raised, as in Python: what a method stored before
  it raised stays stored.
\<close>

type_synonym ('s, 'a) action = "'s \<Rightarrow> 'a result \<times> 's"

definition returnS :: "'a \<Rightarrow> ('s, 'a) action" where
  "returnS x s = (Inr x, s)"

definition liftS :: "'a result \<Rightarrow> ('s, 'a) action" where
  "liftS r s = (r, s)"

definition modifyS :: "('s \<Rightarrow> 's) \<Rightarrow> ('s, unit) action" where
  "modifyS f s = (Inr (), f s)"

definition getS :: "('s \<Rightarrow> 'a) \<Rightarrow> ('s, 'a) action" where
  "getS f s = (Inr (f s), s)"

definition bindS :: "('s, 'a) action \<Rightarrow> ('a \<Rightarrow> ('s, 'b) action) \<Rightarrow> ('s, 'b) action" where
  "bindS m f s = (case m s of (Inl e, s') \<Rightarrow> (Inl e, s') | (Inr x, s') \<Rightarrow> f x s')"

abbreviation thenS :: "('s, unit) action \<Rightarrow> ('s, 'b) action \<Rightarrow> ('s, 'b) action" where
  "thenS m k \<equiv> bindS m (\<lambda>_. k)"

lemma returnS_apply [simp]: "returnS x s = (Inr x, s)"
  by (simp add: returnS_def)

lemma liftS_apply [simp]: "liftS r s = (r, s)"
  by (simp add: liftS_def)

lemma modifyS_apply [simp]: "modifyS f s = (Inr (), f s)"
  by (simp add: modifyS_def)

lemma getS_apply [simp]: "getS g s = (Inr (g s), s)"
  by (simp add: getS_def)

lemma bindS_return [simp]: "bindS (returnS x) f s = f x s"
  by (simp add: bindS_def)

lemma bindS_modify [simp]: "bindS (modifyS h) f s = f () (h s)"
  by (simp add: bindS_def)

lemma bindS_get [simp]: "bindS (getS g) f s = f (g s) s"
  by (simp add: bindS_def)

lemma bindS_liftS [simp]:
  "bindS (liftS (Inr x)) f s = f x s"
  "bindS (liftS (Inl e)) f s = (Inl e, s)"
  by (simp_all add: bindS_def)

lemma bindS_Inr: "m s = (Inr x, s') \<Longrightarrow> bindS m f s = f x s'"
  by (simp add: bindS_def)

lemma bindS_Inl: "m s = (Inl e, s') \<Longrightarrow> bindS m f s = (Inl e, s')"
  by (simp add: bindS_def)

lemma bindS_lift: "bindS (liftS r) f s = (case r of Inl e \<Rightarrow> (Inl e, s) | Inr x \<Rightarrow> f x s)"
  by (simp add: bindS_def)

text \<open>An action that keeps a projection \<open>p\<close> of the state, whatever it returns or raises.\<close>

definition keeps :: "('s \<Rightarrow> 'p) \<Rightarrow> ('s, 'a) action \<Rightarrow> bool" where
  "keeps p m \<longleftrightarrow> (\<forall>s. p (snd (m s)) = p s)"

lemma keepsD: "keeps p m \<Longrightarrow> p (snd (m s)) = p s"
  by (simp add: keeps_def)

lemma keeps_return [simp, intro]: "keeps p (returnS x)"
  by (simp add: keeps_def)

lemma keeps_lift [simp, intro]: "keeps p (liftS r)"
  by (simp add: keeps_def)

lemma keeps_get [simp, intro]: "keeps p (getS g)"
  by (simp add: keeps_def)

lemma keeps_modify: "(\<And>s. p (f s) = p s) \<Longrightarrow> keeps p (modifyS f)"
  by (simp add: keeps_def)

lemma keeps_bind: "keeps p m \<Longrightarrow> (\<And>x. keeps p (f x)) \<Longrightarrow> keeps p (bindS m f)"
  by (auto simp: keeps_def bindS_def split: prod.split sum.split) (metis snd_conv)+

text \<open>An action under which a property of the state is invariant.\<close>

definition preserves :: "('s \<Rightarrow> bool) \<Rightarrow> ('s, 'a) action \<Rightarrow> bool" where
  "preserves P m \<longleftrightarrow> (\<forall>s. P s \<longrightarrow> P (snd (m s)))"

lemma preservesD: "preserves P m \<Longrightarrow> P s \<Longrightarrow> P (snd (m s))"
  by (simp add: preserves_def)

lemma preserves_return [simp, intro]: "preserves P (returnS x)"
  by (simp add: preserves_def)

lemma preserves_lift [simp, intro]: "preserves P (liftS r)"
  by (simp add: preserves_def)

lemma preserves_get [simp, intro]: "preserves P (getS g)"
  by (simp add: preserves_def)

lemma preserves_modify: "(\<And>s. P s \<Longrightarrow> P (f s)) \<Longrightarrow> preserves P (modifyS f)"
  by (simp add: preserves_def)

lemma preserves_bind: "preserves P m \<Longrightarrow> (\<And>x. preserves P (f x)) \<Longrightarrow> preserves P (bindS m f)"
  by (auto simp: preserves_def bindS_def split: prod.split sum.split)

end
