(* ===== verification/Peer_Device.thy ===== *)
theory Peer_Device
  imports Codec_Frame Py_State
begin

unbundle bit_operations_syntax

text \<open>
  \<open>class SimulatedDevice\<close> of \<open>wiretest/peer.py\<close>: the state a device keeps, the answer it gives to one
  request, the addressing of the reply and one turn of its serving thread. The thread is generic in
  \<open>_answer\<close>, which \<open>SimulatedServer\<close> overrides: the locale \<open>answering_device\<close> states what the thread
  relies on in it, and is interpreted here on the device's own \<open>_answer\<close>. An exception in \<open>_answer\<close>
  ends the thread.
\<close>

section \<open>State\<close>

record device =
  device_instance :: int
  object_name :: pystr
  vendor_identifier :: int
  received :: "frame list"
  received_on_broadcast :: "frame list"

text \<open>The data of the constructor, and \<open>frames\<close>. The thread it starts, \<open>stop\<close> and the sockets are in \<open>Peer_Thread\<close> and \<open>Sockets\<close>.\<close>

definition SimulatedDevice :: "int \<Rightarrow> pystr \<Rightarrow> int \<Rightarrow> device" where
  "SimulatedDevice inst name vendor =
     \<lparr>device_instance = inst, object_name = name, vendor_identifier = vendor, received = [], received_on_broadcast = []\<rparr>"

definition device_frames :: "'a device_scheme \<Rightarrow> frame list" where
  "device_frames d = received d"

text \<open>An optional integer used where the source needs an integer: \<open>bytes([None])\<close> is a \<open>TypeError\<close>.\<close>

definition require :: "'a option \<Rightarrow> 'a result" where
  "require v = (case v of None \<Rightarrow> Inl TypeError | Some x \<Rightarrow> Inr x)"

lemma require_simps [simp]: "require (Some x) = Inr x" "require None = Inl TypeError"
  by (simp_all add: require_def)

section \<open>Answering\<close>

definition device_read_property :: "'a device_scheme \<Rightarrow> frame \<Rightarrow> bytes option result" where
  "device_read_property d f =
     bindR (parse_read_property_request (payload f)) (\<lambda>request.
     bindR (invoke_id f) (\<lambda>inv.
     case request of
       None \<Rightarrow> Inr None
     | Some (ot, inst, pid) \<Rightarrow>
         if ot \<noteq> OBJECT_TYPE_DEVICE \<or> inst \<notin> {device_instance d, MAX_INSTANCE} then
           bindR (require inv) (\<lambda>inv. bindR (error_pdu inv SERVICE_READ_PROPERTY ERROR_CLASS_OBJECT ERROR_CODE_UNKNOWN_OBJECT)
             (\<lambda>apdu. Inr (Some apdu)))
         else if pid = PROPERTY_OBJECT_NAME \<or> pid = PROPERTY_OBJECT_IDENTIFIER then
           bindR (if pid = PROPERTY_OBJECT_NAME then application_character_string (object_name d)
                  else application_object_id OBJECT_TYPE_DEVICE (device_instance d)) (\<lambda>octets.
           bindR (require inv) (\<lambda>inv. bindR (read_property_ack inv OBJECT_TYPE_DEVICE (device_instance d) pid octets)
             (\<lambda>apdu. Inr (Some apdu))))
         else
           bindR (require inv) (\<lambda>inv. bindR (error_pdu inv SERVICE_READ_PROPERTY ERROR_CLASS_PROPERTY ERROR_CODE_UNKNOWN_PROPERTY)
             (\<lambda>apdu. Inr (Some apdu)))))"

text \<open>The values of the tags of a Who-Is: \<open>_tags\<close> is the scan, the comprehension keeps the values.\<close>

definition who_is_limits :: "bytes \<Rightarrow> int list result" where
  "who_is_limits octets =
     scan_tags (\<lambda>_ (number, is_context, kind, body, _) limits.
       Inr (if kind = Value then limits @ [int_from_bytes body] else limits)) octets 0 []"

definition device_who_is :: "'a device_scheme \<Rightarrow> frame \<Rightarrow> bytes option result" where
  "device_who_is d f =
     bindR (who_is_limits (drop 2 (payload f))) (\<lambda>limits.
       if length limits = 2 \<and> \<not> (limits ! 0 \<le> device_instance d \<and> device_instance d \<le> limits ! 1) then Inr None
       else bindR (i_am (device_instance d) (vendor_identifier d) 1476 3) (\<lambda>apdu. Inr (Some apdu)))"

definition device_answer :: "frame \<Rightarrow> ('a device_scheme, bytes option) action" where
  "device_answer f d =
     (if pdu_type f = Some PDU_CONFIRMED_REQUEST then
        liftS (bindR (service f) (\<lambda>srv. if srv = Some SERVICE_READ_PROPERTY then device_read_property d f else Inr None)) d
      else if pdu_type f = Some PDU_UNCONFIRMED_REQUEST then
        liftS (bindR (service f) (\<lambda>srv. if srv = Some SERVICE_WHO_IS then device_who_is d f else Inr None)) d
      else returnS None d)"

section \<open>Replying and serving\<close>

definition reply :: "frame \<Rightarrow> bytes \<Rightarrow> (bytes \<times> address) result" where
  "reply request apdu =
     bindR (case snet request of
              Some net \<Rightarrow> npdu apdu None (Some net) (sadr request) None [] False 255
            | None \<Rightarrow> npdu_plain apdu) (\<lambda>npdu_octets.
     bindR (bvlc npdu_octets False) (\<lambda>datagram. Inr (datagram, source request)))"

definition keep_frame :: "bool \<Rightarrow> frame \<Rightarrow> 'a device_scheme \<Rightarrow> 'a device_scheme" where
  "keep_frame on_broadcast f d =
     d\<lparr>received := received d @ [f],
       received_on_broadcast := (if on_broadcast then received_on_broadcast d @ [f] else received_on_broadcast d)\<rparr>"

text \<open>One turn of \<open>_serve\<close> for a datagram: the datagram sent back and its destination, if any.\<close>

definition serve :: "(frame \<Rightarrow> ('a device_scheme, bytes option) action) \<Rightarrow> bytes \<times> address \<times> bool \<Rightarrow>
    ('a device_scheme, (bytes \<times> address) option) action" where
  "serve answer datagram =
     (case datagram of (data, src, on_broadcast) \<Rightarrow>
      bindS (liftS (Frame data src)) (\<lambda>f.
      bindS (modifyS (keep_frame on_broadcast f)) (\<lambda>_.
      if ok f \<and> network_message f = None then
        bindS (answer f) (\<lambda>apdu.
          case apdu of None \<Rightarrow> returnS None
          | Some octets \<Rightarrow> liftS (bindR (reply f octets) (\<lambda>r. Inr (Some r))))
      else returnS None)))"

text \<open>The thread over a sequence of datagrams: what it sent, the exception that ended it if one did, and
  the state it left.\<close>

fun serve_all :: "(frame \<Rightarrow> ('a device_scheme, bytes option) action) \<Rightarrow> (bytes \<times> address \<times> bool) list \<Rightarrow>
    'a device_scheme \<Rightarrow> (bytes \<times> address) list \<times> py_error option \<times> 'a device_scheme" where
  "serve_all answer [] d = ([], None, d)"
| "serve_all answer (datagram # rest) d =
     (case serve answer datagram d of
        (Inl e, d') \<Rightarrow> ([], Some e, d')
      | (Inr out, d') \<Rightarrow>
          (case serve_all answer rest d' of (outs, e, d'') \<Rightarrow> ((case out of None \<Rightarrow> outs | Some o1 \<Rightarrow> o1 # outs), e, d'')))"

text \<open>\<open>send\<close>, \<open>announce\<close> (the datagrams it sends, in order) and \<open>simple_acks\<close>.\<close>

definition device_send :: "bytes \<Rightarrow> address \<Rightarrow> (bytes \<times> address) result" where
  "device_send apdu dst =
     bindR (npdu_plain apdu) (\<lambda>octets. bindR (bvlc octets False) (\<lambda>datagram. Inr (datagram, dst)))"

definition announce :: "'a device_scheme \<Rightarrow> address \<Rightarrow> nat \<Rightarrow> (bytes \<times> address) list result" where
  "announce d dst count =
     bindR (i_am (device_instance d) (vendor_identifier d) 1476 3) (\<lambda>apdu.
     bindR (npdu_plain apdu) (\<lambda>octets.
     bindR (bvlc octets False) (\<lambda>datagram. Inr (replicate count (datagram, dst)))))"

fun acks_in :: "int \<Rightarrow> frame list \<Rightarrow> (int option \<times> address) list result" where
  "acks_in srv [] = Inr []"
| "acks_in srv (f # fs) =
     (if ok f \<and> pdu_type f = Some PDU_SIMPLE_ACK then
        bindR (service f) (\<lambda>s.
          if s = Some srv then
            bindR (invoke_id f) (\<lambda>i. bindR (acks_in srv fs) (\<lambda>rest. Inr ((i, source f) # rest)))
          else acks_in srv fs)
      else acks_in srv fs)"

definition simple_acks :: "'a device_scheme \<Rightarrow> int \<Rightarrow> (int option \<times> address) list result" where
  "simple_acks d srv = acks_in srv (device_frames d)"

section \<open>Where the reply goes\<close>

text \<open>A reply is a datagram that decodes to the answer, addressed to the network and address the request
  came from (clauses 6.5.4 and 6.5.2), and is sent to the sender of the request.\<close>

lemma address_octets_length: "length (address_octets net adr) \<le> 3 + length adr"
  by (cases net) (simp_all add: address_octets_def del: be_octets.simps)

definition reply_frame :: "frame \<Rightarrow> bytes \<Rightarrow> address \<Rightarrow> frame \<Rightarrow> bool" where
  "reply_frame request apdu src f \<longleftrightarrow>
     ok f \<and> network_message f = None \<and> payload f = apdu \<and> source f = src \<and>
     dnet f = snet request \<and> dadr f = (if snet request = None then [] else sadr request) \<and> snet f = None"

lemma reply_decodes:
  assumes "frame_wf request" and "length apdu < 65000"
  obtains datagram f where "reply request apdu = Inr (datagram, source request)"
    and "\<And>src. Frame datagram src = Inr (f src)" and "\<And>src. reply_frame request apdu src (f src)"
proof -
  have v: "valid_npdu None (snet request) (if snet request = None then [] else sadr request) None [] 255"
    using assms(1) by (auto simp: valid_npdu_def frame_wf_def is_octet_def)
  let ?adr = "if snet request = None then [] else sadr request"
  obtain octets where octets: "npdu apdu None (snet request) ?adr None [] False 255 = Inr octets"
    using npdu_shape [OF v] by blast
  have "length octets \<le> 2 + (3 + length ?adr) + 1 + length apdu"
    using octets npdu_shape [OF v, of apdu False] address_octets_length [of "snet request" ?adr]
    by (auto simp: address_octets_def split: option.splits)
  moreover have "length ?adr < 256"
    using v by (simp add: valid_npdu_def)
  ultimately have len: "length octets < 65532"
    using assms(2) by simp
  obtain datagram where datagram: "bvlc octets False = Inr datagram"
    using bvll_ok [of BVLC_ORIGINAL_UNICAST octets] len by (auto simp: bvlc_def is_octet_def)
  have "reply request apdu = Inr (datagram, source request)"
    using octets datagram by (auto simp: reply_def split: option.splits)
  moreover note Frame_bvlc_npdu [OF v octets datagram len]
  ultimately show thesis
    by (rule that) (auto simp: reply_frame_def with_npdu_def initial_frame_def split: option.splits)
qed

section \<open>The interface of the thread\<close>

text \<open>What the thread relies on in an \<open>_answer\<close>: it leaves the kept frames alone.\<close>

definition kept_frames :: "'a device_scheme \<Rightarrow> frame list \<times> frame list" where
  "kept_frames d = (received d, received_on_broadcast d)"

locale answering_device =
  fixes answer :: "frame \<Rightarrow> ('a device_scheme, bytes option) action"
  assumes answer_keeps: "keeps kept_frames (answer f)"
begin

lemma serve_keeps:
  assumes "Frame data src = Inr f"
  shows "kept_frames (snd (serve answer (data, src, bc) d)) =
     (received d @ [f], received_on_broadcast d @ (if bc then [f] else []))"
proof -
  have "keeps kept_frames (bindS (answer f) (\<lambda>apdu. case apdu of None \<Rightarrow> returnS None
      | Some octets \<Rightarrow> liftS (bindR (reply f octets) (\<lambda>r. Inr (Some r)))))"
    by (intro keeps_bind answer_keeps) (auto split: option.split)
  then have "kept_frames (snd (serve answer (data, src, bc) d)) = kept_frames (keep_frame bc f d)"
    by (simp add: serve_def assms keepsD)
  then show ?thesis
    by (simp add: keep_frame_def kept_frames_def)
qed

text \<open>A datagram that does not decode to an APDU is kept and nothing else happens.\<close>

lemma serve_ignores:
  assumes "Frame data src = Inr f" and "\<not> ok f \<or> network_message f \<noteq> None"
  shows "serve answer (data, src, bc) d = (Inr None, keep_frame bc f d)"
  using assms by (auto simp: serve_def)

text \<open>Whatever is sent goes to the sender of the datagram just received.\<close>

lemma serve_destination:
  assumes "serve answer (data, src, bc) d = (Inr (Some (out, dst)), d')"
  shows "dst = src"
proof -
  obtain f where f: "Frame data src = Inr f"
    using assms by (cases "Frame data src") (auto simp: serve_def bindS_def)
  have "source f = src"
    using Frame_wf [OF f] by simp
  then show ?thesis
    using assms f
    by (auto simp: serve_def bindS_def reply_def bindR_Inr_iff split: if_splits prod.splits sum.splits option.splits)
qed

text \<open>The answer is wrapped so that the sender decodes it.\<close>

lemma serve_replies:
  assumes "Frame data src = Inr f" and "ok f" and "network_message f = None"
    and "answer f (keep_frame bc f d) = (Inr (Some apdu), d')" and "length apdu < 65000"
  obtains out g where "serve answer (data, src, bc) d = (Inr (Some (out, src)), d')"
    and "\<And>a. Frame out a = Inr (g a)" and "\<And>a. reply_frame f apdu a (g a)"
proof -
  have wf: "frame_wf f" and src: "source f = src"
    using Frame_wf [OF assms(1)] by auto
  obtain out g where "reply f apdu = Inr (out, source f)" and g: "\<And>a. Frame out a = Inr (g a)"
    "\<And>a. reply_frame f apdu a (g a)"
    using reply_decodes [OF wf assms(5)] by blast
  then have "serve answer (data, src, bc) d = (Inr (Some (out, src)), d')"
    using assms src by (simp add: serve_def bindS_def)
  with g that show thesis
    by blast
qed

text \<open>Over a run: every datagram is kept in order up to the one that ended the thread, and every reply
  goes to an address a datagram came from.\<close>

lemma serve_all_received:
  assumes "serve_all answer ds d = (outs, None, d')"
  shows "map Inr (received d') = map Inr (received d) @ map (\<lambda>(data, src, bc). Frame data src) ds"
  using assms
proof (induction ds arbitrary: d outs)
  case Nil
  then show ?case by simp
next
  case (Cons dg ds)
  obtain data src bc where dg: "dg = (data, src, bc)"
    by (cases dg)
  obtain out d1 where s: "serve answer dg d = (Inr out, d1)"
    using Cons.prems by (auto split: prod.splits sum.splits)
  obtain f where f: "Frame data src = Inr f"
    using s by (cases "Frame data src") (auto simp: serve_def bindS_def dg)
  have "received d1 = received d @ [f]"
    using serve_keeps [OF f, of bc d] s by (simp add: dg kept_frames_def)
  moreover obtain outs' where "serve_all answer ds d1 = (outs', None, d')"
    using Cons.prems s by (auto split: prod.splits)
  ultimately show ?case
    using Cons.IH f by (simp add: dg)
qed

lemma serve_all_destinations:
  assumes "serve_all answer ds d = (outs, e, d')"
  shows "snd ` set outs \<subseteq> (\<lambda>(data, src, bc). src) ` set ds"
  using assms
proof (induction ds arbitrary: d outs)
  case Nil
  then show ?case by simp
next
  case (Cons dg ds)
  obtain data src bc where dg: "dg = (data, src, bc)"
    by (cases dg)
  show ?case
  proof (cases "serve answer dg d")
    case (Pair r d1)
    show ?thesis
    proof (cases r)
      case (Inl e1)
      then show ?thesis
        using Cons.prems Pair by simp
    next
      case (Inr out)
      obtain outs' where rest: "serve_all answer ds d1 = (outs', e, d')"
          and outs: "outs = (case out of None \<Rightarrow> outs' | Some o1 \<Rightarrow> o1 # outs')"
        using Cons.prems Pair Inr by (auto split: prod.splits)
      then show ?thesis
        using Cons.IH [OF rest] serve_destination [of data src bc d] Pair Inr
        by (cases out) (auto simp: dg)
    qed
  qed
qed

end

lemma device_answer_keeps_state: "snd (device_answer f d) = d"
  by (simp add: device_answer_def)

interpretation dev: answering_device device_answer
  by unfold_locales (simp add: keeps_def device_answer_keeps_state)

section \<open>Who-Is\<close>

lemma limits_scan:
  assumes "list_all2 (\<lambda>enc b. \<exists>n c. encodes enc n c Value b) encs bs" and "drop p data = concat encs" and "p \<le> length data"
  shows "scan_tags (\<lambda>_ (number, is_context, kind, body, _) limits.
       Inr (if kind = Value then limits @ [int_from_bytes body] else limits)) data p acc = Inr (acc @ map int_from_bytes bs)"
  using assms
proof (induction encs bs arbitrary: p acc rule: list_all2_induct)
  case Nil
  then show ?case
    by (simp add: scan_tags_end)
next
  case (Cons enc encs b bs)
  obtain n c where e: "encodes enc n c Value b"
    using Cons.hyps(1) by blast
  have d: "drop p data = enc @ concat encs"
    using Cons.prems(1) by simp
  show ?case
    using encodes_end [OF e d] Cons.IH [OF drop_after [OF d]]
    by (subst scan_tags_step [OF e d]) simp
qed

text \<open>The limits of a Who-Is built by \<open>who_is\<close>.\<close>

lemma who_is_limits_read:
  assumes "pred_option (\<lambda>(low, high). is_unsigned low \<and> is_unsigned high) limits"
  obtains apdu where "who_is limits = Inr apdu" and "take 2 apdu = [0x10, 0x08]"
    and "who_is_limits (drop 2 apdu) = Inr (case limits of None \<Rightarrow> [] | Some (low, high) \<Rightarrow> [low, high])"
    and "length apdu < 65000"
proof (cases limits)
  case None
  show thesis
    by (rule that [of "[0x10, 0x08]"])
      (simp_all add: None who_is_def bytes_of_def who_is_limits_def scan_tags_end)
next
  case (Some lh)
  obtain low high where lh: "lh = (low, high)"
    by (cases lh)
  have u: "is_unsigned low" "is_unsigned high"
    using assms by (auto simp: Some lh)
  obtain a where a: "context_unsigned 0 low = Inr a" "encodes a 0 True Value (int_content low)"
    by (rule unsigned_parameter [OF u(1), of 0]) auto
  obtain b where b: "context_unsigned 1 high = Inr b" "encodes b 1 True Value (int_content high)"
    by (rule unsigned_parameter [OF u(2), of 1]) auto
  have "list_all2 (\<lambda>enc b. \<exists>n c. encodes enc n c Value b) [a, b] [int_content low, int_content high]"
    using a(2) b(2) by auto
  then have "who_is_limits (a @ b) = Inr [low, high]"
    using limits_scan [of "[a, b]" "[int_content low, int_content high]" 0 "a @ b" "[]"] u
    by (simp add: who_is_limits_def is_unsigned_content)
  moreover have "length a \<le> 5" and "length b \<le> 5"
    using a(1) b(1) by (auto simp: context_unsigned_def bindR_Inr_iff bytes_of_Inr_iff dest!: unsigned_octets_value)
  ultimately show thesis
    by (intro that [of "[0x10, 0x08] @ a @ b"])
      (simp_all add: Some lh who_is_def bytes_of_def a(1) b(1))
qed

lemma device_answer_who_is:
  assumes "network_message f = None" and "payload f = apdu" and "take 2 apdu = [0x10, 0x08]"
  shows "device_answer f d = (device_who_is d f, d)"
proof -
  obtain rest where apdu: "apdu = 0x10 # 0x08 # rest"
    using assms(3) by (cases apdu; cases "tl apdu") auto
  have "pdu_type f = Some PDU_UNCONFIRMED_REQUEST"
    using assms(1,2) by (simp add: pdu_type_def apdu drop_bit_eq_div)
  moreover from this have "service f = Inr (Some SERVICE_WHO_IS)"
    using assms(2) by (simp add: service_def apdu)
  ultimately show ?thesis
    by (simp add: device_answer_def)
qed

end
