(* ===== verification/Peer_Server.thy ===== *)
theory Peer_Server
  imports Peer_Device
begin

unbundle bit_operations_syntax

text \<open>
  \<open>class SimulatedServer\<close> of \<open>wiretest/peer.py\<close>: a device with objects a test controls. The state is the
  record \<open>server\<close>, an extension of \<open>device\<close>; \<open>server_answer\<close> is its \<open>_answer\<close> with the methods it calls
  (\<open>_requested_object\<close>, \<open>_read_special\<close>, \<open>_read_multiple\<close>, \<open>_write\<close>), every bookkeeping update included.
  A served value is octets or a callable; what the callables of a test return at the time of the request
  is the parameter \<open>env\<close>. \<open>check_write\<close> and \<open>on_write\<close> are the hooks as the class defines them.
  A method that raises keeps what it had stored (\<open>Py_State\<close>).
\<close>

section \<open>State\<close>

datatype served_value = Octets bytes | Callable nat

datatype server_mode = Online | Offline | Refusing

datatype failure = RejectFailure | AbortFailure | SilentFailure | MalformedFailure

type_synonym object_key = "int \<times> int"

record server = device +
  objects :: "object_key \<rightharpoonup> (int \<rightharpoonup> served_value)"
  writable :: "(int \<times> int \<times> int) set option"
  mode :: server_mode
  read_requests :: "(int \<times> (int \<times> int \<times> int list) list) list"
  write_requests :: "write_request list"
  requests_while_offline :: nat
  commandable :: "object_key set option"
  relinquish_defaults :: "object_key \<rightharpoonup> served_value"
  priority_arrays :: "object_key \<rightharpoonup> bytes option list"
  array_elements :: bool
  array_reads :: "(int \<times> int \<times> int \<times> int) list"
  failures :: "(object_key \<times> failure) list"
  whole_arrays_refused :: "(int \<times> int \<times> int) set"
  silent_requests :: nat

definition PRIORITY_DEFAULT :: int where
  "PRIORITY_DEFAULT = 16"

text \<open>\<open>__init__\<close>: every commandable object needs a Present_Value, which becomes its Relinquish_Default.\<close>

definition SimulatedServer :: "int \<Rightarrow> pystr \<Rightarrow> int \<Rightarrow> (object_key \<rightharpoonup> (int \<rightharpoonup> served_value)) \<Rightarrow>
    (int \<times> int \<times> int) set option \<Rightarrow> object_key list option \<Rightarrow> bool \<Rightarrow> server result" where
  "SimulatedServer inst name vendor objs writes commands elements =
     (let keys = (case commands of None \<Rightarrow> [] | Some ks \<Rightarrow> ks);
          default = (\<lambda>key. case objs key of None \<Rightarrow> None | Some props \<Rightarrow> props PROPERTY_PRESENT_VALUE) in
      if list_all (\<lambda>key. default key \<noteq> None) keys then
        Inr \<lparr>device_instance = inst, object_name = name, vendor_identifier = vendor, received = [],
             received_on_broadcast = [], objects = objs, writable = writes, mode = Online, read_requests = [],
             write_requests = [], requests_while_offline = 0, commandable = map_option set commands,
             relinquish_defaults = (\<lambda>key. if key \<in> set keys then default key else None),
             priority_arrays = (\<lambda>key. if key \<in> set keys then Some (replicate 16 None) else None),
             array_elements = elements, array_reads = [], failures = [], whole_arrays_refused = {},
             silent_requests = 0\<rparr>
      else Inl KeyError)"

section \<open>Values\<close>

definition served_octets :: "(nat \<Rightarrow> bytes) \<Rightarrow> served_value \<Rightarrow> bytes" where
  "served_octets env v = (case v of Octets octets \<Rightarrow> octets | Callable c \<Rightarrow> env c)"

definition stored_property :: "'a server_scheme \<Rightarrow> object_key \<Rightarrow> int \<Rightarrow> served_value option" where
  "stored_property s key pid = (case objects s key of None \<Rightarrow> None | Some props \<Rightarrow> props pid)"

definition server_value :: "(nat \<Rightarrow> bytes) \<Rightarrow> 'a server_scheme \<Rightarrow> int \<Rightarrow> int \<Rightarrow> int \<Rightarrow> bytes option" where
  "server_value env s ot inst pid = map_option (served_octets env) (stored_property s (ot, inst) pid)"

definition reads :: "'a server_scheme \<Rightarrow> int \<Rightarrow> (int \<times> int \<times> int list) list list" where
  "reads s srv = map snd (filter (\<lambda>(kind, specifications). kind = srv) (read_requests s))"

definition writes_matching :: "'a server_scheme \<Rightarrow> int \<Rightarrow> int \<Rightarrow> int \<Rightarrow> write_request list" where
  "writes_matching s ot inst pid =
     filter (\<lambda>w. (object_type w, instance_number w, property_identifier w) = (ot, inst, pid)) (write_requests s)"

definition check_write :: "write_request \<Rightarrow> (int \<times> int) option" where
  "check_write request = None"

definition on_write :: "write_request \<Rightarrow> 'a server_scheme \<Rightarrow> 'a server_scheme" where
  "on_write request s = s"

section \<open>Answering\<close>

text \<open>An answer built from the frame's invoke id.\<close>

definition with_invoke_id :: "frame \<Rightarrow> (int \<Rightarrow> bytes result) \<Rightarrow> ('s, bytes option) action" where
  "with_invoke_id f build =
     liftS (bindR (invoke_id f) (\<lambda>inv. bindR (require inv) (\<lambda>inv. bindR (build inv) (\<lambda>apdu. Inr (Some apdu)))))"

definition requested_object :: "frame \<Rightarrow> object_key option result" where
  "requested_object f =
     bindR (service f) (\<lambda>srv.
       if srv = Some SERVICE_READ_PROPERTY then
         bindR (parse_read_property_request (payload f)) (\<lambda>parsed. Inr (map_option (\<lambda>(ot, inst, _). (ot, inst)) parsed))
       else if srv = Some SERVICE_WRITE_PROPERTY then
         bindR (parse_write_property_request (payload f)) (\<lambda>parsed.
           Inr (map_option (\<lambda>w. (object_type w, instance_number w)) parsed))
       else Inr None)"

definition log_read :: "int \<Rightarrow> (int \<times> int \<times> int list) list \<Rightarrow> 'a server_scheme \<Rightarrow> 'a server_scheme" where
  "log_read srv specifications s = s\<lparr>read_requests := read_requests s @ [(srv, specifications)]\<rparr>"

text \<open>The ComplexACK for an array element.\<close>

definition element_ack :: "int \<Rightarrow> int \<Rightarrow> int \<Rightarrow> int \<Rightarrow> int \<Rightarrow> bytes \<Rightarrow> bytes result" where
  "element_ack iid ot inst pid idx octets =
     catR [bytes_of [push_bit 4 PDU_COMPLEX_ACK, iid, SERVICE_READ_PROPERTY], context_object_id 0 ot inst,
           context_unsigned 1 pid, context_unsigned 2 idx, opening_tag 3, Inr octets, closing_tag 3]"

definition read_special :: "(nat \<Rightarrow> bytes) \<Rightarrow> frame \<Rightarrow> int \<times> int \<times> int \<times> int option \<Rightarrow> failure option \<Rightarrow>
    ('a server_scheme, bytes option) action" where
  "read_special env f parsed failed =
     (case parsed of (ot, inst, pid, index) \<Rightarrow>
      if failed = Some MalformedFailure then
        bindS (liftS application_null) (\<lambda>null. with_invoke_id f (\<lambda>inv. read_property_ack inv ot inst pid null))
      else case index of
        None \<Rightarrow>
          bindS (getS whole_arrays_refused) (\<lambda>refused.
            if (ot, inst, pid) \<in> refused then
              thenS (modifyS (log_read SERVICE_READ_PROPERTY [(ot, inst, [pid])]))
                (with_invoke_id f (\<lambda>inv. abort_pdu inv ABORT_REASON_SEGMENTATION_NOT_SUPPORTED True))
            else returnS None)
      | Some i \<Rightarrow>
          bindS (getS (\<lambda>s. (array_elements s, server_value env s ot inst pid))) (\<lambda>(supported, served).
            if \<not> supported then returnS None
            else case served of
              None \<Rightarrow> returnS None
            | Some octets \<Rightarrow>
                thenS (modifyS (log_read SERVICE_READ_PROPERTY [(ot, inst, [pid])]))
                (thenS (modifyS (\<lambda>s. s\<lparr>array_reads := array_reads s @ [(ot, inst, pid, i)]\<rparr>))
                (bindS (liftS (application_elements octets)) (\<lambda>elements.
                  if i = 0 then
                    bindS (liftS (application_unsigned (int (length elements)))) (\<lambda>v.
                      with_invoke_id f (\<lambda>inv. element_ack inv ot inst pid i v))
                  else if i \<le> int (length elements) then
                    bindS (liftS (py_nth elements (nat (i - 1)))) (\<lambda>v.
                      with_invoke_id f (\<lambda>inv. element_ack inv ot inst pid i v))
                  else with_invoke_id f (\<lambda>inv. error_pdu inv SERVICE_READ_PROPERTY ERROR_CLASS_PROPERTY
                         ERROR_CODE_INVALID_ARRAY_INDEX))))))"

definition read_multiple :: "(nat \<Rightarrow> bytes) \<Rightarrow> frame \<Rightarrow> ('a server_scheme, bytes option) action" where
  "read_multiple env f =
     bindS (liftS (read_access_specifications (drop 4 (payload f)))) (\<lambda>specifications.
     thenS (modifyS (log_read SERVICE_READ_PROPERTY_MULTIPLE
              (map (\<lambda>((ot, inst), properties). (ot, inst, properties)) specifications)))
     (bindS (getS (\<lambda>s. map (\<lambda>((ot, inst), properties).
                     (ot, inst, map (\<lambda>pid. (pid, server_value env s ot inst pid)) properties)) specifications)) (\<lambda>results.
      with_invoke_id f (\<lambda>inv. read_property_multiple_ack inv results))))"

text \<open>The slot a write commands: \<open>request["priority"] or PRIORITY_DEFAULT\<close>, so a priority of 0 counts as
  none.\<close>

definition effective_priority :: "int option \<Rightarrow> int" where
  "effective_priority p = (case p of None \<Rightarrow> PRIORITY_DEFAULT | Some v \<Rightarrow> if v = 0 then PRIORITY_DEFAULT else v)"

definition winning :: "'v option list \<Rightarrow> 'v list" where
  "winning slots = map the (filter (\<lambda>v. v \<noteq> None) slots)"

definition store_property :: "object_key \<Rightarrow> int \<Rightarrow> served_value \<Rightarrow> 'a server_scheme \<Rightarrow> 'a server_scheme" where
  "store_property key pid v s =
     s\<lparr>objects := (objects s)(key \<mapsto> (case objects s key of None \<Rightarrow> Map.empty | Some props \<Rightarrow> props)(pid \<mapsto> v))\<rparr>"

definition command_slot :: "object_key \<Rightarrow> write_request \<Rightarrow> bool \<Rightarrow> ('a server_scheme, unit) action" where
  "command_slot key request is_null =
     bindS (getS (\<lambda>s. (priority_arrays s key, relinquish_defaults s key))) (\<lambda>(arr, default).
     case arr of
       None \<Rightarrow> liftS (Inl KeyError)
     | Some slots \<Rightarrow>
         let index = nat (effective_priority (priority request) - 1) in
         if index \<ge> length slots then liftS (Inl IndexError)
         else
           let slots' = slots[index := (if is_null then None else Some (value_octets request))] in
           thenS (modifyS (\<lambda>s. s\<lparr>priority_arrays := (priority_arrays s)(key \<mapsto> slots')\<rparr>))
           (case winning slots' of
              v # _ \<Rightarrow> modifyS (store_property key (property_identifier request) (Octets v))
            | [] \<Rightarrow> (case default of
                       None \<Rightarrow> liftS (Inl KeyError)
                     | Some v \<Rightarrow> modifyS (store_property key (property_identifier request) v))))"

definition is_commanded :: "'a server_scheme \<Rightarrow> write_request \<Rightarrow> bool" where
  "is_commanded s request =
     (case commandable s of None \<Rightarrow> False
      | Some keys \<Rightarrow> (object_type request, instance_number request) \<in> keys \<and>
                     property_identifier request = PROPERTY_PRESENT_VALUE)"

text \<open>The refusal of a write of a listed object: \<open>mode\<close>, the writable properties, then the hook.\<close>

definition write_refusal :: "'a server_scheme \<Rightarrow> (int \<rightharpoonup> served_value) \<Rightarrow> write_request \<Rightarrow> (int \<times> int) option" where
  "write_refusal s props request =
     (let allowed = (case writable s of
                       None \<Rightarrow> props (property_identifier request) \<noteq> None
                     | Some ws \<Rightarrow> (object_type request, instance_number request, property_identifier request) \<in> ws) in
      if mode s = Refusing \<or> \<not> allowed then Some (ERROR_CLASS_PROPERTY, ERROR_CODE_WRITE_ACCESS_DENIED)
      else check_write request)"

definition server_write :: "frame \<Rightarrow> write_request option \<Rightarrow> ('a server_scheme, bytes option) action" where
  "server_write f req =
     (case req of
        None \<Rightarrow> returnS None
      | Some request \<Rightarrow>
          let key = (object_type request, instance_number request); pid = property_identifier request;
              acknowledge = with_invoke_id f (\<lambda>inv. simple_ack inv SERVICE_WRITE_PROPERTY) in
          bindS (liftS (application_tag (value_octets request))) (\<lambda>tag.
          bindS (getS (\<lambda>s. (s, is_commanded s request))) (\<lambda>(s, commanded).
          let is_null = (tag = Some TAG_NULL) in
          if commandable s \<noteq> None \<and> is_null \<and> \<not> commanded \<and> mode s = Online \<and> stored_property s key pid \<noteq> None
          then acknowledge
          else case objects s key of
            None \<Rightarrow> with_invoke_id f (\<lambda>inv. error_pdu inv SERVICE_WRITE_PROPERTY ERROR_CLASS_OBJECT ERROR_CODE_UNKNOWN_OBJECT)
          | Some props \<Rightarrow>
              (case write_refusal s props request of
                 Some (cls, code) \<Rightarrow> with_invoke_id f (\<lambda>inv. error_pdu inv SERVICE_WRITE_PROPERTY cls code)
               | None \<Rightarrow>
                   thenS (modifyS (store_property key pid (Octets (value_octets request))))
                   (thenS (if commanded then command_slot key request is_null else returnS ())
                   (thenS (modifyS (on_write request)) acknowledge))))))"

text \<open>The part of \<open>_answer\<close> that handles a ReadProperty.\<close>

definition server_read :: "(nat \<Rightarrow> bytes) \<Rightarrow> frame \<Rightarrow> failure option \<Rightarrow> ('a server_scheme, bytes option) action" where
  "server_read env f failed =
     bindS (liftS (parse_read_property_request_indexed (payload f))) (\<lambda>parsed.
     case parsed of
       None \<Rightarrow> device_answer f
     | Some (ot, inst, pid, index) \<Rightarrow>
         bindS (getS (\<lambda>s. objects s (ot, inst) \<noteq> None)) (\<lambda>listed.
           if \<not> listed then device_answer f
           else
             bindS (read_special env f (ot, inst, pid, index) failed) (\<lambda>special.
             case special of
               Some apdu \<Rightarrow> returnS (Some apdu)
             | None \<Rightarrow>
                 thenS (modifyS (log_read SERVICE_READ_PROPERTY [(ot, inst, [pid])]))
                 (bindS (getS (\<lambda>s. server_value env s ot inst pid)) (\<lambda>served.
                  case served of
                    None \<Rightarrow> with_invoke_id f (\<lambda>inv. error_pdu inv SERVICE_READ_PROPERTY ERROR_CLASS_PROPERTY
                              ERROR_CODE_UNKNOWN_PROPERTY)
                  | Some octets \<Rightarrow> with_invoke_id f (\<lambda>inv. read_property_ack inv ot inst pid octets))))))"

definition server_answer :: "(nat \<Rightarrow> bytes) \<Rightarrow> frame \<Rightarrow> ('a server_scheme, bytes option) action" where
  "server_answer env f =
     (let confirmed = (pdu_type f = Some PDU_CONFIRMED_REQUEST) in
      bindS (liftS (if confirmed then service f else Inr None)) (\<lambda>srv.
      bindS (getS (\<lambda>s. (mode s, failures s))) (\<lambda>(m, fails).
      bindS (if confirmed \<and> m = Online \<and> fails \<noteq> []
             then bindS (liftS (requested_object f)) (\<lambda>obj.
                    returnS (case obj of None \<Rightarrow> None | Some key \<Rightarrow> map_of fails key))
             else returnS None) (\<lambda>failed.
      if failed = Some RejectFailure then
        with_invoke_id f (\<lambda>inv. reject_pdu inv REJECT_REASON_UNRECOGNIZED_SERVICE)
      else if failed = Some AbortFailure then
        with_invoke_id f (\<lambda>inv. abort_pdu inv ABORT_REASON_SEGMENTATION_NOT_SUPPORTED True)
      else if failed = Some SilentFailure then
        thenS (modifyS (\<lambda>s. s\<lparr>silent_requests := silent_requests s + 1\<rparr>)) (returnS None)
      else
        bindS (if srv = Some SERVICE_WRITE_PROPERTY then liftS (parse_write_property_request (payload f))
               else returnS None) (\<lambda>request.
        thenS (modifyS (\<lambda>s. case request of None \<Rightarrow> s | Some w \<Rightarrow> s\<lparr>write_requests := write_requests s @ [w]\<rparr>))
        (if m = Offline then
           thenS (modifyS (\<lambda>s. if srv \<in> Some ` {SERVICE_READ_PROPERTY, SERVICE_READ_PROPERTY_MULTIPLE, SERVICE_WRITE_PROPERTY}
                                then s\<lparr>requests_while_offline := requests_while_offline s + 1\<rparr> else s))
             (returnS None)
         else if srv = Some SERVICE_WRITE_PROPERTY then server_write f request
         else if srv = Some SERVICE_READ_PROPERTY_MULTIPLE then read_multiple env f
         else if srv = Some SERVICE_READ_PROPERTY then server_read env f failed
         else device_answer f))))))"

end
