(* ===== verification/Peer_Laws.thy ===== *)
theory Peer_Laws
  imports Peer_Server
begin

unbundle bit_operations_syntax

text \<open>
  What \<open>SimulatedServer\<close> promises. First the frame conditions: the thread's bookkeeping is left alone (the
  interpretation of \<open>answering_device\<close>), and only a WriteProperty touches the served data. Then the behaviour
  of each service on each branch, and the invariant of the commandable objects: sixteen slots each, and a
  Present_Value that is the highest-priority value or the Relinquish_Default.
\<close>

section \<open>Frame conditions\<close>

lemma keeps_with_invoke_id [simp]: "keeps p (with_invoke_id f build)"
  by (simp add: with_invoke_id_def)

lemma keeps_device_answer [simp]: "keeps p (device_answer f)"
  by (simp add: keeps_def device_answer_keeps_state)

lemma keeps_if: "(c \<Longrightarrow> keeps p m) \<Longrightarrow> (\<not> c \<Longrightarrow> keeps p n) \<Longrightarrow> keeps p (if c then m else n)"
  by simp

lemma keeps_option: "keeps p n \<Longrightarrow> (\<And>x. keeps p (m x)) \<Longrightarrow> keeps p (case v of None \<Rightarrow> n | Some x \<Rightarrow> m x)"
  by (cases v) auto

lemma keeps_prod: "(\<And>x y. keeps p (m x y)) \<Longrightarrow> keeps p (case v of (x, y) \<Rightarrow> m x y)"
  by (cases v) auto

lemma keeps_list: "keeps p n \<Longrightarrow> (\<And>x xs. keeps p (m x xs)) \<Longrightarrow> keeps p (case v of [] \<Rightarrow> n | x # xs \<Rightarrow> m x xs)"
  by (cases v) auto

lemmas keeps_rules = keeps_return keeps_lift keeps_get keeps_with_invoke_id keeps_device_answer
  keeps_bind keeps_if keeps_option keeps_prod keeps_list

text \<open>The data a server serves, and everything a test configures.\<close>

definition served_data where
  "served_data s = (objects s, priority_arrays s, relinquish_defaults s, commandable s, writable s)"

lemma served_data_log [simp]:
  "served_data (log_read srv specs s) = served_data s"
  "kept_frames (log_read srv specs s) = kept_frames s"
  by (simp_all add: served_data_def log_read_def kept_frames_def)

lemma read_special_keeps:
  assumes "\<And>srv specs s. p (log_read srv specs s) = p s" and "\<And>s r. p (s\<lparr>array_reads := r\<rparr>) = p s"
  shows "keeps p (read_special env f parsed failed)"
  unfolding read_special_def by (intro keeps_rules keeps_modify assms)

lemma read_multiple_keeps:
  assumes "\<And>srv specs s. p (log_read srv specs s) = p s"
  shows "keeps p (read_multiple env f)"
  unfolding read_multiple_def by (intro keeps_rules keeps_modify assms)

lemma server_read_keeps:
  assumes "\<And>srv specs s. p (log_read srv specs s) = p s" and "\<And>s r. p (s\<lparr>array_reads := r\<rparr>) = p s"
  shows "keeps p (server_read env f failed)"
  unfolding server_read_def by (intro keeps_rules keeps_modify assms read_special_keeps)

lemma command_slot_keeps:
  assumes "\<And>key pid v s. p (store_property key pid v s) = p s" and "\<And>s r. p (s\<lparr>priority_arrays := r\<rparr>) = p s"
  shows "keeps p (command_slot key request is_null)"
  unfolding command_slot_def Let_def by (intro keeps_rules keeps_modify assms)

lemma server_write_keeps:
  assumes "\<And>key pid v s. p (store_property key pid v s) = p s" and "\<And>s r. p (s\<lparr>priority_arrays := r\<rparr>) = p s"
  shows "keeps p (server_write f req)"
  unfolding server_write_def Let_def on_write_def
  by (intro keeps_rules keeps_modify assms command_slot_keeps refl)

lemma server_answer_keeps_frames: "keeps kept_frames (server_answer env f)"
  unfolding server_answer_def Let_def
  by (intro keeps_rules keeps_modify server_read_keeps read_multiple_keeps server_write_keeps)
    (auto simp: kept_frames_def log_read_def store_property_def split: option.split)

interpretation srv: answering_device "server_answer env" for env
  by unfold_locales (rule server_answer_keeps_frames)

text \<open>Everything but a confirmed WriteProperty keeps the served data.\<close>

lemma server_answer_keeps_data:
  assumes "pdu_type f \<noteq> Some PDU_CONFIRMED_REQUEST \<or> service f \<noteq> Inr (Some SERVICE_WRITE_PROPERTY)"
  shows "served_data (snd (server_answer env f s)) = served_data s"
proof (cases "if pdu_type f = Some PDU_CONFIRMED_REQUEST then service f else Inr None")
  case (Inl e)
  then show ?thesis
    by (simp add: server_answer_def Let_def)
next
  case (Inr srv)
  then have no_write: "srv \<noteq> Some SERVICE_WRITE_PROPERTY"
    using assms by (auto split: if_splits)
  have "keeps served_data (server_answer env f)"
    unfolding server_answer_def Let_def Inr
    by (simp only: keeps_def bindS_liftS) (unfold keeps_def [symmetric],
      intro keeps_rules keeps_modify server_read_keeps read_multiple_keeps;
      simp add: no_write served_data_def log_read_def split: option.split)
  then show ?thesis
    by (rule keepsD)
qed

section \<open>Confirmed requests\<close>

text \<open>A frame that carries a confirmed request with this invoke id and service.\<close>

definition confirmed_frame :: "frame \<Rightarrow> int \<Rightarrow> int \<Rightarrow> bytes \<Rightarrow> bool" where
  "confirmed_frame f i srv parameters \<longleftrightarrow>
     is_octet i \<and> is_octet srv \<and> network_message f = None \<and>
     payload f = [0, 5, word_of_int i, word_of_int srv] @ parameters"

lemma confirmed_frame_fields:
  assumes "confirmed_frame f i srv parameters"
  shows "pdu_type f = Some PDU_CONFIRMED_REQUEST" and "service f = Inr (Some srv)" and "invoke_id f = Inr (Some i)"
proof -
  show type: "pdu_type f = Some PDU_CONFIRMED_REQUEST"
    using assms by (simp add: confirmed_frame_def pdu_type_def)
  show "service f = Inr (Some srv)" and "invoke_id f = Inr (Some i)"
    using assms by (auto simp: service_def invoke_id_def type confirmed_frame_def uint_octet_small)
qed

lemma with_invoke_id_ok:
  "confirmed_frame f i srv parameters \<Longrightarrow> build i = Inr apdu \<Longrightarrow> with_invoke_id f build s = (Inr (Some apdu), s)"
  using confirmed_frame_fields(3) by (simp add: with_invoke_id_def)

lemma simple_ack_ok: "is_octet i \<Longrightarrow> is_octet srv \<Longrightarrow> simple_ack i srv = Inr [0x20, word_of_int i, word_of_int srv]"
  by (simp add: simple_ack_def bytes_of_def is_octet_def push_bit_eq_mult)

section \<open>WriteProperty\<close>

text \<open>The clause 19.2.1 case: a NULL written to a listed property that is not commanded.\<close>

definition null_ignored :: "'a server_scheme \<Rightarrow> write_request \<Rightarrow> int option \<Rightarrow> bool" where
  "null_ignored s w tag \<longleftrightarrow> commandable s \<noteq> None \<and> tag = Some TAG_NULL \<and> \<not> is_commanded s w \<and> mode s = Online \<and>
     stored_property s (object_type w, instance_number w) (property_identifier w) \<noteq> None"

abbreviation write_key :: "write_request \<Rightarrow> object_key" where
  "write_key w \<equiv> (object_type w, instance_number w)"

lemma server_write_cases:
  assumes "application_tag (value_octets w) = Inr tag"
  shows "server_write f (Some w) s =
     (let ack = with_invoke_id f (\<lambda>inv. simple_ack inv SERVICE_WRITE_PROPERTY) in
      if null_ignored s w tag then ack s
      else case objects s (write_key w) of
        None \<Rightarrow> with_invoke_id f (\<lambda>inv. error_pdu inv SERVICE_WRITE_PROPERTY ERROR_CLASS_OBJECT ERROR_CODE_UNKNOWN_OBJECT) s
      | Some props \<Rightarrow>
          (case write_refusal s props w of
             Some (cls, code) \<Rightarrow> with_invoke_id f (\<lambda>inv. error_pdu inv SERVICE_WRITE_PROPERTY cls code) s
           | None \<Rightarrow>
               let s' = store_property (write_key w) (property_identifier w) (Octets (value_octets w)) s in
               if is_commanded s w then bindS (command_slot (write_key w) w (tag = Some TAG_NULL)) (\<lambda>_. ack) s' else ack s'))"
  using assms
  by (auto simp: server_write_def null_ignored_def Let_def on_write_def bindS_def split: option.split prod.split sum.split)

subsection \<open>The priority array\<close>

definition commanded_value :: "served_value \<Rightarrow> bytes option list \<Rightarrow> served_value" where
  "commanded_value dflt slots = (case winning slots of v # _ \<Rightarrow> Octets v | [] \<Rightarrow> dflt)"

text \<open>What commanding a slot leaves.\<close>

definition commanded_state :: "object_key \<Rightarrow> write_request \<Rightarrow> bool \<Rightarrow> bytes option list \<Rightarrow> served_value \<Rightarrow>
    'a server_scheme \<Rightarrow> 'a server_scheme" where
  "commanded_state key w is_null slots dflt s =
     (let slots' = slots[nat (effective_priority (priority w) - 1) := (if is_null then None else Some (value_octets w))] in
      store_property key (property_identifier w) (commanded_value dflt slots')
        (s\<lparr>priority_arrays := (priority_arrays s)(key \<mapsto> slots')\<rparr>))"

lemma command_slot_ok:
  assumes "priority_arrays s key = Some slots" and "relinquish_defaults s key = Some dflt"
    and "nat (effective_priority (priority w) - 1) < length slots"
  shows "command_slot key w is_null s = (Inr (), commanded_state key w is_null slots dflt s)"
  using assms
  by (auto simp: command_slot_def commanded_state_def commanded_value_def Let_def split: list.split)

lemma command_slot_beyond:
  assumes "priority_arrays s key = Some slots" and "length slots \<le> nat (effective_priority (priority w) - 1)"
  shows "command_slot key w is_null s = (Inl IndexError, s)"
  using assms by (simp add: command_slot_def Let_def)

lemma store_property_simps [simp]:
  "priority_arrays (store_property key pid v s) = priority_arrays s"
  "relinquish_defaults (store_property key pid v s) = relinquish_defaults s"
  "commandable (store_property key pid v s) = commandable s"
  "writable (store_property key pid v s) = writable s"
  "mode (store_property key pid v s) = mode s"
  "write_requests (store_property key pid v s) = write_requests s"
  by (simp_all add: store_property_def)

lemma stored_property_store:
  "stored_property (store_property key pid v s) key' pid' =
     (if key' = key \<and> pid' = pid then Some v else stored_property s key' pid')"
  by (auto simp: stored_property_def store_property_def split: option.split)

lemma stored_property_arrays [simp]: "stored_property (s\<lparr>priority_arrays := a\<rparr>) = stored_property s"
  by (simp add: stored_property_def fun_eq_iff)

lemma commanded_state_simps [simp]:
  "relinquish_defaults (commanded_state key w n slots d s) = relinquish_defaults s"
  "commandable (commanded_state key w n slots d s) = commandable s"
  "writable (commanded_state key w n slots d s) = writable s"
  "mode (commanded_state key w n slots d s) = mode s"
  by (simp_all add: commanded_state_def Let_def)

subsection \<open>The invariant of the commandable objects\<close>

definition object_inv :: "'a server_scheme \<Rightarrow> object_key \<Rightarrow> bool" where
  "object_inv s key =
     (case (priority_arrays s key, relinquish_defaults s key) of
        (Some slots, Some d) \<Rightarrow> length slots = 16 \<and> stored_property s key PROPERTY_PRESENT_VALUE = Some (commanded_value d slots)
      | _ \<Rightarrow> False)"

definition server_inv :: "'a server_scheme \<Rightarrow> bool" where
  "server_inv s = (case commandable s of None \<Rightarrow> True | Some keys \<Rightarrow> \<forall>key \<in> keys. object_inv s key)"

lemma server_inv_served_data: "served_data s = served_data s' \<Longrightarrow> server_inv s = server_inv s'"
  by (simp add: served_data_def server_inv_def object_inv_def stored_property_def split: option.split)

lemma object_invE:
  assumes "object_inv s key"
  obtains slots d where "priority_arrays s key = Some slots" and "relinquish_defaults s key = Some d"
    and "length slots = 16" and "stored_property s key PROPERTY_PRESENT_VALUE = Some (commanded_value d slots)"
  using assms by (auto simp: object_inv_def split: option.splits)

lemma object_inv_store:
  "object_inv s key \<Longrightarrow> key \<noteq> key' \<or> pid \<noteq> PROPERTY_PRESENT_VALUE \<Longrightarrow> object_inv (store_property key' pid v s) key"
  by (auto simp: object_inv_def stored_property_store split: option.splits)

lemma object_inv_commanded:
  assumes "priority_arrays s key = Some slots" and "relinquish_defaults s key = Some d" and "length slots = 16"
    and "property_identifier w = PROPERTY_PRESENT_VALUE"
  shows "object_inv (commanded_state key w n slots d s) key"
  using assms by (simp add: object_inv_def commanded_state_def Let_def stored_property_store)

lemma object_inv_commanded_other:
  assumes "object_inv s key" and "key \<noteq> key'"
  shows "object_inv (commanded_state key' w n slots d s) key"
  using assms
  by (auto simp: object_inv_def commanded_state_def Let_def stored_property_store split: option.splits)

text \<open>Actions that keep the invariant whenever they return.\<close>

definition keeps_inv :: "('a server_scheme, 'b) action \<Rightarrow> bool" where
  "keeps_inv m \<longleftrightarrow> (\<forall>s r s'. server_inv s \<longrightarrow> m s = (Inr r, s') \<longrightarrow> server_inv s')"

lemma keeps_inv_data: "keeps served_data m \<Longrightarrow> keeps_inv m"
  unfolding keeps_inv_def keeps_def by (metis server_inv_served_data snd_conv)

lemma keeps_inv_bind: "keeps_inv m \<Longrightarrow> (\<And>x. keeps_inv (f x)) \<Longrightarrow> keeps_inv (bindS m f)"
proof (unfold keeps_inv_def, intro allI impI)
  fix s r s'
  assume m: "\<forall>s r s'. server_inv s \<longrightarrow> m s = (Inr r, s') \<longrightarrow> server_inv s'"
    and f: "\<And>x. \<forall>s r s'. server_inv s \<longrightarrow> f x s = (Inr r, s') \<longrightarrow> server_inv s'"
    and s: "server_inv s" and b: "bindS m f s = (Inr r, s')"
  obtain x t where "m s = (Inr x, t)" and "f x t = (Inr r, s')"
    using b by (auto simp: bindS_def split: prod.splits sum.splits)
  then show "server_inv s'"
    using m f s by blast
qed

lemma keeps_inv_if: "(c \<Longrightarrow> keeps_inv m) \<Longrightarrow> (\<not> c \<Longrightarrow> keeps_inv n) \<Longrightarrow> keeps_inv (if c then m else n)"
  by simp

lemma keeps_inv_prod: "(\<And>x y. keeps_inv (m x y)) \<Longrightarrow> keeps_inv (case v of (x, y) \<Rightarrow> m x y)"
  by (cases v) auto

lemma server_inv_store:
  assumes "server_inv s" and "\<And>keys. commandable s = Some keys \<Longrightarrow> key \<notin> keys \<or> pid \<noteq> PROPERTY_PRESENT_VALUE"
  shows "server_inv (store_property key pid v s)"
  using assms unfolding server_inv_def by (auto split: option.splits intro!: object_inv_store simp del: split_paired_All split_paired_Ex)

lemma server_inv_commanded:
  assumes "server_inv s" and "is_commanded s w" and "priority_arrays s (write_key w) = Some slots"
    and "relinquish_defaults s (write_key w) = Some d"
  shows "server_inv (commanded_state (write_key w) w n slots d (store_property (write_key w) (property_identifier w) v s))"
proof -
  let ?key = "write_key w" and ?s = "store_property (write_key w) (property_identifier w) v s"
  obtain keys where keys: "commandable s = Some keys" "?key \<in> keys" and pid: "property_identifier w = PROPERTY_PRESENT_VALUE"
    using assms(2) by (auto simp: is_commanded_def split: option.splits)
  have inv: "object_inv s key" if "key \<in> keys" for key
    using assms(1) keys(1) that by (simp add: server_inv_def)
  have "length slots = 16"
    using inv [OF keys(2)] assms(3) by (auto elim: object_invE)
  then have "object_inv (commanded_state ?key w n slots d ?s) key" if "key \<in> keys" for key
    using object_inv_commanded [of ?s ?key slots d w n] object_inv_commanded_other [of ?s key ?key w n slots d]
      object_inv_store [OF inv [OF that], of ?key "property_identifier w" v] assms(3,4) pid
    by (cases "key = ?key") auto
  then show ?thesis
    using keys(1) by (simp add: server_inv_def)
qed

lemma keeps_inv_write: "keeps_inv (server_write f req)"
proof (unfold keeps_inv_def, intro allI impI)
  fix s :: "'a server_scheme" and r s'
  assume inv: "server_inv s" and w: "server_write f req s = (Inr r, s')"
  show "server_inv s'"
  proof (cases req)
    case None
    then show ?thesis
      using inv w by (simp add: server_write_def)
  next
    case (Some request)
    obtain tag where tag: "application_tag (value_octets request) = Inr tag"
      using w by (cases "application_tag (value_octets request)") (auto simp: Some server_write_def Let_def)
    have same: "t = u" if "with_invoke_id f build u = (Inr r, t)" for build and t u :: "'a server_scheme"
      using that by (simp add: with_invoke_id_def)
    let ?s = "store_property (write_key request) (property_identifier request) (Octets (value_octets request)) s"
    let ?ack = "with_invoke_id f (\<lambda>i. simple_ack i SERVICE_WRITE_PROPERTY)"
    consider "s' = s" | "\<not> is_commanded s request" "s' = ?s"
      | "is_commanded s request" "bindS (command_slot (write_key request) request (tag = Some TAG_NULL)) (\<lambda>_. ?ack) ?s = (Inr r, s')"
      using w unfolding Some server_write_cases [OF tag] Let_def
      by (auto split: if_splits option.splits dest: same)
    then show ?thesis
    proof cases
      case 1
      then show ?thesis using inv by simp
    next
      case 2
      then show ?thesis
        using inv by (auto intro!: server_inv_store simp: is_commanded_def)
    next
      case 3
      then have "object_inv s (write_key request)"
        using inv by (auto simp: is_commanded_def server_inv_def split: option.splits)
      then obtain slots d where arr: "priority_arrays s (write_key request) = Some slots" "relinquish_defaults s (write_key request) = Some d"
        by (rule object_invE)
      show ?thesis
      proof (cases "nat (effective_priority (priority request) - 1) < length slots")
        case True
        then have "command_slot (write_key request) request (tag = Some TAG_NULL) ?s =
            (Inr (), commanded_state (write_key request) request (tag = Some TAG_NULL) slots d ?s)"
          using arr by (intro command_slot_ok) auto
        then have "s' = commanded_state (write_key request) request (tag = Some TAG_NULL) slots d ?s"
          using 3(2) by (auto simp: bindS_def dest: same)
        then show ?thesis
          using server_inv_commanded [OF inv 3(1) arr] by simp
      next
        case False
        then have "command_slot (write_key request) request (tag = Some TAG_NULL) ?s = (Inl IndexError, ?s)"
          using arr by (intro command_slot_beyond) auto
        then show ?thesis
          using 3(2) by (simp add: bindS_def)
      qed
    qed
  qed
qed

lemma server_answer_keeps_inv: "keeps_inv (server_answer env f)"
  unfolding server_answer_def Let_def
  by (intro keeps_inv_bind keeps_inv_if keeps_inv_prod keeps_inv_write;
      rule keeps_inv_data; intro keeps_rules keeps_modify server_read_keeps read_multiple_keeps;
      simp add: served_data_def log_read_def split: option.split)

lemma SimulatedServer_inv:
  assumes "SimulatedServer inst name vendor objs writes commands elements = Inr s"
  shows "server_inv s"
proof (cases commands)
  case None
  then show ?thesis
    using assms by (auto simp: SimulatedServer_def Let_def server_inv_def)
next
  case (Some keys)
  have "object_inv s key" if key: "key \<in> set keys" for key
  proof -
    obtain props v where "objs key = Some props" and "props PROPERTY_PRESENT_VALUE = Some v"
      using assms Some key
      by (fastforce simp: SimulatedServer_def Let_def list_all_iff split: if_splits option.splits)
    then show ?thesis
      using assms Some key
      by (auto simp: SimulatedServer_def Let_def object_inv_def stored_property_def commanded_value_def winning_def
          split: if_splits)
  qed
  moreover have "commandable s = Some (set keys)"
    using assms Some by (auto simp: SimulatedServer_def Let_def split: if_splits)
  ultimately show ?thesis
    by (simp add: server_inv_def)
qed

section \<open>Runs of the thread\<close>

lemma server_inv_keep_frame: "server_inv (keep_frame b f s) = server_inv s"
  by (rule server_inv_served_data) (simp add: served_data_def keep_frame_def)

lemma serve_keeps_inv:
  assumes "server_inv s" and "serve (server_answer env) dg s = (Inr out, t)"
  shows "server_inv t"
proof -
  obtain data src bc where dg: "dg = (data, src, bc)"
    by (cases dg)
  obtain f where f: "Frame data src = Inr f"
    using assms(2) by (cases "Frame data src") (auto simp: serve_def dg)
  let ?s = "keep_frame bc f s"
  have inv: "server_inv ?s"
    using assms(1) by (simp add: server_inv_keep_frame)
  show ?thesis
  proof (cases "ok f \<and> network_message f = None")
    case False
    then show ?thesis
      using assms(2) inv srv.serve_ignores [OF f, of env bc s] by (auto simp: dg)
  next
    case True
    then obtain r where "server_answer env f ?s = (Inr r, t)"
      using assms(2) by (auto simp: serve_def dg f bindS_def split: prod.splits sum.splits option.splits)
    then show ?thesis
      using server_answer_keeps_inv [of env f] inv unfolding keeps_inv_def by blast
  qed
qed

lemma serve_all_keeps_inv:
  assumes "server_inv s" and "serve_all (server_answer env) ds s = (outs, None, t)"
  shows "server_inv t"
  using assms
proof (induction ds arbitrary: s outs)
  case Nil
  then show ?case by simp
next
  case (Cons dg ds)
  then obtain out s1 where s1: "serve (server_answer env) dg s = (Inr out, s1)"
    by (auto split: prod.splits sum.splits)
  then obtain outs' where "serve_all (server_answer env) ds s1 = (outs', None, t)"
    using Cons.prems(2) by (auto split: prod.splits)
  then show ?case
    using Cons.IH serve_keeps_inv [OF Cons.prems(1) s1] by blast
qed

end
