(* ===== verification/Endpoint.thy ===== *)
theory Endpoint
  imports Codec_Frame Py_State
begin

text \<open>
  \<open>class Endpoint\<close> of \<open>wiretest/endpoint.py\<close>: a socket that sends frames and keeps every reply. The network is
  the argument \<open>arrivals\<close>: what \<open>recvfrom\<close> delivers, in order, before the deadline of the wait. An event is a
  datagram or the \<open>ConnectionResetError\<close> Windows reports; when the list is used up the next receive times
  out. A wait therefore always ends, and the clock does not appear.
\<close>

datatype arrival = Datagram bytes address | ConnectionReset

text \<open>What a process has put out: the datagrams sent through its socket and the invoke ids of its \<open>[RETRY]\<close> lines.
  Endpoints and workstations both extend it.\<close>

record outputs =
  sent :: "(bytes \<times> address) list"
  retry_lines :: "int list"

record endpoint = outputs +
  frames :: "frame list"

text \<open>The constructor, and \<open>broadcast_listener\<close>, which only binds the socket differently.\<close>

definition Endpoint :: endpoint where
  "Endpoint = \<lparr>sent = [], retry_lines = [], frames = []\<rparr>"

section \<open>Operations\<close>

definition send :: "bytes \<Rightarrow> address \<Rightarrow> ('a outputs_scheme, unit) action" where
  "send octets dst = modifyS (\<lambda>e. e\<lparr>sent := sent e @ [(octets, dst)]\<rparr>)"

text \<open>\<open>_receive\<close> of one event; the timeout is the end of the list, handled by the callers.\<close>

definition receive :: "arrival \<Rightarrow> ('a endpoint_scheme, unit) action" where
  "receive a =
     (case a of
        ConnectionReset \<Rightarrow> returnS ()
      | Datagram data src \<Rightarrow> bindS (liftS (Frame data src)) (\<lambda>f. modifyS (\<lambda>e. e\<lparr>frames := frames e @ [f]\<rparr>)))"

fun collect :: "arrival list \<Rightarrow> ('a endpoint_scheme, frame list) action" where
  "collect [] = getS frames"
| "collect (a # arrivals) = thenS (receive a) (collect arrivals)"

definition clear :: "arrival list \<Rightarrow> ('a endpoint_scheme, unit) action" where
  "clear arrivals = thenS (bindS (collect arrivals) (\<lambda>_. returnS ())) (modifyS (\<lambda>e. e\<lparr>frames := []\<rparr>))"

text \<open>The scan of the frames not yet seen: \<open>frame.ok and predicate(frame)\<close>.\<close>

fun first_match :: "(frame \<Rightarrow> bool result) \<Rightarrow> frame list \<Rightarrow> frame option result" where
  "first_match predicate [] = Inr None"
| "first_match predicate (f # fs) =
     (if ok f then bindR (predicate f) (\<lambda>hit. if hit then Inr (Some f) else first_match predicate fs)
      else first_match predicate fs)"

fun wait_loop :: "(frame \<Rightarrow> bool result) \<Rightarrow> nat \<Rightarrow> arrival list \<Rightarrow> ('a endpoint_scheme, frame option) action" where
  "wait_loop predicate seen arrivals e =
     (case first_match predicate (drop seen (frames e)) of
        Inl x \<Rightarrow> (Inl x, e)
      | Inr (Some f) \<Rightarrow> (Inr (Some f), e)
      | Inr None \<Rightarrow>
          (case arrivals of
             [] \<Rightarrow> (Inr None, e)
           | a # rest \<Rightarrow> bindS (receive a) (\<lambda>_. wait_loop predicate (length (frames e)) rest) e))"

declare wait_loop.simps [simp del]

definition wait_for :: "(frame \<Rightarrow> bool result) \<Rightarrow> arrival list \<Rightarrow> ('a endpoint_scheme, frame option) action" where
  "wait_for predicate arrivals = wait_loop predicate 0 arrivals"

section \<open>Laws\<close>

lemma first_match_Some:
  "first_match predicate fs = Inr (Some f) \<Longrightarrow> f \<in> set fs \<and> ok f \<and> predicate f = Inr True"
  by (induction fs) (auto simp: bindR_Inr_iff split: if_splits)

lemma first_match_None:
  "first_match predicate fs = Inr None \<longleftrightarrow> (\<forall>f \<in> set fs. ok f \<longrightarrow> predicate f = Inr False)"
  by (induction fs) (auto simp: bindR_Inr_iff split: if_splits)

lemma first_match_append:
  "first_match predicate fs = Inr None \<Longrightarrow> first_match predicate (fs @ gs) = first_match predicate gs"
  by (induction fs) (auto simp: bindR_Inr_iff split: if_splits)

lemma first_match_prefix:
  "first_match predicate fs \<noteq> Inr None \<Longrightarrow> first_match predicate (fs @ gs) = first_match predicate fs"
proof (induction fs)
  case (Cons f fs)
  then show ?case
    by (cases "predicate f") (simp_all split: if_splits)
qed simp

lemma receive_sent: "keeps sent (receive a)"
  unfolding receive_def by (cases a) (auto intro!: keeps_bind keeps_modify)

lemma wait_loop_sent: "sent (snd (wait_loop predicate seen arrivals e)) = sent e"
proof (induction arrivals arbitrary: seen e)
  case Nil
  show ?case
    by (subst wait_loop.simps) (auto split: sum.split option.split)
next
  case (Cons a arrivals)
  have "sent (snd (bindS (receive a) (\<lambda>_. wait_loop predicate n arrivals) e)) = sent e" for n
    using keepsD [OF receive_sent, of a e] Cons.IH
    by (auto simp: bindS_def split: prod.split sum.split)
  then show ?case
    by (subst wait_loop.simps) (auto split: sum.split option.split)
qed

text \<open>A frame that a wait returns decoded and satisfies the predicate, and is among the frames kept.\<close>

lemma wait_loop_sound:
  "wait_loop predicate seen arrivals e = (Inr (Some f), e') \<Longrightarrow> ok f \<and> predicate f = Inr True \<and> f \<in> set (frames e')"
proof (induction arrivals arbitrary: seen e)
  case Nil
  then show ?case
    by (subst (asm) wait_loop.simps)
      (auto split: sum.splits option.splits dest!: first_match_Some in_set_dropD)
next
  case (Cons a arrivals)
  from Cons.prems show ?case
    by (subst (asm) wait_loop.simps)
      (auto simp: bindS_def split: sum.splits option.splits prod.splits dest!: first_match_Some in_set_dropD Cons.IH)
qed

text \<open>The wait over datagrams that decode: the first frame that matches, if any. \<open>decoded\<close> lists the frames of
  the arrivals.\<close>

fun decoded :: "arrival list \<Rightarrow> frame list result" where
  "decoded [] = Inr []"
| "decoded (ConnectionReset # as) = decoded as"
| "decoded (Datagram data src # as) = bindR (Frame data src) (\<lambda>f. bindR (decoded as) (\<lambda>fs. Inr (f # fs)))"

lemma wait_loop_complete:
  assumes "decoded arrivals = Inr fs" and "first_match predicate (drop seen (frames e) @ fs) = Inr r"
  shows "\<exists>e'. wait_loop predicate seen arrivals e = (Inr r, e')"
  using assms
proof (induction arrivals arbitrary: seen e fs)
  case Nil
  then show ?case
    by (cases r) (simp_all add: wait_loop.simps [of predicate seen "[]" e])
next
  case (Cons a arrivals)
  show ?case
  proof (cases "first_match predicate (drop seen (frames e))")
    case (Inl x)
    then show ?thesis
      using Cons.prems(2) first_match_prefix [of predicate "drop seen (frames e)" fs] by simp
  next
    case (Inr hit)
    show ?thesis
    proof (cases hit)
      case (Some f)
      then have "r = Some f"
        using Cons.prems(2) Inr first_match_prefix [of predicate "drop seen (frames e)" fs] by simp
      then show ?thesis
        using Inr Some by (subst wait_loop.simps) simp
    next
      case None
      then have rest: "first_match predicate fs = Inr r"
        using Cons.prems(2) Inr first_match_append [of predicate "drop seen (frames e)" fs] by simp
      have step: "wait_loop predicate seen (a # arrivals) e =
          bindS (receive a) (\<lambda>_. wait_loop predicate (length (frames e)) arrivals) e"
        using Inr None by (subst wait_loop.simps) simp
      show ?thesis
      proof (cases a)
        case ConnectionReset
        then show ?thesis
          using Cons.IH [of fs "length (frames e)" e] Cons.prems(1) rest unfolding step by (simp add: receive_def)
      next
        case (Datagram data src)
        then obtain f fs' where f: "Frame data src = Inr f" "decoded arrivals = Inr fs'" "fs = f # fs'"
          using Cons.prems(1) by (auto simp: bindR_Inr_iff)
        let ?e = "e\<lparr>frames := frames e @ [f]\<rparr>"
        have "first_match predicate (drop (length (frames e)) (frames ?e) @ fs') = Inr r"
          using rest f(3) by simp
        then show ?thesis
          using Cons.IH [OF f(2), of "length (frames e)" ?e] f(1) unfolding step
          by (simp add: receive_def Datagram bindS_def)
      qed
    qed
  qed
qed

text \<open>A wait that finds nothing has kept every frame that arrived.\<close>

lemma wait_loop_keeps_all:
  assumes "decoded arrivals = Inr fs" and "wait_loop predicate seen arrivals e = (Inr None, e')"
  shows "frames e' = frames e @ fs"
  using assms
proof (induction arrivals arbitrary: seen e fs)
  case Nil
  then show ?case
    by (auto simp: wait_loop.simps [of predicate seen "[]" e] split: sum.splits option.splits)
next
  case (Cons a arrivals)
  have step: "bindS (receive a) (\<lambda>_. wait_loop predicate (length (frames e)) arrivals) e = (Inr None, e')"
    using Cons.prems(2) by (simp add: wait_loop.simps [of predicate seen "a # arrivals" e] split: sum.splits option.splits)
  show ?case
  proof (cases a)
    case ConnectionReset
    then show ?thesis
      using Cons.IH [of fs "length (frames e)" e] Cons.prems(1) step by (simp add: receive_def)
  next
    case (Datagram data src)
    then obtain f fs' where f: "Frame data src = Inr f" "decoded arrivals = Inr fs'" "fs = f # fs'"
      using Cons.prems(1) by (auto simp: bindR_Inr_iff)
    then show ?thesis
      using Cons.IH [OF f(2), of "length (frames e)" "e\<lparr>frames := frames e @ [f]\<rparr>"] step
      by (simp add: receive_def Datagram bindS_def)
  qed
qed

end
