(* ===== verification/Scan_Loops.thy ===== *)
theory Scan_Loops
  imports Codec_Frame
begin

text \<open>
  The loops that \<open>wiretest/services.py\<close> and \<open>wiretest/alarm.py\<close> add to those of the codec:
  \<^item> \<open>scan_to\<close> is \<open>while position < len(data)\<close> whose body may move the position past the tag it
    read, over constructed data; \<open>scan_to_loop\<close> gives back the plain loop for every body that only
    moves forwards;
  \<^item> \<open>constructed_end_loop\<close> and \<open>constructed_body_loop\<close> are the two loops of the source that find the
    closing tag of constructed data; both are the codec's \<open>close_loop\<close>.
  The insertion-ordered dicts these decoders build are association lists.
\<close>

type_synonym answer = "frame option"

section \<open>A loop that moves its position\<close>

function scan_to :: "(tag \<Rightarrow> 's \<Rightarrow> ('s \<times> nat) result) \<Rightarrow> bytes \<Rightarrow> nat \<Rightarrow> 's \<Rightarrow> 's result" where
  "scan_to body data position s =
     (if position < length data then
        bindR (read_tag data position) (\<lambda>t.
        bindR (body t s) (\<lambda>(s', after).
        scan_to body data (max after (next_position t)) s'))
      else Inr s)"
  by pat_completeness auto
termination
  by (relation "measure (\<lambda>(body, data, position, s). length data - position)")
    (auto dest!: read_tag_progress)

declare scan_to.simps [simp del]

text \<open>A body that only moves forwards; for such a body the loop is the loop of the source.\<close>

definition advances :: "(tag \<Rightarrow> 's \<Rightarrow> ('s \<times> nat) result) \<Rightarrow> bool" where
  "advances body \<longleftrightarrow> (\<forall>t s s' after. body t s = Inr (s', after) \<longrightarrow> next_position t \<le> after)"

lemma advancesD: "advances body \<Longrightarrow> body t s = Inr (s', after) \<Longrightarrow> next_position t \<le> after"
  unfolding advances_def by blast

lemma scan_to_loop:
  assumes "advances body"
  shows "scan_to body data position s =
     (if position < length data then
        bindR (read_tag data position) (\<lambda>t. bindR (body t s) (\<lambda>(s', after). scan_to body data after s'))
      else Inr s)"
proof -
  have "bindR (body t s) (\<lambda>(s', after). scan_to body data (max after (next_position t)) s') =
      bindR (body t s) (\<lambda>(s', after). scan_to body data after s')" for t
    by (cases "body t s") (auto simp: max_absorb1 dest: advancesD [OF assms])
  then show ?thesis
    by (subst scan_to.simps) simp
qed

lemma scan_to_end: "length data \<le> p \<Longrightarrow> scan_to body data p s = Inr s"
  by (subst scan_to.simps) simp

lemma scan_to_step:
  assumes "encodes enc n c k b" and "drop p data = enc @ post"
    and "body (n, c, k, b, p + length enc) s = Inr (s', after)" and "p + length enc \<le> after"
  shows "scan_to body data p s = scan_to body data after s'"
  using encodes_read_at [OF assms(1,2)] encodes_position [OF assms(1,2)] assms(3,4)
  by (subst scan_to.simps) (simp add: max_absorb1)

text \<open>What every turn of the loop keeps, the loop keeps.\<close>

lemma scan_to_invariant:
  assumes "scan_to body data p s = Inr s'" and "P s"
    and "\<And>t s s' q. P s \<Longrightarrow> body t s = Inr (s', q) \<Longrightarrow> P s'"
  shows "P s'"
  using assms
proof (induction body data p s rule: scan_to.induct)
  case (1 body data p s)
  show ?case
  proof (cases "p < length data")
    case True
    then obtain t s1 q where t: "read_tag data p = Inr t" "body t s = Inr (s1, q)"
        "scan_to body data (max q (next_position t)) s1 = Inr s'"
      using "1.prems"(1) by (subst (asm) scan_to.simps) (auto simp: bindR_Inr_iff)
    then show ?thesis
      using "1.IH" [OF True t(1,2) refl t(3)] "1.prems"(2,3) by blast
  next
    case False
    then show ?thesis
      using "1.prems" by (simp add: scan_to_end)
  qed
qed

text \<open>The exceptions of the loop are those of the reader and of the body.\<close>

lemma raises_scan_to:
  assumes "\<And>t s. raises_only read_errors (body t s)"
  shows "raises_only read_errors (scan_to body data p s)"
  using assms
proof (induction body data p s rule: scan_to.induct)
  case (1 body data p s)
  show ?case
  proof (cases "p < length data")
    case False
    then show ?thesis
      by (subst scan_to.simps) simp
  next
    case True
    have "raises_only read_errors (bindR (body t s) (\<lambda>(s', after). scan_to body data (max after (next_position t)) s'))"
      if t: "read_tag data p = Inr t" for t
      using "1.prems" [of t s] "1.IH" [OF True t _ refl "1.prems"]
      by (cases "body t s") (auto simp: raises_only_def)
    then show ?thesis
      using True raises_read_tag [of data p]
      by (subst scan_to.simps, cases "read_tag data p") (auto simp: raises_only_def)
  qed
qed

section \<open>Constructed data\<close>

lemma close_loop_progress:
  "close_loop data d ts p = Inr (tag_start, after) \<Longrightarrow> p \<le> after"
proof (induction data d ts p rule: close_loop.induct)
  case (1 data d ts p)
  show ?case
  proof (cases "d = 0")
    case True
    then show ?thesis
      using "1.prems" by (simp add: close_loop.simps [of data 0])
  next
    case False
    then obtain n c k b q where r: "read_tag data p = Inr (n, c, k, b, q)"
      and rest: "close_loop data (depth_after k d) p q = Inr (tag_start, after)"
      using "1.prems" by (subst (asm) close_loop.simps) (auto simp: bindR_Inr_iff)
    have "q \<le> after"
      using "1.IH" [OF False r refl refl refl refl rest] .
    then show ?thesis
      using read_tag_progress [OF r] by simp
  qed
qed

text \<open>\<open>while depth\<close> of \<open>_constructed_end\<close> (and of \<open>alarm._skip_constructed\<close>), and \<open>while True\<close> of
  \<open>_constructed_body\<close>, which returns from inside.\<close>

function constructed_end_loop :: "bytes \<Rightarrow> nat \<Rightarrow> nat \<Rightarrow> nat result" where
  "constructed_end_loop octets depth position =
     (if depth = 0 then Inr position
      else bindR (read_tag octets position) (\<lambda>(_, _, kind, _, position).
        constructed_end_loop octets (depth_after kind depth) position))"
  by pat_completeness auto
termination
  by (relation "measure (\<lambda>(octets, depth, position). length octets - position)") (auto dest!: read_tag_progress)

declare constructed_end_loop.simps [simp del]

function constructed_body_loop :: "bytes \<Rightarrow> nat \<Rightarrow> nat \<Rightarrow> nat \<Rightarrow> (bytes \<times> nat) result" where
  "constructed_body_loop octets start depth tag_start =
     bindR (read_tag octets tag_start) (\<lambda>(_, _, kind, _, position).
       if depth_after kind depth = 0 then Inr (py_slice octets start tag_start, position)
       else constructed_body_loop octets start (depth_after kind depth) position)"
  by pat_completeness auto
termination
  by (relation "measure (\<lambda>(octets, start, depth, position). length octets - position)") (auto dest!: read_tag_progress)

declare constructed_body_loop.simps [simp del]

lemma constructed_end_loop_close:
  "constructed_end_loop octets depth position = bindR (close_loop octets depth ts position) (\<lambda>(_, after). Inr after)"
proof (induction octets depth position arbitrary: ts rule: constructed_end_loop.induct)
  case (1 octets depth position)
  then show ?case
    by (cases "read_tag octets position")
      (auto simp: constructed_end_loop.simps [of octets depth] close_loop.simps [of octets depth])
qed

lemma constructed_body_loop_close:
  "0 < depth \<Longrightarrow> constructed_body_loop octets start depth position =
     bindR (close_loop octets depth ts position) (\<lambda>(tag_start, after). Inr (py_slice octets start tag_start, after))"
proof (induction octets start depth position arbitrary: ts rule: constructed_body_loop.induct)
  case (1 octets start depth position)
  show ?case
  proof (cases "read_tag octets position")
    case (Inl e)
    then show ?thesis
      using "1.prems" by (simp add: constructed_body_loop.simps [of octets] close_loop.simps [of octets depth])
  next
    case (Inr t)
    obtain n c k b q where t: "t = (n, c, k, b, q)"
      by (cases t)
    show ?thesis
    proof (cases "depth_after k depth = 0")
      case True
      then show ?thesis
        using Inr t "1.prems"
        by (simp add: constructed_body_loop.simps [of octets] close_loop.simps [of octets depth] close_loop.simps [of octets 0])
    next
      case False
      then show ?thesis
        using Inr t "1.prems" "1.IH" [OF Inr t [symmetric] refl refl refl False]
        by (simp add: constructed_body_loop.simps [of octets start depth] close_loop.simps [of octets depth])
    qed
  qed
qed

section \<open>Dicts\<close>

definition dict_setdefault :: "('k \<times> 'v) list \<Rightarrow> 'k \<Rightarrow> 'v \<Rightarrow> ('k \<times> 'v) list" where
  "dict_setdefault d k v = (if k \<in> fst ` set d then d else d @ [(k, v)])"

text \<open>A change of the value at a key, through a reference to it.\<close>

definition dict_modify :: "('k \<times> 'v) list \<Rightarrow> 'k \<Rightarrow> ('v \<Rightarrow> 'v) \<Rightarrow> ('k \<times> 'v) list" where
  "dict_modify d k f = map (\<lambda>(k', v). (k', if k' = k then f v else v)) d"

lemma dict_setdefault_fresh: "k \<notin> fst ` set d \<Longrightarrow> dict_setdefault d k v = d @ [(k, v)]"
  by (simp add: dict_setdefault_def)

lemma dict_modify_last: "k \<notin> fst ` set d \<Longrightarrow> dict_modify (d @ [(k, v)]) k f = d @ [(k, f v)]"
  by (induction d) (auto simp: dict_modify_def)

end
