(* ===== verification/Services.thy ===== *)
theory Services
  imports Scan_Loops
begin

unbundle bit_operations_syntax

text \<open>
  \<open>wiretest/services.py\<close>: the confirmed services beyond ReadProperty and WriteProperty, in the order of
  the source. Request builders return the APDU or the exception of an encoder; the decoders of answers
  take the \<open>Answer\<close> (a frame, or none) and keep the split of the source between what its \<open>except\<close> clause
  turns into \<open>None\<close> and what leaves the function. The dicts of the source are records with optional
  entries where their keys are fixed, association lists in insertion order otherwise.
\<close>

section \<open>Numbers\<close>

text \<open>\<open>_object_identifier\<close> is the expression \<open>codec.py\<close> uses for the same purpose.\<close>

abbreviation (input) services_object_identifier :: "bytes \<Rightarrow> (int \<times> int) result" where
  "services_object_identifier \<equiv> object_identifier_of"


abbreviation (input) SERVICE_ATOMIC_READ_FILE :: int where "SERVICE_ATOMIC_READ_FILE \<equiv> 6"
abbreviation (input) SERVICE_ATOMIC_WRITE_FILE :: int where "SERVICE_ATOMIC_WRITE_FILE \<equiv> 7"
abbreviation (input) SERVICE_CREATE_OBJECT :: int where "SERVICE_CREATE_OBJECT \<equiv> 10"
abbreviation (input) SERVICE_DELETE_OBJECT :: int where "SERVICE_DELETE_OBJECT \<equiv> 11"
abbreviation (input) SERVICE_READ_RANGE :: int where "SERVICE_READ_RANGE \<equiv> 26"
abbreviation (input) SERVICE_LIFE_SAFETY_OPERATION :: int where "SERVICE_LIFE_SAFETY_OPERATION \<equiv> 27"
abbreviation (input) SERVICE_SUBSCRIBE_COV_PROPERTY_MULTIPLE :: int where "SERVICE_SUBSCRIBE_COV_PROPERTY_MULTIPLE \<equiv> 30"
abbreviation (input) SERVICE_CONFIRMED_COV_NOTIFICATION_MULTIPLE :: int where "SERVICE_CONFIRMED_COV_NOTIFICATION_MULTIPLE \<equiv> 31"
abbreviation (input) SERVICE_UNCONFIRMED_COV_NOTIFICATION_MULTIPLE :: int where "SERVICE_UNCONFIRMED_COV_NOTIFICATION_MULTIPLE \<equiv> 11"
abbreviation (input) LIFE_SAFETY_OPERATION_NONE :: int where "LIFE_SAFETY_OPERATION_NONE \<equiv> 0"
abbreviation (input) LIFE_SAFETY_OPERATION_SILENCE :: int where "LIFE_SAFETY_OPERATION_SILENCE \<equiv> 1"
abbreviation (input) LIFE_SAFETY_OPERATION_SILENCE_AUDIBLE :: int where "LIFE_SAFETY_OPERATION_SILENCE_AUDIBLE \<equiv> 2"
abbreviation (input) LIFE_SAFETY_OPERATION_SILENCE_VISUAL :: int where "LIFE_SAFETY_OPERATION_SILENCE_VISUAL \<equiv> 3"
abbreviation (input) LIFE_SAFETY_OPERATION_RESET :: int where "LIFE_SAFETY_OPERATION_RESET \<equiv> 4"
abbreviation (input) LIFE_SAFETY_OPERATION_RESET_ALARM :: int where "LIFE_SAFETY_OPERATION_RESET_ALARM \<equiv> 5"
abbreviation (input) LIFE_SAFETY_OPERATION_RESET_FAULT :: int where "LIFE_SAFETY_OPERATION_RESET_FAULT \<equiv> 6"
abbreviation (input) LIFE_SAFETY_OPERATION_UNSILENCE :: int where "LIFE_SAFETY_OPERATION_UNSILENCE \<equiv> 7"
abbreviation (input) LIFE_SAFETY_STATE_QUIET :: int where "LIFE_SAFETY_STATE_QUIET \<equiv> 0"
abbreviation (input) LIFE_SAFETY_STATE_ALARM :: int where "LIFE_SAFETY_STATE_ALARM \<equiv> 2"
abbreviation (input) LIFE_SAFETY_STATE_FAULT :: int where "LIFE_SAFETY_STATE_FAULT \<equiv> 3"
abbreviation (input) SILENCED_UNSILENCED :: int where "SILENCED_UNSILENCED \<equiv> 0"
abbreviation (input) SILENCED_AUDIBLE :: int where "SILENCED_AUDIBLE \<equiv> 1"
abbreviation (input) SILENCED_VISIBLE :: int where "SILENCED_VISIBLE \<equiv> 2"
abbreviation (input) SILENCED_ALL :: int where "SILENCED_ALL \<equiv> 3"
abbreviation (input) LIFT_CAR_DIRECTION_UNKNOWN :: int where "LIFT_CAR_DIRECTION_UNKNOWN \<equiv> 0"
abbreviation (input) LIFT_CAR_DIRECTION_NONE :: int where "LIFT_CAR_DIRECTION_NONE \<equiv> 1"
abbreviation (input) LIFT_CAR_DIRECTION_STOPPED :: int where "LIFT_CAR_DIRECTION_STOPPED \<equiv> 2"
abbreviation (input) LIFT_CAR_DIRECTION_UP :: int where "LIFT_CAR_DIRECTION_UP \<equiv> 3"
abbreviation (input) LIFT_CAR_DIRECTION_DOWN :: int where "LIFT_CAR_DIRECTION_DOWN \<equiv> 4"
abbreviation (input) LIFT_CAR_DIRECTION_UP_AND_DOWN :: int where "LIFT_CAR_DIRECTION_UP_AND_DOWN \<equiv> 5"
abbreviation (input) LIGHTING_OPERATION_NONE :: int where "LIGHTING_OPERATION_NONE \<equiv> 0"
abbreviation (input) LIGHTING_OPERATION_FADE_TO :: int where "LIGHTING_OPERATION_FADE_TO \<equiv> 1"
abbreviation (input) LIGHTING_OPERATION_RAMP_TO :: int where "LIGHTING_OPERATION_RAMP_TO \<equiv> 2"
abbreviation (input) LIGHTING_OPERATION_STEP_UP :: int where "LIGHTING_OPERATION_STEP_UP \<equiv> 3"
abbreviation (input) LIGHTING_OPERATION_STEP_DOWN :: int where "LIGHTING_OPERATION_STEP_DOWN \<equiv> 4"
abbreviation (input) LIGHTING_OPERATION_STEP_ON :: int where "LIGHTING_OPERATION_STEP_ON \<equiv> 5"
abbreviation (input) LIGHTING_OPERATION_STEP_OFF :: int where "LIGHTING_OPERATION_STEP_OFF \<equiv> 6"
abbreviation (input) LIGHTING_OPERATION_WARN :: int where "LIGHTING_OPERATION_WARN \<equiv> 7"
abbreviation (input) LIGHTING_OPERATION_WARN_OFF :: int where "LIGHTING_OPERATION_WARN_OFF \<equiv> 8"
abbreviation (input) LIGHTING_OPERATION_WARN_RELINQUISH :: int where "LIGHTING_OPERATION_WARN_RELINQUISH \<equiv> 9"
abbreviation (input) LIGHTING_OPERATION_STOP :: int where "LIGHTING_OPERATION_STOP \<equiv> 10"
abbreviation (input) LIGHTING_OPERATION_RESTORE_ON :: int where "LIGHTING_OPERATION_RESTORE_ON \<equiv> 11"
abbreviation (input) LIGHTING_OPERATION_DEFAULT_ON :: int where "LIGHTING_OPERATION_DEFAULT_ON \<equiv> 12"
abbreviation (input) LIGHTING_OPERATION_TOGGLE_RESTORE :: int where "LIGHTING_OPERATION_TOGGLE_RESTORE \<equiv> 13"
abbreviation (input) LIGHTING_OPERATION_TOGGLE_DEFAULT :: int where "LIGHTING_OPERATION_TOGGLE_DEFAULT \<equiv> 14"
abbreviation (input) LIGHTING_IN_PROGRESS_IDLE :: int where "LIGHTING_IN_PROGRESS_IDLE \<equiv> 0"
abbreviation (input) LIGHTING_IN_PROGRESS_FADE_ACTIVE :: int where "LIGHTING_IN_PROGRESS_FADE_ACTIVE \<equiv> 1"
abbreviation (input) LIGHTING_IN_PROGRESS_RAMP_ACTIVE :: int where "LIGHTING_IN_PROGRESS_RAMP_ACTIVE \<equiv> 2"

abbreviation (input) OBJECT_TYPE_FILE :: int where "OBJECT_TYPE_FILE \<equiv> 10"

section \<open>Shared parts\<close>

text \<open>\<open>_complex_ack\<close>; its property accesses stand outside the callers' \<open>try\<close> blocks.\<close>

definition complex_ack :: "answer \<Rightarrow> int option \<Rightarrow> bytes option result" where
  "complex_ack a expected =
     (case a of
        None \<Rightarrow> Inr None
      | Some f \<Rightarrow>
          if pdu_type f \<noteq> Some PDU_COMPLEX_ACK then Inr None
          else case expected of
            None \<Rightarrow> Inr (Some (payload f))
          | Some n \<Rightarrow> bindR (service f) (\<lambda>srv. Inr (if srv \<noteq> Some n then None else Some (payload f))))"

text \<open>A decoder of the ACK, run only on one.\<close>

definition on_ack :: "answer \<Rightarrow> int option \<Rightarrow> (bytes \<Rightarrow> 'a option result) \<Rightarrow> 'a option result" where
  "on_ack a expected decode =
     bindR (complex_ack a expected) (\<lambda>ack. case ack of None \<Rightarrow> Inr None | Some apdu \<Rightarrow> decode apdu)"

definition constructed_end :: "bytes \<Rightarrow> nat \<Rightarrow> nat result" where
  "constructed_end octets position = constructed_end_loop octets 1 position"

definition constructed_body :: "bytes \<Rightarrow> nat \<Rightarrow> (bytes \<times> nat) result" where
  "constructed_body octets position = constructed_body_loop octets position 1 position"

section \<open>ReadPropertyMultiple\<close>

definition read_property_multiple_request :: "int \<Rightarrow> (int \<times> int \<times> property_reference list) list \<Rightarrow> bytes result" where
  "read_property_multiple_request iid specifications =
     bindR (catR (map (\<lambda>(ot, inst, references). read_access_specification ot inst references) specifications))
       (confirmed_request iid SERVICE_READ_PROPERTY_MULTIPLE)"

text \<open>The key of a result, a property identifier or a pair of it and an array index, as the pair of the
  two variables it is made from; the result, value octets or the tuple after \<open>'error'\<close>.\<close>

type_synonym result_reference = "int option \<times> int option"

datatype property_access = ResultOctets bytes | ResultError "int list"

record rpm_state =
  rpm_results :: "((int \<times> int) \<times> (result_reference \<times> property_access) list) list"
  rpm_current :: "(int \<times> int) option"
  rpm_property :: "int option"
  rpm_index :: "int option"

definition rpm_store :: "property_access \<Rightarrow> (int \<times> int) \<Rightarrow> rpm_state \<Rightarrow> rpm_state" where
  "rpm_store access key s =
     s\<lparr>rpm_results := dict_modify (rpm_results s) key (\<lambda>d. dict_set d (rpm_property s, rpm_index s) access)\<rparr>"

definition rpm_step :: "bytes \<Rightarrow> tag \<Rightarrow> rpm_state \<Rightarrow> (rpm_state \<times> nat) result" where
  "rpm_step apdu t s =
     (case t of (number, is_context, kind, body, position) \<Rightarrow>
        if kind = Value \<and> is_context \<and> number = 0 then
          bindR (object_identifier_of body) (\<lambda>key.
            Inr (s\<lparr>rpm_results := dict_setdefault (rpm_results s) key [], rpm_current := Some key\<rparr>, position))
        else if kind = Value \<and> is_context \<and> number = 2 then
          Inr (s\<lparr>rpm_property := Some (int_from_bytes body), rpm_index := None\<rparr>, position)
        else if kind = Value \<and> is_context \<and> number = 3 then
          Inr (s\<lparr>rpm_index := Some (int_from_bytes body)\<rparr>, position)
        else if kind = Open \<and> number \<in> {4, 5} then
          (case rpm_current s of
             None \<Rightarrow> Inr (s, position)
           | Some key \<Rightarrow>
               bindR (constructed_body apdu position) (\<lambda>(inner, after).
               bindR (if number = 4 then Inr (ResultOctets inner)
                      else bindR (application_values inner) (\<lambda>values.
                        Inr (ResultError (map (\<lambda>(_, v). int_from_bytes v) (take 2 values))))) (\<lambda>access.
               Inr (rpm_store access key s, after))))
        else Inr (s, position))"

definition parse_read_property_multiple_ack ::
    "answer \<Rightarrow> ((int \<times> int) \<times> (result_reference \<times> property_access) list) list option result" where
  "parse_read_property_multiple_ack a =
     on_ack a (Some SERVICE_READ_PROPERTY_MULTIPLE) (\<lambda>apdu. except_None [IndexError, StructError]
       (bindR (scan_to (rpm_step apdu) apdu 3
                 \<lparr>rpm_results = [], rpm_current = None, rpm_property = None, rpm_index = None\<rparr>) (\<lambda>s.
        Inr (Some (rpm_results s)))))"

text \<open>\<open>decode_result\<close>: a value, or what passes through.\<close>

datatype decoded_result = DecodedValue py_value | PassedThrough "int list option"

definition decode_result :: "property_access option \<Rightarrow> decoded_result result" where
  "decode_result r =
     (case r of
        None \<Rightarrow> Inr (PassedThrough None)
      | Some (ResultError e) \<Rightarrow> Inr (PassedThrough (Some e))
      | Some (ResultOctets octets) \<Rightarrow> bindR (decode_application octets) (\<lambda>v. Inr (DecodedValue v)))"

section \<open>ReadRange\<close>

text \<open>\<open>application_signed(None)\<close>, of a range without a count, compares \<open>None\<close> with an integer.\<close>

definition read_range_request :: "int \<Rightarrow> int \<Rightarrow> int \<Rightarrow> int \<Rightarrow> int option \<Rightarrow> int option \<Rightarrow> bytes result" where
  "read_range_request iid ot inst pid reference_index count =
     bindR (catR [context_object_id 0 ot inst, context_unsigned 1 pid,
                  optional (\<lambda>r. catR [opening_tag 3, application_unsigned r,
                    (case count of None \<Rightarrow> Inl TypeError | Some c \<Rightarrow> application_signed c), closing_tag 3]) reference_index])
       (confirmed_request iid SERVICE_READ_RANGE)"

record range_result =
  result_flags :: "py_value option"
  item_count :: "int option"
  item_data :: bytes

definition read_range_step :: "bytes \<Rightarrow> tag \<Rightarrow> range_result \<Rightarrow> (range_result \<times> nat) result" where
  "read_range_step apdu t r =
     (case t of (number, is_context, kind, body, after) \<Rightarrow>
        if is_context \<and> kind = Value \<and> number = 3 then
          bindR (bytes_of [0x80 OR int (length body)]) (\<lambda>first.
          bindR (decode_application (first @ body)) (\<lambda>v. Inr (r\<lparr>result_flags := Some v\<rparr>, after)))
        else if is_context \<and> kind = Value \<and> number = 4 then Inr (r\<lparr>item_count := Some (int_from_bytes body)\<rparr>, after)
        else if is_context \<and> kind = Open \<and> number = 5 then
          bindR (constructed_body apdu after) (\<lambda>(inner, after). Inr (r\<lparr>item_data := inner\<rparr>, after))
        else if kind = Open then bindR (constructed_end apdu after) (\<lambda>after. Inr (r, after))
        else Inr (r, after))"

definition parse_read_range_ack :: "answer \<Rightarrow> range_result option result" where
  "parse_read_range_ack a =
     on_ack a (Some SERVICE_READ_RANGE) (\<lambda>apdu. except_None [IndexError, StructError]
       (bindR (scan_to (read_range_step apdu) apdu 3 \<lparr>result_flags = None, item_count = None, item_data = []\<rparr>) (\<lambda>r.
        Inr (Some r))))"

definition notification_fields_step :: "bytes \<Rightarrow> tag \<Rightarrow> (int \<rightharpoonup> bytes) \<Rightarrow> ((int \<rightharpoonup> bytes) \<times> nat) result" where
  "notification_fields_step octets t found =
     (case t of (number, is_context, kind, body, position) \<Rightarrow>
        if kind = Open then bindR (constructed_end octets position) (\<lambda>position. Inr (found, position))
        else if is_context \<and> kind = Value then Inr (found(number \<mapsto> body), position)
        else Inr (found, position))"

definition notification_fields :: "bytes \<Rightarrow> (int \<rightharpoonup> bytes) result" where
  "notification_fields octets = scan_to (notification_fields_step octets) octets 0 Map.empty"

text \<open>One BACnetEventLogRecord; \<open>log_datum\<close> is its \<open>kind\<close> with the entries that kind has.\<close>

record logged_notification =
  notification :: bytes
  logged_process_identifier :: int
  logged_initiating_device :: "(int \<times> int) option"
  logged_event_object :: "(int \<times> int) option"
  logged_from_state :: "int option"
  logged_to_state :: "int option"

datatype log_datum = LogStatus bytes | LogNotification logged_notification | LogTimeChange

record event_log_record =
  timestamp :: bytes
  datum :: log_datum

definition optional_identifier :: "(int \<rightharpoonup> bytes) \<Rightarrow> int \<Rightarrow> (int \<times> int) option result" where
  "optional_identifier found n =
     (case found n of None \<Rightarrow> Inr None | Some body \<Rightarrow> bindR (object_identifier_of body) (\<lambda>key. Inr (Some key)))"

definition logged_fields :: "bytes \<Rightarrow> logged_notification result" where
  "logged_fields octets =
     bindR (notification_fields octets) (\<lambda>found.
     bindR (optional_identifier found 1) (\<lambda>dev.
     bindR (optional_identifier found 2) (\<lambda>obj.
     Inr \<lparr>notification = octets,
          logged_process_identifier = int_from_bytes (case found 0 of None \<Rightarrow> [0] | Some b \<Rightarrow> b),
          logged_initiating_device = dev, logged_event_object = obj,
          logged_from_state = map_option int_from_bytes (found 10),
          logged_to_state = map_option int_from_bytes (found 11)\<rparr>)))"

text \<open>The CHOICE inside the log datum: the entries it gives and the position after it.\<close>

definition log_choice :: "bytes \<Rightarrow> nat \<Rightarrow> (log_datum \<times> nat) result" where
  "log_choice data position =
     bindR (read_tag data position) (\<lambda>(number, _, kind, body, inner).
       if number = 0 \<and> kind = Value then Inr (LogStatus body, inner)
       else if number = 1 \<and> kind = Open then
         bindR (constructed_end data inner) (\<lambda>after.
         bindR (logged_fields (py_slice data inner after)) (\<lambda>n. Inr (LogNotification n, after)))
       else Inr (LogTimeChange, inner))"

text \<open>One turn of the loop of \<open>event_log_records\<close>: a record and the position after it, or the \<open>break\<close>.\<close>

definition event_log_turn :: "bytes \<Rightarrow> nat \<Rightarrow> (event_log_record \<times> nat) option result" where
  "event_log_turn data position =
     bindR (read_tag data position) (\<lambda>(number, is_context, kind, _, start).
       if \<not> (is_context \<and> number = 0 \<and> kind = Open) then Inr None
       else
         bindR (constructed_end data start) (\<lambda>after_stamp.
         bindR (read_tag data after_stamp) (\<lambda>(_, _, _, _, choice).
         bindR (log_choice data choice) (\<lambda>(d, inner).
         bindR (read_tag data inner) (\<lambda>(_, _, _, _, after).
         Inr (Some (\<lparr>timestamp = py_slice data start after_stamp, datum = d\<rparr>, after)))))))"

lemma constructed_close:
  "constructed_end octets p = bindR (close_loop octets 1 p p) (\<lambda>(_, after). Inr after)"
  "constructed_body octets p = bindR (close_loop octets 1 p p) (\<lambda>(tag_start, after). Inr (py_slice octets p tag_start, after))"
  unfolding constructed_end_def constructed_body_def
  by (rule constructed_end_loop_close, rule constructed_body_loop_close) simp

lemma constructed_end_progress: "constructed_end octets p = Inr q \<Longrightarrow> p \<le> q"
  unfolding constructed_close by (auto simp: bindR_Inr_iff dest: close_loop_progress)

lemma constructed_body_progress: "constructed_body octets p = Inr (inner, q) \<Longrightarrow> p \<le> q"
  unfolding constructed_close by (auto simp: bindR_Inr_iff dest: close_loop_progress)

lemma log_choice_progress: "log_choice data p = Inr (d, q) \<Longrightarrow> p < q"
  by (auto simp: log_choice_def bindR_Inr_iff dest!: read_tag_progress constructed_end_progress split: if_splits)

lemma event_log_turn_progress: "event_log_turn data p = Inr (Some (r, q)) \<Longrightarrow> p < length data \<and> p < q"
  by (fastforce simp: event_log_turn_def bindR_Inr_iff
      dest: read_tag_progress constructed_end_progress log_choice_progress split: if_splits)

function event_log_from :: "bytes \<Rightarrow> nat \<Rightarrow> event_log_record list \<Rightarrow> event_log_record list result" where
  "event_log_from data position records =
     (if position < length data then
        bindR (event_log_turn data position) (\<lambda>turn.
          case turn of None \<Rightarrow> Inr records | Some (r, after) \<Rightarrow> event_log_from data after (records @ [r]))
      else Inr records)"
  by pat_completeness auto
termination
  by (relation "measure (\<lambda>(data, position, records). length data - position)")
    (auto dest!: event_log_turn_progress)

declare event_log_from.simps [simp del]

definition event_log_records :: "bytes \<Rightarrow> event_log_record list result" where
  "event_log_records data = event_log_from data 0 []"

section \<open>CreateObject and DeleteObject\<close>

definition create_object_request :: "int \<Rightarrow> int \<Rightarrow> int option \<Rightarrow> (int \<times> bytes) list \<Rightarrow> bytes result" where
  "create_object_request iid ot inst initial_values =
     bindR (case inst of None \<Rightarrow> context_unsigned 0 ot | Some i \<Rightarrow> context_object_id 1 ot i) (\<lambda>specifier.
     bindR (catR ([opening_tag 0, Inr specifier, closing_tag 0] @
                  (if initial_values = [] then []
                   else [opening_tag 1] @
                        map (\<lambda>(pid, octets). catR [context_unsigned 0 pid, opening_tag 2, Inr octets, closing_tag 2])
                            initial_values @
                        [closing_tag 1])))
       (confirmed_request iid SERVICE_CREATE_OBJECT))"

definition created_object_identifier :: "answer \<Rightarrow> (int \<times> int) option result" where
  "created_object_identifier a =
     on_ack a None (\<lambda>apdu. bindR (decode_application (drop 3 apdu)) (\<lambda>v.
       Inr (case v of PyObjectId ot inst \<Rightarrow> Some (ot, inst) | _ \<Rightarrow> None)))"

definition delete_object_request :: "int \<Rightarrow> int \<Rightarrow> int \<Rightarrow> bytes result" where
  "delete_object_request iid ot inst = bindR (application_object_id ot inst) (confirmed_request iid SERVICE_DELETE_OBJECT)"

section \<open>AtomicReadFile and AtomicWriteFile\<close>

definition atomic_read_file_request :: "int \<Rightarrow> int \<Rightarrow> int \<Rightarrow> int \<Rightarrow> bytes result" where
  "atomic_read_file_request iid file_instance start requested_count =
     bindR (catR [application_object_id OBJECT_TYPE_FILE file_instance, opening_tag 0, application_signed start,
                  application_unsigned requested_count, closing_tag 0])
       (confirmed_request iid SERVICE_ATOMIC_READ_FILE)"

definition parse_atomic_read_file_ack :: "answer \<Rightarrow> (bool \<times> int \<times> bytes) option result" where
  "parse_atomic_read_file_ack a =
     on_ack a None (\<lambda>apdu. except_None [IndexError, StructError]
       (bindR (read_tag apdu 3) (\<lambda>(_, _, _, eof_body, position).
        bindR (read_tag apdu position) (\<lambda>(number, is_context, kind, _, position).
        if \<not> (is_context \<and> number = 0 \<and> kind = Open) then Inr None
        else
          bindR (read_tag apdu position) (\<lambda>(_, _, _, start_body, position).
          bindR (read_tag apdu position) (\<lambda>(_, _, _, data, _).
          bindR (py_nth eof_body 0) (\<lambda>eof.
          Inr (Some (eof \<noteq> 0, int_from_bytes_signed start_body, data)))))))))"

definition atomic_write_file_request :: "int \<Rightarrow> int \<Rightarrow> int \<Rightarrow> bytes \<Rightarrow> bytes result" where
  "atomic_write_file_request iid file_instance start data =
     bindR (catR [application_object_id OBJECT_TYPE_FILE file_instance, opening_tag 0, application_signed start,
                  application_octet_string data, closing_tag 0])
       (confirmed_request iid SERVICE_ATOMIC_WRITE_FILE)"

definition parse_atomic_write_file_ack :: "answer \<Rightarrow> int option result" where
  "parse_atomic_write_file_ack a =
     on_ack a None (\<lambda>apdu. bindR (read_tag apdu 3) (\<lambda>(number, is_context, kind, body, _).
       Inr (if \<not> (is_context \<and> number = 0 \<and> kind = Value) then None else Some (int_from_bytes_signed body))))"

section \<open>SubscribeCOVPropertyMultiple and COVNotificationMultiple\<close>

definition subscribe_cov_property_multiple_request ::
    "int \<Rightarrow> int \<Rightarrow> bool \<Rightarrow> int option \<Rightarrow> (int \<times> int \<times> int list) list \<Rightarrow> int \<Rightarrow> bytes result" where
  "subscribe_cov_property_multiple_request iid process confirmed lifetime specifications delay =
     bindR (catR ([context_unsigned 0 process, context_boolean 1 confirmed,
                   optional (\<lambda>l. catR [context_unsigned 2 l, context_unsigned 3 delay]) lifetime, opening_tag 4] @
                  map (\<lambda>(ot, inst, properties).
                    catR ([context_object_id 0 ot inst, opening_tag 1] @
                          map (\<lambda>pid. catR [opening_tag 0, context_unsigned 0 pid, closing_tag 0, context_boolean 2 False])
                              properties @
                          [closing_tag 1])) specifications @
                  [closing_tag 4]))
       (confirmed_request iid SERVICE_SUBSCRIBE_COV_PROPERTY_MULTIPLE)"

definition is_cov_notification_multiple :: "frame \<Rightarrow> bool result" where
  "is_cov_notification_multiple f =
     (if pdu_type f = Some PDU_UNCONFIRMED_REQUEST then
        bindR (service f) (\<lambda>srv. Inr (srv = Some SERVICE_UNCONFIRMED_COV_NOTIFICATION_MULTIPLE))
      else if pdu_type f = Some PDU_CONFIRMED_REQUEST then
        bindR (service f) (\<lambda>srv. Inr (srv = Some SERVICE_CONFIRMED_COV_NOTIFICATION_MULTIPLE))
      else Inr False)"

text \<open>The object \<open>CovNotificationMultiple\<close> and the local variables of its constructor's loop. \<open>depth\<close> goes below zero on
  a closing tag without its opening tag.\<close>

record cov_notification =
  cov_frame :: frame
  cov_confirmed :: bool
  cov_process_identifier :: "int option"
  cov_initiating_device :: "(int \<times> int) option"
  cov_time_remaining :: "int option"
  cov_values :: "((int \<times> int) option \<times> int option \<times> int option \<times> bytes) list"

record cov_state = cov_notification +
  cov_depth :: int
  cov_monitored :: "(int \<times> int) option"
  cov_property :: "int option"
  cov_index :: "int option"

definition cov_step :: "bytes \<Rightarrow> tag \<Rightarrow> cov_state \<Rightarrow> (cov_state \<times> nat) result" where
  "cov_step octets t s =
     (case t of (number, is_context, kind, body, position) \<Rightarrow>
        if kind = Open \<and> cov_depth s = 2 \<and> number = 2 then
          bindR (constructed_body octets position) (\<lambda>(inner, after).
            Inr (s\<lparr>cov_values := cov_values s @ [(cov_monitored s, cov_property s, cov_index s, inner)],
                   cov_index := None\<rparr>, after))
        else if kind = Open then Inr (s\<lparr>cov_depth := cov_depth s + 1\<rparr>, position)
        else if kind = Close then Inr (s\<lparr>cov_depth := cov_depth s - 1\<rparr>, position)
        else if \<not> is_context then Inr (s, position)
        else if cov_depth s = 0 \<and> number = 0 then
          Inr (s\<lparr>cov_process_identifier := Some (int_from_bytes body)\<rparr>, position)
        else if cov_depth s = 0 \<and> number = 1 then
          bindR (object_identifier_of body) (\<lambda>key. Inr (s\<lparr>cov_initiating_device := Some key\<rparr>, position))
        else if cov_depth s = 0 \<and> number = 2 then
          Inr (s\<lparr>cov_time_remaining := Some (int_from_bytes body)\<rparr>, position)
        else if cov_depth s = 1 \<and> number = 0 then
          bindR (object_identifier_of body) (\<lambda>key. Inr (s\<lparr>cov_monitored := Some key\<rparr>, position))
        else if cov_depth s = 2 \<and> number = 0 then
          Inr (s\<lparr>cov_property := Some (int_from_bytes body)\<rparr>, position)
        else if cov_depth s = 2 \<and> number = 1 then
          Inr (s\<lparr>cov_index := Some (int_from_bytes body)\<rparr>, position)
        else Inr (s, position))"

definition cov_initial :: "frame \<Rightarrow> bool \<Rightarrow> cov_state" where
  "cov_initial f confirmed =
     \<lparr>cov_frame = f, cov_confirmed = confirmed, cov_process_identifier = None, cov_initiating_device = None,
      cov_time_remaining = None, cov_values = [], cov_depth = 0, cov_monitored = None, cov_property = None,
      cov_index = None\<rparr>"

definition CovNotificationMultiple :: "frame \<Rightarrow> cov_notification result" where
  "CovNotificationMultiple f =
     (let confirmed = (pdu_type f = Some PDU_CONFIRMED_REQUEST);
          octets = (if confirmed then drop 4 (payload f) else drop 2 (payload f)) in
      bindR (scan_to (cov_step octets) octets 0 (cov_initial f confirmed)) (\<lambda>s. Inr (cov_notification.truncate s)))"

definition cov_value :: "cov_notification \<Rightarrow> int \<times> int \<Rightarrow> int \<Rightarrow> py_value option result" where
  "cov_value n key pid =
     (case filter (\<lambda>(monitored, identifier, _, _). monitored = Some key \<and> identifier = Some pid) (cov_values n) of
        [] \<Rightarrow> Inr None
      | (_, _, _, octets) # _ \<Rightarrow> bindR (decode_application octets) (\<lambda>v. Inr (Some v)))"

section \<open>LifeSafetyOperation\<close>

definition life_safety_operation_request :: "int \<Rightarrow> int \<Rightarrow> pystr \<Rightarrow> int \<Rightarrow> (int \<times> int) option \<Rightarrow> bytes result" where
  "life_safety_operation_request iid process src operation reference =
     bindR (catR [context_unsigned 0 process, context_character_string 1 src, context_enumerated 2 operation,
                  optional (\<lambda>(ot, inst). context_object_id 3 ot inst) reference])
       (confirmed_request iid SERVICE_LIFE_SAFETY_OPERATION)"

section \<open>BACnetLandingCallStatus\<close>

definition landing_call_status :: "int \<Rightarrow> int option \<Rightarrow> int option \<Rightarrow> pystr option \<Rightarrow> bytes result" where
  "landing_call_status floor_number direction destination floor_text =
     (if (direction = None) = (destination = None) then Inl ValueError
      else catR [context_unsigned 0 floor_number,
                 (case direction of Some d \<Rightarrow> context_enumerated 1 d | None \<Rightarrow> context_unsigned 2 (the destination)),
                 optional (context_character_string 3) floor_text])"

record landing_call =
  call_floor :: int
  call_direction :: "int option"
  call_destination :: "int option"
  call_text :: "pystr option"

definition update_last :: "('a \<Rightarrow> 'a) \<Rightarrow> 'a list \<Rightarrow> 'a list" where
  "update_last f xs = (if xs = [] then [] else butlast xs @ [f (last xs)])"

definition landing_step :: "nat \<Rightarrow> tag \<Rightarrow> landing_call list \<Rightarrow> landing_call list result" where
  "landing_step start t calls =
     (case t of (number, is_context, kind, body, _) \<Rightarrow>
        if kind \<noteq> Value \<or> \<not> is_context then Inr calls
        else if number = 0 then
          Inr (calls @ [\<lparr>call_floor = int_from_bytes body, call_direction = None, call_destination = None, call_text = None\<rparr>])
        else if number = 1 then Inr (update_last (\<lambda>c. c\<lparr>call_direction := Some (int_from_bytes body)\<rparr>) calls)
        else if number = 2 then Inr (update_last (\<lambda>c. c\<lparr>call_destination := Some (int_from_bytes body)\<rparr>) calls)
        else if number = 3 then Inr (update_last (\<lambda>c. c\<lparr>call_text := Some (utf8_decode_replace (drop 1 body))\<rparr>) calls)
        else Inr calls)"

definition decode_landing_calls :: "bytes option \<Rightarrow> landing_call list result" where
  "decode_landing_calls v = (case v of None \<Rightarrow> Inr [] | Some octets \<Rightarrow> scan_tags landing_step octets 0 [])"

section \<open>BACnetLightingCommand\<close>

definition lighting_command :: "int \<Rightarrow> pyfloat option \<Rightarrow> pyfloat option \<Rightarrow> pyfloat option \<Rightarrow> int option \<Rightarrow> int option \<Rightarrow>
    bytes result" where
  "lighting_command operation target_level ramp_rate step_increment fade_time prio =
     catR [context_enumerated 0 operation, optional (context_real 1) target_level, optional (context_real 2) ramp_rate,
           optional (context_real 3) step_increment, optional (context_unsigned 4) fade_time,
           optional (context_unsigned 5) prio]"

record lighting =
  light_operation :: "int option"
  light_target_level :: "pyfloat option"
  light_ramp_rate :: "pyfloat option"
  light_step_increment :: "pyfloat option"
  light_fade_time :: "int option"
  light_priority :: "int option"

definition lighting_step :: "int \<times> bytes \<Rightarrow> lighting \<Rightarrow> lighting result" where
  "lighting_step field l =
     (case field of (tag, body) \<Rightarrow>
        if tag = 1 then bindR (unpack_f body) (\<lambda>x. Inr (l\<lparr>light_target_level := Some x\<rparr>))
        else if tag = 2 then bindR (unpack_f body) (\<lambda>x. Inr (l\<lparr>light_ramp_rate := Some x\<rparr>))
        else if tag = 3 then bindR (unpack_f body) (\<lambda>x. Inr (l\<lparr>light_step_increment := Some x\<rparr>))
        else if tag = 0 then Inr (l\<lparr>light_operation := Some (int_from_bytes body)\<rparr>)
        else if tag = 4 then Inr (l\<lparr>light_fade_time := Some (int_from_bytes body)\<rparr>)
        else if tag = 5 then Inr (l\<lparr>light_priority := Some (int_from_bytes body)\<rparr>)
        else Inr l)"

fun foldR :: "('a \<Rightarrow> 's \<Rightarrow> 's result) \<Rightarrow> 'a list \<Rightarrow> 's \<Rightarrow> 's result" where
  "foldR f [] s = Inr s"
| "foldR f (x # xs) s = bindR (f x s) (foldR f xs)"

definition decode_lighting_command :: "bytes option \<Rightarrow> lighting option result" where
  "decode_lighting_command v =
     (case v of
        None \<Rightarrow> Inr None
      | Some octets \<Rightarrow>
          if octets = [] then Inr None
          else
            bindR (context_values octets) (\<lambda>found.
            bindR (foldR lighting_step found
                     \<lparr>light_operation = None, light_target_level = None, light_ramp_rate = None,
                      light_step_increment = None, light_fade_time = None, light_priority = None\<rparr>) (\<lambda>l.
            Inr (Some l))))"

end
