(* ===== verification/Alarm.thy ===== *)
theory Alarm
  imports Services
begin

unbundle bit_operations_syntax

text \<open>
  \<open>wiretest/alarm.py\<close>: the alarm, event and device-management services, in the order of the source. A time
  stamp is the pair of the octets of its date and of its time. \<open>event_notification\<close> takes its keyword
  arguments as a record whose defaults are \<open>event_defaults\<close>.
\<close>

section \<open>Numbers\<close>

abbreviation (input) TO_OFFNORMAL :: int where "TO_OFFNORMAL \<equiv> 0"
abbreviation (input) TO_FAULT :: int where "TO_FAULT \<equiv> 1"
abbreviation (input) TO_NORMAL :: int where "TO_NORMAL \<equiv> 2"
abbreviation (input) SERVICE_ACKNOWLEDGE_ALARM :: int where "SERVICE_ACKNOWLEDGE_ALARM \<equiv> 0"
abbreviation (input) SERVICE_CONFIRMED_EVENT_NOTIFICATION :: int where "SERVICE_CONFIRMED_EVENT_NOTIFICATION \<equiv> 2"
abbreviation (input) SERVICE_DEVICE_COMMUNICATION_CONTROL :: int where "SERVICE_DEVICE_COMMUNICATION_CONTROL \<equiv> 17"
abbreviation (input) SERVICE_GET_EVENT_INFORMATION :: int where "SERVICE_GET_EVENT_INFORMATION \<equiv> 29"
abbreviation (input) SERVICE_UNCONFIRMED_EVENT_NOTIFICATION :: int where "SERVICE_UNCONFIRMED_EVENT_NOTIFICATION \<equiv> 3"
abbreviation (input) SERVICE_TIME_SYNCHRONIZATION :: int where "SERVICE_TIME_SYNCHRONIZATION \<equiv> 6"
abbreviation (input) EVENT_STATE_NORMAL :: int where "EVENT_STATE_NORMAL \<equiv> 0"
abbreviation (input) EVENT_STATE_FAULT :: int where "EVENT_STATE_FAULT \<equiv> 1"
abbreviation (input) EVENT_STATE_OFFNORMAL :: int where "EVENT_STATE_OFFNORMAL \<equiv> 2"
abbreviation (input) EVENT_STATE_HIGH_LIMIT :: int where "EVENT_STATE_HIGH_LIMIT \<equiv> 3"
abbreviation (input) EVENT_STATE_LOW_LIMIT :: int where "EVENT_STATE_LOW_LIMIT \<equiv> 4"
abbreviation (input) EVENT_STATE_LIFE_SAFETY_ALARM :: int where "EVENT_STATE_LIFE_SAFETY_ALARM \<equiv> 5"
abbreviation (input) NOTIFY_TYPE_ALARM :: int where "NOTIFY_TYPE_ALARM \<equiv> 0"
abbreviation (input) NOTIFY_TYPE_EVENT :: int where "NOTIFY_TYPE_EVENT \<equiv> 1"
abbreviation (input) NOTIFY_TYPE_ACK_NOTIFICATION :: int where "NOTIFY_TYPE_ACK_NOTIFICATION \<equiv> 2"
abbreviation (input) EVENT_TYPE_CHANGE_OF_STATE :: int where "EVENT_TYPE_CHANGE_OF_STATE \<equiv> 1"
abbreviation (input) EVENT_TYPE_OUT_OF_RANGE :: int where "EVENT_TYPE_OUT_OF_RANGE \<equiv> 5"
abbreviation (input) EVENT_TYPE_CHANGE_OF_LIFE_SAFETY :: int where "EVENT_TYPE_CHANGE_OF_LIFE_SAFETY \<equiv> 8"
abbreviation (input) EVENT_TYPE_CHANGE_OF_RELIABILITY :: int where "EVENT_TYPE_CHANGE_OF_RELIABILITY \<equiv> 19"
abbreviation (input) DCC_ENABLE :: int where "DCC_ENABLE \<equiv> 0"
abbreviation (input) DCC_DISABLE :: int where "DCC_DISABLE \<equiv> 1"
abbreviation (input) DCC_DISABLE_INITIATION :: int where "DCC_DISABLE_INITIATION \<equiv> 2"
abbreviation (input) ERROR_CODE_INVALID_TIMESTAMP :: int where "ERROR_CODE_INVALID_TIMESTAMP \<equiv> 14"
abbreviation (input) PROPERTY_ACKED_TRANSITIONS :: int where "PROPERTY_ACKED_TRANSITIONS \<equiv> 0"
abbreviation (input) PROPERTY_EVENT_TIME_STAMPS :: int where "PROPERTY_EVENT_TIME_STAMPS \<equiv> 130"
abbreviation (input) PROPERTY_LOCAL_DATE :: int where "PROPERTY_LOCAL_DATE \<equiv> 56"
abbreviation (input) PROPERTY_LOCAL_TIME :: int where "PROPERTY_LOCAL_TIME \<equiv> 57"
abbreviation (input) PROPERTY_RECIPIENT_LIST :: int where "PROPERTY_RECIPIENT_LIST \<equiv> 102"

type_synonym time_stamp = "bytes \<times> bytes"

section \<open>Values\<close>

definition context_date_time :: "int \<Rightarrow> time_stamp \<Rightarrow> bytes result" where
  "context_date_time tag date_time =
     (case date_time of (date_octets, time_octets) \<Rightarrow>
        catR [opening_tag tag, opening_tag 2, bytes_of [0xA4], Inr date_octets, bytes_of [0xB4], Inr time_octets,
              closing_tag 2, closing_tag tag])"

type_synonym time_of_day = "int \<times> int \<times> int \<times> int"

abbreviation time_octets :: "time_of_day \<Rightarrow> bytes result" where
  "time_octets t \<equiv> (case t of (hour, minute, second, hundredths) \<Rightarrow> application_time hour minute second hundredths)"

definition destination :: "bytes \<Rightarrow> int \<Rightarrow> bool \<Rightarrow> bool list \<Rightarrow> int \<Rightarrow> bool list \<Rightarrow> time_of_day \<Rightarrow> time_of_day \<Rightarrow> bytes result" where
  "destination mac process confirmed transitions network valid_days from_time to_time =
     bindR (if length mac < 5 then catR [bytes_of [0x60 OR int (length mac)], Inr mac]
            else catR [bytes_of [0x65, int (length mac)], Inr mac]) (\<lambda>mac_body.
     catR [application_bit_string valid_days, time_octets from_time, time_octets to_time,
           opening_tag 1, application_unsigned network, Inr mac_body, closing_tag 1,
           application_unsigned process, application_boolean confirmed, application_bit_string transitions])"

section \<open>Requests\<close>

definition acknowledge_alarm_request :: "int \<Rightarrow> int \<Rightarrow> int \<Rightarrow> int \<Rightarrow> int \<Rightarrow> time_stamp \<Rightarrow> pystr \<Rightarrow> time_stamp \<Rightarrow> bytes result" where
  "acknowledge_alarm_request iid process ot inst state stamp src acknowledged_at =
     bindR (catR [context_unsigned 0 process, context_object_id 1 ot inst, context_enumerated 2 state,
                  context_date_time 3 stamp, context_character_string 4 src, context_date_time 5 acknowledged_at])
       (confirmed_request iid SERVICE_ACKNOWLEDGE_ALARM)"

definition get_event_information_request :: "int \<Rightarrow> (int \<times> int) option \<Rightarrow> bytes result" where
  "get_event_information_request iid last_received =
     bindR (optional (\<lambda>(ot, inst). context_object_id 0 ot inst) last_received)
       (confirmed_request iid SERVICE_GET_EVENT_INFORMATION)"

definition device_communication_control_request :: "int \<Rightarrow> int \<Rightarrow> pystr option \<Rightarrow> int option \<Rightarrow> bytes result" where
  "device_communication_control_request iid enable_disable password minutes =
     bindR (catR [optional (context_unsigned 0) minutes, context_enumerated 1 enable_disable,
                  optional (context_character_string 2) password])
       (confirmed_request iid SERVICE_DEVICE_COMMUNICATION_CONTROL)"

definition time_synchronization :: "int \<Rightarrow> int \<Rightarrow> int \<Rightarrow> int \<Rightarrow> int \<Rightarrow> int \<Rightarrow> int \<Rightarrow> bytes result" where
  "time_synchronization year month day weekday hour minute second =
     catR [bytes_of [0x10, SERVICE_TIME_SYNCHRONIZATION], application_date year month day weekday,
           application_time hour minute second 0]"

text \<open>The arguments of \<open>event_notification\<close>.\<close>

record event_arguments =
  ev_initiating_device :: int
  ev_event_object :: "int \<times> int"
  ev_to_state :: int
  ev_from_state :: int
  ev_confirmed :: bool
  ev_invoke_id :: int
  ev_process_identifier :: int
  ev_notification_class :: int
  ev_priority :: int
  ev_notify_type :: int
  ev_ack_required :: bool
  ev_message_text :: "pystr option"
  ev_date :: "int \<times> int \<times> int \<times> int"
  ev_time :: "int \<times> int \<times> int"
  ev_exceeding_value :: pyfloat
  ev_exceeded_limit :: pyfloat

definition event_defaults :: "int \<Rightarrow> int \<times> int \<Rightarrow> int \<Rightarrow> event_arguments" where
  "event_defaults dev obj to_state =
     \<lparr>ev_initiating_device = dev, ev_event_object = obj, ev_to_state = to_state, ev_from_state = EVENT_STATE_NORMAL,
      ev_confirmed = False, ev_invoke_id = 0, ev_process_identifier = 1, ev_notification_class = 1, ev_priority = 100,
      ev_notify_type = NOTIFY_TYPE_ALARM, ev_ack_required = True, ev_message_text = None,
      ev_date = (2026, 10, 15, 4), ev_time = (12, 30, 0),
      ev_exceeding_value = 0x4057C00000000000, ev_exceeded_limit = 0x4056800000000000\<rparr>"

abbreviation float_one :: pyfloat where
  "float_one \<equiv> 0x3FF0000000000000"

definition event_stamp :: "event_arguments \<Rightarrow> time_stamp result" where
  "event_stamp e =
     (case ev_date e of (year, month, day, weekday) \<Rightarrow> case ev_time e of (hour, minute, second) \<Rightarrow>
        bindR (application_date year month day weekday) (\<lambda>d.
        bindR (application_time hour minute second 0) (\<lambda>t. Inr (drop 1 d, drop 1 t))))"

definition event_values :: "event_arguments \<Rightarrow> bytes result" where
  "event_values e =
     (if ev_notify_type e \<noteq> NOTIFY_TYPE_ACK_NOTIFICATION then
        catR [context_boolean 9 (ev_ack_required e), context_enumerated 10 (ev_from_state e),
              context_enumerated 11 (ev_to_state e),
              opening_tag 12, opening_tag 5, context_real 0 (ev_exceeding_value e),
              context_bit_string 1 [ev_to_state e \<noteq> EVENT_STATE_NORMAL, False, False, False], context_real 2 float_one,
              context_real 3 (ev_exceeded_limit e), closing_tag 5, closing_tag 12]
      else context_enumerated 11 (ev_to_state e))"

definition event_parameters :: "event_arguments \<Rightarrow> bytes result" where
  "event_parameters e =
     bindR (event_stamp e) (\<lambda>stamp.
     catR [context_unsigned 0 (ev_process_identifier e), context_object_id 1 OBJECT_TYPE_DEVICE (ev_initiating_device e),
           (case ev_event_object e of (ot, inst) \<Rightarrow> context_object_id 2 ot inst), context_date_time 3 stamp,
           context_unsigned 4 (ev_notification_class e), context_unsigned 5 (ev_priority e),
           context_enumerated 6 EVENT_TYPE_OUT_OF_RANGE, optional (context_character_string 7) (ev_message_text e),
           context_enumerated 8 (ev_notify_type e), event_values e])"

definition event_notification :: "event_arguments \<Rightarrow> bytes result" where
  "event_notification e =
     bindR (event_parameters e) (\<lambda>parameters.
       if ev_confirmed e then confirmed_request (ev_invoke_id e) SERVICE_CONFIRMED_EVENT_NOTIFICATION parameters
       else catR [bytes_of [push_bit 4 PDU_UNCONFIRMED_REQUEST, SERVICE_UNCONFIRMED_EVENT_NOTIFICATION], Inr parameters])"

section \<open>Decoding\<close>

definition skip_constructed :: "bytes \<Rightarrow> nat \<Rightarrow> nat result" where
  "skip_constructed octets position = constructed_end_loop octets 1 position"

definition read_time_stamp_choice :: "bytes \<Rightarrow> nat \<Rightarrow> (time_stamp option \<times> nat) result" where
  "read_time_stamp_choice octets position =
     bindR (read_tag octets position) (\<lambda>(number, _, kind, _, inner).
       if kind = Open \<and> number = 2 then
         bindR (read_tag octets inner) (\<lambda>(_, _, _, date_octets, after_date).
         bindR (read_tag octets after_date) (\<lambda>(_, _, _, time_octets, after_time).
         bindR (read_tag octets after_time) (\<lambda>(_, _, _, _, after). Inr (Some (date_octets, time_octets), after))))
       else if kind = Open then bindR (skip_constructed octets inner) (\<lambda>after. Inr (None, after))
       else Inr (None, inner))"

definition read_time_stamp :: "bytes \<Rightarrow> nat \<Rightarrow> (time_stamp option \<times> nat) result" where
  "read_time_stamp octets position =
     bindR (read_time_stamp_choice octets position) (\<lambda>(stamp, position).
     bindR (read_tag octets position) (\<lambda>(_, _, _, _, after). Inr (stamp, after)))"

record event_record =
  n_frame :: frame
  n_confirmed :: bool
  n_invoke_id :: "int option"
  n_process_identifier :: "int option"
  n_initiating_device :: "(int \<times> int) option"
  n_event_object :: "(int \<times> int) option"
  n_time_stamp :: "time_stamp option"
  n_notification_class :: "int option"
  n_priority :: "int option"
  n_event_type :: "int option"
  n_notify_type :: "int option"
  n_ack_required :: "bool option"
  n_from_state :: "int option"
  n_to_state :: "int option"

definition event_field :: "int \<Rightarrow> bytes \<Rightarrow> event_record \<Rightarrow> event_record result" where
  "event_field number body n =
     (let i = int_from_bytes body in
      if number = 0 then Inr (n\<lparr>n_process_identifier := Some i\<rparr>)
      else if number = 1 then bindR (object_identifier_of body) (\<lambda>key. Inr (n\<lparr>n_initiating_device := Some key\<rparr>))
      else if number = 2 then bindR (object_identifier_of body) (\<lambda>key. Inr (n\<lparr>n_event_object := Some key\<rparr>))
      else if number = 4 then Inr (n\<lparr>n_notification_class := Some i\<rparr>)
      else if number = 5 then Inr (n\<lparr>n_priority := Some i\<rparr>)
      else if number = 6 then Inr (n\<lparr>n_event_type := Some i\<rparr>)
      else if number = 8 then Inr (n\<lparr>n_notify_type := Some i\<rparr>)
      else if number = 9 then Inr (n\<lparr>n_ack_required := Some (i \<noteq> 0)\<rparr>)
      else if number = 10 then Inr (n\<lparr>n_from_state := Some i\<rparr>)
      else if number = 11 then Inr (n\<lparr>n_to_state := Some i\<rparr>)
      else Inr n)"

definition event_step :: "bytes \<Rightarrow> tag \<Rightarrow> event_record \<Rightarrow> (event_record \<times> nat) result" where
  "event_step octets t n =
     (case t of (number, is_context, kind, body, position) \<Rightarrow>
        if kind = Open then
          if number = 3 then bindR (read_time_stamp octets position) (\<lambda>(stamp, after). Inr (n\<lparr>n_time_stamp := stamp\<rparr>, after))
          else bindR (skip_constructed octets position) (\<lambda>after. Inr (n, after))
        else if kind \<noteq> Value \<or> \<not> is_context then Inr (n, position)
        else bindR (event_field number body n) (\<lambda>n. Inr (n, position)))"

definition event_initial :: "frame \<Rightarrow> bool \<Rightarrow> int option \<Rightarrow> event_record" where
  "event_initial f confirmed iid =
     \<lparr>n_frame = f, n_confirmed = confirmed, n_invoke_id = iid, n_process_identifier = None, n_initiating_device = None,
      n_event_object = None, n_time_stamp = None, n_notification_class = None, n_priority = None, n_event_type = None,
      n_notify_type = None, n_ack_required = None, n_from_state = None, n_to_state = None\<rparr>"

definition EventNotification :: "frame \<Rightarrow> event_record result" where
  "EventNotification f =
     (let confirmed = (pdu_type f = Some PDU_CONFIRMED_REQUEST) in
      bindR (if confirmed then invoke_id f else Inr None) (\<lambda>iid.
      let octets = (if confirmed then drop 4 (payload f) else drop 2 (payload f)) in
      scan_to (event_step octets) octets 0 (event_initial f confirmed iid)))"

definition is_event_notification :: "frame \<Rightarrow> bool result" where
  "is_event_notification f =
     (if network_message f \<noteq> None then Inr False
      else if pdu_type f = Some PDU_CONFIRMED_REQUEST then
        bindR (service f) (\<lambda>srv. Inr (srv = Some SERVICE_CONFIRMED_EVENT_NOTIFICATION))
      else if pdu_type f = Some PDU_UNCONFIRMED_REQUEST then
        bindR (service f) (\<lambda>srv. Inr (srv = Some SERVICE_UNCONFIRMED_EVENT_NOTIFICATION))
      else Inr False)"

text \<open>\<open>describe\<close>: what Python writes for a number, a truth value and an object identifier, or for their absence.\<close>

definition none_or :: "('a \<Rightarrow> string) \<Rightarrow> 'a option \<Rightarrow> string" where
  "none_or f v = (case v of None \<Rightarrow> ''None'' | Some x \<Rightarrow> f x)"

abbreviation int_text :: "int \<Rightarrow> string" where
  "int_text i \<equiv> decimal (nat i)"

definition event_describe :: "event_record \<Rightarrow> string" where
  "event_describe n =
     (if n_confirmed n then ''Confirmed'' else ''Unconfirmed'') @ ''EventNotification object='' @
     none_or (\<lambda>(ot, inst). ''('' @ int_text ot @ '', '' @ int_text inst @ '')'') (n_event_object n) @
     '' notify-type='' @ none_or int_text (n_notify_type n) @ '' from='' @ none_or int_text (n_from_state n) @
     '' to='' @ none_or int_text (n_to_state n) @
     '' ack-required='' @ none_or (\<lambda>b. if b then ''True'' else ''False'') (n_ack_required n) @
     '' class='' @ none_or int_text (n_notification_class n) @ '' priority='' @ none_or int_text (n_priority n) @
     '' event-type='' @ none_or int_text (n_event_type n)"

section \<open>GetEventInformation-ACK\<close>

text \<open>\<open>_bits\<close>: the loop \<open>bits.extend(...)\<close> over the octets after the first.\<close>

definition alarm_bits :: "bytes \<Rightarrow> bool list result" where
  "alarm_bits body =
     bindR (py_nth body 0) (\<lambda>unused.
       let bits = foldl (\<lambda>bits octet. bits @ map (\<lambda>index. octet AND drop_bit index 0x80 \<noteq> 0) [0..<8]) [] (drop 1 body) in
       Inr (if unused \<noteq> 0 then py_prefix bits (int (length bits) - uint unused) else bits))"

record event_summary =
  s_object :: "int \<times> int"
  s_event_state :: "int option"
  s_acked_transitions :: "bool list option"
  s_time_stamps :: "time_stamp option list option"
  s_notify_type :: "int option"
  s_event_enable :: "bool list option"
  s_priorities :: "int list option"

text \<open>The loop's variables. \<open>current\<close> is the summary appended last, so it is \<open>None\<close> exactly while there is none; an
  assignment to one of its entries then raises.\<close>

record summary_state =
  summaries :: "event_summary list"
  more_events :: "bool option"
  in_list :: bool

definition set_current :: "(event_summary \<Rightarrow> event_summary) \<Rightarrow> nat \<Rightarrow> summary_state \<Rightarrow> (summary_state \<times> nat) result" where
  "set_current f position s =
     (if summaries s = [] then Inl TypeError else Inr (s\<lparr>summaries := update_last f (summaries s)\<rparr>, position))"

function priorities_from :: "bytes \<Rightarrow> nat \<Rightarrow> int list \<Rightarrow> (int list \<times> nat) result" where
  "priorities_from octets position priorities =
     bindR (read_tag octets position) (\<lambda>(_, _, kind, body, position).
       if kind = Close then Inr (priorities, position)
       else priorities_from octets position (priorities @ [int_from_bytes body]))"
  by pat_completeness auto
termination
  by (relation "measure (\<lambda>(octets, position, priorities). length octets - position)") (auto dest!: read_tag_progress)

declare priorities_from.simps [simp del]

fun time_stamps_from :: "nat \<Rightarrow> bytes \<Rightarrow> nat \<Rightarrow> (time_stamp option list \<times> nat) result" where
  "time_stamps_from 0 octets position = Inr ([], position)"
| "time_stamps_from (Suc n) octets position =
     bindR (read_time_stamp_choice octets position) (\<lambda>(stamp, position).
     bindR (time_stamps_from n octets position) (\<lambda>(stamps, position). Inr (stamp # stamps, position)))"

definition new_summary :: "int \<times> int \<Rightarrow> event_summary" where
  "new_summary key =
     \<lparr>s_object = key, s_event_state = None, s_acked_transitions = None, s_time_stamps = None, s_notify_type = None,
      s_event_enable = None, s_priorities = None\<rparr>"

definition summary_step :: "bytes \<Rightarrow> tag \<Rightarrow> summary_state \<Rightarrow> (summary_state \<times> nat) result" where
  "summary_step octets t s =
     (case t of (number, is_context, kind, body, after) \<Rightarrow>
        if \<not> in_list s then
          (if kind = Open \<and> number = 0 then Inr (s\<lparr>in_list := True\<rparr>, after)
           else if kind = Value \<and> is_context \<and> number = 1 then
             Inr (s\<lparr>more_events := Some (int_from_bytes body \<noteq> 0)\<rparr>, after)
           else Inr (s, after))
        else if kind = Close \<and> number = 0 then Inr (s\<lparr>in_list := False\<rparr>, after)
        else if kind = Value \<and> is_context \<and> number = 0 then
          bindR (object_identifier_of body) (\<lambda>key. Inr (s\<lparr>summaries := summaries s @ [new_summary key]\<rparr>, after))
        else if kind = Value \<and> is_context \<and> number = 1 then
          set_current (\<lambda>c. c\<lparr>s_event_state := Some (int_from_bytes body)\<rparr>) after s
        else if kind = Value \<and> is_context \<and> number = 2 then
          bindR (alarm_bits body) (\<lambda>bits. set_current (\<lambda>c. c\<lparr>s_acked_transitions := Some bits\<rparr>) after s)
        else if kind = Value \<and> is_context \<and> number = 5 then
          bindR (alarm_bits body) (\<lambda>bits. set_current (\<lambda>c. c\<lparr>s_event_enable := Some bits\<rparr>) after s)
        else if kind = Open \<and> number = 3 then
          bindR (time_stamps_from 3 octets after) (\<lambda>(stamps, position).
          bindR (set_current (\<lambda>c. c\<lparr>s_time_stamps := Some stamps\<rparr>) position s) (\<lambda>(s, position).
          bindR (read_tag octets position) (\<lambda>(_, _, _, _, position). Inr (s, position))))
        else if kind = Value \<and> is_context \<and> number = 4 then
          set_current (\<lambda>c. c\<lparr>s_notify_type := Some (int_from_bytes body)\<rparr>) after s
        else if kind = Open \<and> number = 6 then
          bindR (priorities_from octets after []) (\<lambda>(priorities, position).
            set_current (\<lambda>c. c\<lparr>s_priorities := Some priorities\<rparr>) position s)
        else Inr (s, after))"

definition parse_event_summaries :: "bytes \<Rightarrow> (event_summary list \<times> bool option) result" where
  "parse_event_summaries apdu =
     (let octets = drop 3 apdu in
      bindR (scan_to (summary_step octets) octets 0 \<lparr>summaries = [], more_events = None, in_list = False\<rparr>) (\<lambda>s.
        Inr (summaries s, more_events s)))"

section \<open>Text\<close>

definition two_digits :: "octet \<Rightarrow> string" where
  "two_digits n = (if unat n < 10 then ''0'' else []) @ decimal (unat n)"

definition date_time_text :: "time_stamp option \<Rightarrow> string result" where
  "date_time_text stamp =
     (case stamp of
        None \<Rightarrow> Inr ''none''
      | Some (d, t) \<Rightarrow>
          if set (d @ t) = {0xFF} then Inr ''unspecified''
          else
            bindR (py_nth d 0) (\<lambda>year. bindR (py_nth d 1) (\<lambda>month. bindR (py_nth d 2) (\<lambda>day.
            bindR (py_nth t 0) (\<lambda>hour. bindR (py_nth t 1) (\<lambda>minute. bindR (py_nth t 2) (\<lambda>second. bindR (py_nth t 3) (\<lambda>hundredths.
            Inr (decimal (1900 + unat year) @ ''-'' @ two_digits month @ ''-'' @ two_digits day @ '' '' @
                 two_digits hour @ '':'' @ two_digits minute @ '':'' @ two_digits second @ ''.'' @ two_digits hundredths)))))))))"

end
