(* ===== verification/Client.thy ===== *)
theory Client
  imports Endpoint Services Alarm
begin

unbundle bit_operations_syntax

text \<open>
  \<open>wiretest/client.py\<close>: the \<open>Answer\<close> to a confirmed request, the retry loop every client shares, and
  \<open>Client\<close>, which numbers its requests, wraps them and waits for the answer with the same invoke id.
  The network is the argument \<open>arrivals k\<close>: what arrives while attempt \<open>k\<close> waits. The lemmas: an answer
  carries the invoke id of the request, every attempt sends the same octets, an answer that arrives is
  found, and the invoke ids of 256 consecutive requests differ.
\<close>

section \<open>Answers\<close>

definition answered :: "answer \<Rightarrow> bool" where
  "answered a = (a \<noteq> None)"

definition answer_type :: "answer \<Rightarrow> int option" where
  "answer_type a = (case a of None \<Rightarrow> None | Some f \<Rightarrow> pdu_type f)"

definition answer_ok :: "answer \<Rightarrow> bool" where
  "answer_ok a = (a \<noteq> None \<and> answer_type a \<in> Some ` {PDU_COMPLEX_ACK, PDU_SIMPLE_ACK})"

definition acked :: "answer \<Rightarrow> bool" where
  "acked a = (a \<noteq> None \<and> answer_type a = Some PDU_SIMPLE_ACK)"

definition answer_value_octets :: "answer \<Rightarrow> bytes option result" where
  "answer_value_octets a =
     (case a of None \<Rightarrow> Inr None
      | Some f \<Rightarrow> if pdu_type f \<noteq> Some PDU_COMPLEX_ACK then Inr None else read_property_value (payload f))"

definition answer_value :: "answer \<Rightarrow> py_value result" where
  "answer_value a =
     bindR (answer_value_octets a) (\<lambda>octets. case octets of None \<Rightarrow> Inr PyNone | Some v \<Rightarrow> decode_application v)"

definition answer_error :: "answer \<Rightarrow> (int \<times> int) option result" where
  "answer_error a =
     (case a of None \<Rightarrow> Inr None
      | Some f \<Rightarrow> if pdu_type f \<noteq> Some PDU_ERROR then Inr None else error_class_and_code (payload f))"

definition reason_octet :: "int \<Rightarrow> answer \<Rightarrow> int option" where
  "reason_octet t a =
     (case a of None \<Rightarrow> None
      | Some f \<Rightarrow> if pdu_type f \<noteq> Some t \<or> length (payload f) < 3 then None else Some (uint (payload f ! 2)))"

definition reject_reason :: "answer \<Rightarrow> int option" where
  "reject_reason a = reason_octet PDU_REJECT a"

definition abort_reason :: "answer \<Rightarrow> int option" where
  "abort_reason a = reason_octet PDU_ABORT a"

text \<open>\<open>Answer.describe\<close>; \<open>repr_value\<close> is Python's \<open>repr\<close> of a decoded value, which matters only to the reader of the text.\<close>

definition answer_describe :: "(py_value \<Rightarrow> string) \<Rightarrow> answer \<Rightarrow> string result" where
  "answer_describe repr_value a =
     (case a of
        None \<Rightarrow> Inr ''no answer''
      | Some f \<Rightarrow>
          bindR (answer_error a) (\<lambda>err. case err of
            Some (cls, code) \<Rightarrow> Inr (''Error class='' @ decimal (nat cls) @ '' code='' @ decimal (nat code))
          | None \<Rightarrow>
              if pdu_type f = Some PDU_COMPLEX_ACK then bindR (answer_value a) (\<lambda>v. Inr (''value='' @ repr_value v))
              else if pdu_type f = Some PDU_SIMPLE_ACK then Inr ''SimpleACK''
              else frame_describe f))"

section \<open>The retry loop\<close>

record client = endpoint +
  invoke_counter :: int
  retries :: nat

text \<open>\<open>for attempt_number in range(1 + retries)\<close>, from attempt \<open>k\<close> with \<open>n\<close> attempts left; a \<open>[RETRY]\<close> line
  before each resend.\<close>

fun retry_loop :: "int \<Rightarrow> (nat \<Rightarrow> ('a outputs_scheme, frame option) action) \<Rightarrow> nat \<Rightarrow> nat \<Rightarrow>
    ('a outputs_scheme, frame option) action" where
  "retry_loop i attempt k 0 = returnS None"
| "retry_loop i attempt k (Suc n) =
     thenS (modifyS (\<lambda>c. if k \<noteq> 0 then c\<lparr>retry_lines := retry_lines c @ [i]\<rparr> else c))
     (bindS (attempt k) (\<lambda>answer.
        case answer of Some f \<Rightarrow> returnS (Some f) | None \<Rightarrow> retry_loop i attempt (Suc k) n))"

definition send_with_retries :: "int \<Rightarrow> (nat \<Rightarrow> ('a outputs_scheme, frame option) action) \<Rightarrow> nat \<Rightarrow>
    ('a outputs_scheme, frame option) action" where
  "send_with_retries i attempt count = retry_loop i attempt 0 (1 + count)"

section \<open>The client\<close>

definition next_invoke_id :: "('a client_scheme, int) action" where
  "next_invoke_id =
     thenS (modifyS (\<lambda>c. c\<lparr>invoke_counter := (invoke_counter c + 1) mod 256\<rparr>)) (getS invoke_counter)"

text \<open>The predicate of \<open>request\<close>: the answer to the request with this invoke id.\<close>

definition answers :: "int \<Rightarrow> frame \<Rightarrow> bool result" where
  "answers i f =
     (if network_message f = None \<and>
         pdu_type f \<in> Some ` {PDU_COMPLEX_ACK, PDU_SIMPLE_ACK, PDU_ERROR, PDU_REJECT, PDU_ABORT}
      then bindR (invoke_id f) (\<lambda>j. Inr (j = Some i)) else Inr False)"

definition request_datagram :: "bytes \<Rightarrow> int option \<Rightarrow> bytes \<Rightarrow> bytes result" where
  "request_datagram apdu dst da = bindR (npdu apdu None dst da None [] True 255) (\<lambda>octets. bvlc octets False)"

definition attempt_request :: "bytes \<Rightarrow> address \<Rightarrow> int \<Rightarrow> (nat \<Rightarrow> arrival list) \<Rightarrow> nat \<Rightarrow> ('a client_scheme, frame option) action" where
  "attempt_request octets dst i arrivals k = thenS (send octets dst) (wait_for (answers i) (arrivals k))"

definition request :: "(int \<Rightarrow> bytes result) \<Rightarrow> address \<Rightarrow> int option \<Rightarrow> bytes \<Rightarrow> (nat \<Rightarrow> arrival list) \<Rightarrow>
    ('a client_scheme, answer) action" where
  "request build_apdu dst net adr arrivals =
     bindS next_invoke_id (\<lambda>i.
     thenS (modifyS (\<lambda>c. c\<lparr>frames := []\<rparr>))
     (bindS (liftS (bindR (build_apdu i) (\<lambda>apdu. request_datagram apdu net adr))) (\<lambda>octets.
      bindS (getS retries) (\<lambda>count.
      send_with_retries i (attempt_request octets dst i arrivals) count))))"

text \<open>The calls \<open>Client\<close> and \<open>Workstation\<close> share.\<close>

definition read_property :: "address \<Rightarrow> int \<Rightarrow> int \<Rightarrow> int \<Rightarrow> int option \<Rightarrow> int option \<Rightarrow> bytes \<Rightarrow> (nat \<Rightarrow> arrival list) \<Rightarrow>
    ('a client_scheme, answer) action" where
  "read_property dst ot inst pid index = request (\<lambda>i. read_property_request i ot inst pid index) dst"

definition write_property :: "address \<Rightarrow> int \<Rightarrow> int \<Rightarrow> int \<Rightarrow> bytes \<Rightarrow> int option \<Rightarrow> int option \<Rightarrow> int option \<Rightarrow> bytes \<Rightarrow>
    (nat \<Rightarrow> arrival list) \<Rightarrow> ('a client_scheme, answer) action" where
  "write_property dst ot inst pid v prio index = request (\<lambda>i. write_property_request i ot inst pid v prio index) dst"

definition read_property_multiple :: "address \<Rightarrow> (int \<times> int \<times> property_reference list) list \<Rightarrow> int option \<Rightarrow> bytes \<Rightarrow>
    (nat \<Rightarrow> arrival list) \<Rightarrow> ('a client_scheme, answer) action" where
  "read_property_multiple dst specifications = request (\<lambda>i. read_property_multiple_request i specifications) dst"

definition device_communication_control :: "address \<Rightarrow> int \<Rightarrow> pystr option \<Rightarrow> int option \<Rightarrow> int option \<Rightarrow> bytes \<Rightarrow>
    (nat \<Rightarrow> arrival list) \<Rightarrow> ('a client_scheme, answer) action" where
  "device_communication_control dst enable_disable password minutes =
     request (\<lambda>i. device_communication_control_request i enable_disable password minutes) dst"

text \<open>\<open>Client.who_is\<close>: the frames are forgotten before every attempt.\<close>

definition announces :: "int \<Rightarrow> frame \<Rightarrow> bool result" where
  "announces inst f = bindR (i_am_device_instance (payload f)) (\<lambda>j. Inr (j = Some inst))"

definition attempt_who_is :: "int \<Rightarrow> address \<Rightarrow> (nat \<Rightarrow> arrival list) \<Rightarrow> nat \<Rightarrow> ('a client_scheme, frame option) action" where
  "attempt_who_is inst dst arrivals k =
     thenS (modifyS (\<lambda>c. c\<lparr>frames := []\<rparr>))
     (bindS (liftS (bindR (who_is (Some (inst, inst))) (\<lambda>apdu. bindR (npdu_plain apdu) (\<lambda>octets. bvlc octets False)))) (\<lambda>octets.
      thenS (send octets dst) (wait_for (announces inst) (arrivals k))))"

definition client_who_is :: "address \<Rightarrow> int \<Rightarrow> nat option \<Rightarrow> (nat \<Rightarrow> arrival list) \<Rightarrow> ('a client_scheme, frame option) action" where
  "client_who_is dst inst attempts arrivals =
     bindS (getS retries) (\<lambda>count.
       retry_loop inst (attempt_who_is inst dst arrivals) 0 (case attempts of None \<Rightarrow> 1 + count | Some n \<Rightarrow> n))"

section \<open>Retrying\<close>

text \<open>The contract of an attempt: it sends one datagram, always the same, to one address.\<close>

locale retrying =
  fixes attempt :: "nat \<Rightarrow> ('a outputs_scheme, frame option) action"
    and octets :: bytes and dst :: address
  assumes one_send: "sent (snd (attempt k c)) = sent c @ [(octets, dst)]"
begin

lemma loop_sends:
  "\<exists>m \<le> n. sent (snd (retry_loop i attempt k n c)) = sent c @ replicate m (octets, dst) \<and>
     (fst (retry_loop i attempt k n c) = Inr None \<longrightarrow> m = n) \<and> (0 < n \<longrightarrow> 0 < m)"
proof (induction n arbitrary: k c)
  case 0
  then show ?case by simp
next
  case (Suc n)
  define c1 where "c1 = (if k \<noteq> 0 then c\<lparr>retry_lines := retry_lines c @ [i]\<rparr> else c)"
  have c1: "sent c1 = sent c"
    by (simp add: c1_def)
  have loop: "retry_loop i attempt k (Suc n) c =
      bindS (attempt k) (\<lambda>a. case a of Some f \<Rightarrow> returnS (Some f) | None \<Rightarrow> retry_loop i attempt (Suc k) n) c1"
    by (simp add: c1_def)
  obtain r c2 where a: "attempt k c1 = (r, c2)"
    by (cases "attempt k c1")
  have c2: "sent c2 = sent c @ [(octets, dst)]"
    using one_send [of k c1] a c1 by simp
  show ?case
  proof (cases "r = Inr None")
    case True
    obtain m where m: "m \<le> n" "sent (snd (retry_loop i attempt (Suc k) n c2)) = sent c2 @ replicate m (octets, dst)"
        "fst (retry_loop i attempt (Suc k) n c2) = Inr None \<longrightarrow> m = n"
      using Suc.IH by blast
    have "retry_loop i attempt k (Suc n) c = retry_loop i attempt (Suc k) n c2"
      unfolding loop using a True by (simp add: bindS_def)
    then show ?thesis
      using m c2 by (intro exI [of _ "Suc m"]) (simp add: replicate_append_same)
  next
    case False
    then have "snd (retry_loop i attempt k (Suc n) c) = c2" and "fst (retry_loop i attempt k (Suc n) c) \<noteq> Inr None"
      unfolding loop using a by (auto simp: bindS_def split: sum.split option.split)
    then show ?thesis
      using c2 by (intro exI [of _ 1]) simp
  qed
qed

text \<open>What the loop returns is what its last attempt returned.\<close>

lemma loop_result:
  assumes "retry_loop i attempt k n c = (Inr (Some f), c')"
  shows "\<exists>j b. k \<le> j \<and> j < k + n \<and> attempt j b = (Inr (Some f), c')"
  using assms
proof (induction n arbitrary: k c)
  case 0
  then show ?case by simp
next
  case (Suc n)
  define c1 where "c1 = (if k \<noteq> 0 then c\<lparr>retry_lines := retry_lines c @ [i]\<rparr> else c)"
  have loop: "bindS (attempt k) (\<lambda>a. case a of Some f \<Rightarrow> returnS (Some f) | None \<Rightarrow> retry_loop i attempt (Suc k) n) c1 = (Inr (Some f), c')"
    using Suc.prems by (simp add: c1_def)
  then obtain a c2 where a: "attempt k c1 = (Inr a, c2)"
    by (auto simp: bindS_def split: prod.splits sum.splits)
  show ?case
  proof (cases a)
    case None
    then obtain j b where "Suc k \<le> j" "j < Suc k + n" "attempt j b = (Inr (Some f), c')"
      using Suc.IH [of "Suc k" c2] loop a by (auto simp: bindS_def)
    then show ?thesis
      by (intro exI [of _ j] exI [of _ b]) simp
  next
    case (Some g)
    then show ?thesis
      using loop a by (intro exI [of _ k] exI [of _ c1]) (simp add: bindS_def)
  qed
qed

end

lemma attempt_request_sends: "sent (snd (attempt_request octets dst i arrivals k c)) = sent c @ [(octets, dst)]"
  by (simp add: attempt_request_def send_def wait_for_def wait_loop_sent)

interpretation rq: retrying "attempt_request octets dst i arrivals" octets dst for octets dst i arrivals
  by unfold_locales (rule attempt_request_sends)

section \<open>Requests\<close>

lemma answers_True:
  assumes "answers i f = Inr True"
  shows "network_message f = None" and "invoke_id f = Inr (Some i)"
    and "pdu_type f \<in> Some ` {PDU_COMPLEX_ACK, PDU_SIMPLE_ACK, PDU_ERROR, PDU_REJECT, PDU_ABORT}"
  using assms by (auto simp: answers_def bindR_Inr_iff split: if_splits)

abbreviation next_id :: "'a client_scheme \<Rightarrow> int" where
  "next_id c \<equiv> (invoke_counter c + 1) mod 256"

lemma request_unfold:
  assumes "build (next_id c) = Inr apdu" and "request_datagram apdu net adr = Inr octets"
  shows "request build dst net adr arrivals c =
     retry_loop (next_id c) (attempt_request octets dst (next_id c) arrivals) 0 (Suc (retries c))
       (c\<lparr>invoke_counter := next_id c, frames := []\<rparr>)"
proof -
  have "next_invoke_id c = (Inr (next_id c), c\<lparr>invoke_counter := next_id c\<rparr>)"
    by (simp add: next_invoke_id_def)
  then show ?thesis
    using assms by (simp add: request_def bindS_Inr send_with_retries_def del: retry_loop.simps)
qed

lemma attempt_request_answer:
  assumes "attempt_request octets dst i arrivals k c = (Inr (Some f), c')"
  shows "ok f \<and> answers i f = Inr True"
  using assms wait_loop_sound [of "answers i" 0 "arrivals k" _ f c']
  by (auto simp: attempt_request_def send_def wait_for_def)

text \<open>An attempt during which the answer arrives, and one during which none does.\<close>

lemma attempt_request_found:
  assumes "decoded (arrivals k) = Inr fs" and "first_match (answers i) (frames c @ fs) = Inr r"
  shows "\<exists>c'. attempt_request octets dst i arrivals k c = (Inr r, c') \<and>
     (r = None \<longrightarrow> frames c' = frames c @ fs)"
proof -
  let ?c = "c\<lparr>sent := sent c @ [(octets, dst)]\<rparr>"
  obtain c' where c': "wait_loop (answers i) 0 (arrivals k) ?c = (Inr r, c')"
    using wait_loop_complete [OF assms(1), of "answers i" 0 ?c r] assms(2) by auto
  moreover have "r = None \<longrightarrow> frames c' = frames c @ fs"
    using wait_loop_keeps_all [OF assms(1), of "answers i" 0 ?c c'] c' by auto
  ultimately show ?thesis
    by (simp add: attempt_request_def send_def wait_for_def)
qed

text \<open>Nothing that arrives before attempt \<open>m\<close> answers; during it an answer arrives: the loop returns the first.\<close>

lemma retry_finds:
  assumes "\<And>j. j \<le> m \<Longrightarrow> \<exists>fs. decoded (arrivals (k + j)) = Inr fs \<and>
      (if j < m then first_match (answers i) fs = Inr None else first_match (answers i) fs = Inr (Some f))"
    and "m < n" and "first_match (answers i) (frames c) = Inr None"
  shows "\<exists>c'. retry_loop i (attempt_request octets dst i arrivals) k n c = (Inr (Some f), c')"
  using assms
proof (induction m arbitrary: k n c)
  case 0
  obtain n' where n: "n = Suc n'"
    using 0 by (cases n) auto
  define c1 where "c1 = (if k \<noteq> 0 then c\<lparr>retry_lines := retry_lines c @ [i]\<rparr> else c)"
  obtain fs where fs: "decoded (arrivals k) = Inr fs" "first_match (answers i) fs = Inr (Some f)"
    using "0.prems"(1) [of 0] by auto
  have "first_match (answers i) (frames c1 @ fs) = Inr (Some f)"
    using first_match_append [OF "0.prems"(3), of fs] fs(2) by (simp add: c1_def)
  then obtain c' where "attempt_request octets dst i arrivals k c1 = (Inr (Some f), c')"
    using attempt_request_found [of arrivals k fs i c1] fs(1) by blast
  then show ?case
    by (auto simp: n c1_def bindS_def)
next
  case (Suc m)
  obtain n' where n: "n = Suc n'"
    using Suc.prems(2) by (cases n) auto
  define c1 where "c1 = (if k \<noteq> 0 then c\<lparr>retry_lines := retry_lines c @ [i]\<rparr> else c)"
  obtain fs where fs: "decoded (arrivals k) = Inr fs" "first_match (answers i) fs = Inr None"
    using Suc.prems(1) [of 0] by auto
  have none: "first_match (answers i) (frames c1 @ fs) = Inr None"
    using first_match_append [OF Suc.prems(3), of fs] fs(2) by (simp add: c1_def)
  then obtain c2 where c2: "attempt_request octets dst i arrivals k c1 = (Inr None, c2)" "frames c2 = frames c1 @ fs"
    using attempt_request_found [of arrivals k fs i c1] fs(1) by blast
  have "\<exists>c'. retry_loop i (attempt_request octets dst i arrivals) (Suc k) n' c2 = (Inr (Some f), c')"
    using Suc.prems(1) [of "Suc j" for j] Suc.prems(2) none c2(2)
    by (intro Suc.IH) (auto simp: n)
  then show ?case
    using c2(1) by (auto simp: n c1_def bindS_def)
qed

section \<open>Invoke ids\<close>

text \<open>Every request takes the next invoke id, whatever comes of it.\<close>

lemma retry_loop_counter:
  assumes "\<And>k c. invoke_counter (snd (attempt k c)) = invoke_counter c"
  shows "invoke_counter (snd (retry_loop i attempt k n c)) = invoke_counter c"
proof (induction n arbitrary: k c)
  case 0
  then show ?case by simp
next
  case (Suc n)
  have "keeps invoke_counter (bindS (attempt k) (\<lambda>a. case a of Some f \<Rightarrow> returnS (Some f) | None \<Rightarrow> retry_loop i attempt (Suc k) n))"
    by (rule keeps_bind) (auto simp: keeps_def assms Suc.IH split: option.split)
  then show ?case
    by (simp add: keepsD)
qed

lemma receive_counter: "keeps (invoke_counter :: 'a client_scheme \<Rightarrow> int) (receive a)"
  unfolding receive_def by (cases a) (auto intro!: keeps_bind keeps_modify)

lemma wait_loop_counter:
  "invoke_counter (snd (wait_loop predicate seen arrivals (c :: 'a client_scheme))) = invoke_counter c"
proof (induction arrivals arbitrary: seen c)
  case Nil
  show ?case
    by (subst wait_loop.simps) (auto split: sum.split option.split)
next
  case (Cons a arrivals)
  have "keeps (invoke_counter :: 'a client_scheme \<Rightarrow> int) (bindS (receive a) (\<lambda>_. wait_loop predicate n arrivals))" for n
    by (rule keeps_bind [OF receive_counter]) (simp add: keeps_def Cons.IH)
  then show ?case
    by (subst wait_loop.simps) (auto simp: keepsD split: sum.split option.split)
qed

lemma request_counter: "invoke_counter (snd (request build dst net adr arrivals c)) = next_id c"
proof -
  have att: "invoke_counter (snd (attempt_request octets dst i arrivals k b)) = invoke_counter b" for octets i k b
    by (simp add: attempt_request_def send_def wait_for_def wait_loop_counter)
  show ?thesis
    by (simp add: request_def next_invoke_id_def bindS_lift send_with_retries_def retry_loop_counter [OF att]
        bindS_Inr del: retry_loop.simps split: sum.split)
qed

text \<open>The invoke ids of \<open>n\<close> requests in a row.\<close>

fun request_ids :: "((int \<Rightarrow> bytes result) \<times> address \<times> (nat \<Rightarrow> arrival list)) list \<Rightarrow> 'a client_scheme \<Rightarrow> int list" where
  "request_ids [] c = []"
| "request_ids ((build, dst, arrivals) # rs) c =
     next_id c # request_ids rs (snd (request build dst None [] arrivals c))"

lemma request_ids_nth:
  "k < length rs \<Longrightarrow> request_ids rs c ! k = (invoke_counter c + int k + 1) mod 256"
proof (induction rs arbitrary: c k)
  case Nil
  then show ?case by simp
next
  case (Cons r rs)
  obtain build dst arrivals where r: "r = (build, dst, arrivals)"
    by (cases r)
  show ?case
  proof (cases k)
    case 0
    then show ?thesis by (simp add: r)
  next
    case (Suc j)
    have "((x + 1) mod 256 + (int j + 1)) mod 256 = (x + 1 + (int j + 1)) mod 256" for x
      by (rule mod_add_left_eq)
    then show ?thesis
      using Suc Cons.IH [of j "snd (request build dst None [] arrivals c)"] Cons.prems
      by (simp add: r request_counter add.assoc)
  qed
qed

lemma length_request_ids [simp]: "length (request_ids rs c) = length rs"
  by (induction rs c rule: request_ids.induct) auto

lemma request_ids_distinct:
  assumes "length rs \<le> 256"
  shows "distinct (request_ids rs c)"
proof (unfold distinct_conv_nth length_request_ids, intro allI impI)
  fix j k
  assume j: "j < length rs" and k: "k < length rs" and "j \<noteq> k"
  have "(x + int j + 1) mod 256 \<noteq> (x + int k + 1) mod 256" for x
  proof
    assume "(x + int j + 1) mod 256 = (x + int k + 1) mod 256"
    then have "256 dvd (x + int j + 1) - (x + int k + 1)"
      by (simp only: mod_eq_dvd_iff)
    moreover have "(x + int j + 1) - (x + int k + 1) = int j - int k"
      by simp
    ultimately have "256 dvd int j - int k"
      by (simp only:)
    then have "256 \<le> \<bar>int j - int k\<bar>"
      using \<open>j \<noteq> k\<close> dvd_imp_le_int [of "int j - int k" 256] by simp
    then show False
      using j k assms by linarith
  qed
  then show "request_ids rs c ! j \<noteq> request_ids rs c ! k"
    using j k by (simp add: request_ids_nth)
qed

end
