(* ===== verification/Exchange.thy ===== *)
theory Exchange
  imports Peer_Laws Client
begin

unbundle bit_operations_syntax

text \<open>
  A client and a simulated server together: the datagram of a request, one turn of the server's thread on
  it, and the frame the client decodes from the reply. \<open>exchange\<close> composes the definitions of the
  components; the lemmas give what a client sees of each service, and what the server keeps.
\<close>

section \<open>A request on the wire\<close>

definition exchange :: "(nat \<Rightarrow> bytes) \<Rightarrow> address \<Rightarrow> address \<Rightarrow> bytes \<Rightarrow> ('a server_scheme, answer) action" where
  "exchange env me peer apdu =
     bindS (liftS (request_datagram apdu None [])) (\<lambda>octets.
     bindS (serve (server_answer env) (octets, me, False)) (\<lambda>out.
     case out of
       None \<Rightarrow> returnS None
     | Some (datagram, _) \<Rightarrow> liftS (bindR (Frame datagram peer) (\<lambda>f. Inr (Some f)))))"

lemma request_datagram_frame:
  assumes "length apdu < 65000"
  obtains octets f where "request_datagram apdu None [] = Inr octets" and "Frame octets src = Inr f"
    and "ok f" and "network_message f = None" and "payload f = apdu" and "snet f = None" and "source f = src"
proof -
  have v: "valid_npdu None None [] None [] 255"
    by (simp add: valid_npdu_def is_octet_def)
  obtain body where body: "npdu apdu None None [] None [] True 255 = Inr body" "length body = 2 + length apdu"
    using npdu_shape [OF v] by (auto simp: address_octets_def)
  obtain octets where octets: "bvlc body False = Inr octets"
    using bvll_ok [of BVLC_ORIGINAL_UNICAST body] body(2) assms by (auto simp: bvlc_def is_octet_def)
  have "length body < 65532"
    using body(2) assms by simp
  note f = Frame_bvlc_npdu [OF v body(1) octets this, of src]
  show thesis
    by (rule that [OF _ f]) (simp_all add: request_datagram_def body(1) octets with_npdu_def initial_frame_def)
qed

lemma server_keep_frame [simp]:
  "objects (keep_frame b f s) = objects s" "mode (keep_frame b f s) = mode s" "failures (keep_frame b f s) = failures s"
  "commandable (keep_frame b f s) = commandable s" "writable (keep_frame b f s) = writable s"
  "priority_arrays (keep_frame b f s) = priority_arrays s" "relinquish_defaults (keep_frame b f s) = relinquish_defaults s"
  "whole_arrays_refused (keep_frame b f s) = whole_arrays_refused s" "array_elements (keep_frame b f s) = array_elements s"
  "device_instance (keep_frame b f s) = device_instance s" "write_requests (keep_frame b f s) = write_requests s"
  "silent_requests (keep_frame b f s) = silent_requests s" "requests_while_offline (keep_frame b f s) = requests_while_offline s"
  by (simp_all add: keep_frame_def)

lemma server_keep_frame_data [simp]:
  "served_data (keep_frame b f s) = served_data s" "stored_property (keep_frame b f s) = stored_property s"
  "server_value env (keep_frame b f s) = server_value env s" "is_commanded (keep_frame b f s) = is_commanded s"
  "write_refusal (keep_frame b f s) = write_refusal s" "null_ignored (keep_frame b f s) = null_ignored s"
  by (simp_all add: served_data_def stored_property_def server_value_def is_commanded_def write_refusal_def
      null_ignored_def fun_eq_iff)

text \<open>What the server answers is what the client reads, and the server is left as the answer leaves it.\<close>

lemma exchange_answer:
  assumes "apdu = [0, 5, word_of_int i, word_of_int srv] @ parameters" and "is_octet i" and "is_octet srv"
    and "length apdu < 65000"
    and "\<And>f. confirmed_frame f i srv parameters \<Longrightarrow> server_answer env f (keep_frame False f s) = (Inr (Some ans), t f)"
    and "length ans < 65000"
  obtains f g where "exchange env me peer apdu s = (Inr (Some g), t f)" and "confirmed_frame f i srv parameters"
    and "ok g" and "network_message g = None" and "payload g = ans"
proof -
  obtain octets f where octets: "request_datagram apdu None [] = Inr octets" and f: "Frame octets me = Inr f"
    "ok f" "network_message f = None" "payload f = apdu" "snet f = None"
    by (rule request_datagram_frame [OF assms(4), of me])
  have conf: "confirmed_frame f i srv parameters"
    using f assms(1-3) by (simp add: confirmed_frame_def)
  obtain out g where out: "serve (server_answer env) (octets, me, False) s = (Inr (Some (out, me)), t f)"
    and g: "\<And>a. Frame out a = Inr (g a)" "\<And>a. reply_frame f ans a (g a)"
    using srv.serve_replies [OF f(1-3) assms(5) [OF conf] assms(6)] by blast
  have "exchange env me peer apdu s = (Inr (Some (g peer)), t f)"
    using out by (simp add: exchange_def octets bindS_def g(1))
  then show thesis
    using that conf g(2) [of peer] by (simp add: reply_frame_def)
qed

lemma exchange_silent:
  assumes "apdu = [0, 5, word_of_int i, word_of_int srv] @ parameters" and "is_octet i" and "is_octet srv"
    and "length apdu < 65000"
    and "\<And>f. confirmed_frame f i srv parameters \<Longrightarrow> server_answer env f (keep_frame False f s) = (Inr None, t f)"
  obtains f where "exchange env me peer apdu s = (Inr None, t f)" and "confirmed_frame f i srv parameters"
proof -
  obtain octets f where octets: "request_datagram apdu None [] = Inr octets" and f: "Frame octets me = Inr f"
    "ok f" "network_message f = None" "payload f = apdu" "snet f = None"
    by (rule request_datagram_frame [OF assms(4), of me])
  have conf: "confirmed_frame f i srv parameters"
    using f assms(1-3) by (simp add: confirmed_frame_def)
  have "serve (server_answer env) (octets, me, False) s = (Inr None, t f)"
    using f assms(5) [OF conf] by (simp add: serve_def bindS_def)
  then have "exchange env me peer apdu s = (Inr None, t f)"
    by (simp add: exchange_def octets bindS_Inr)
  then show thesis
    using that conf by blast
qed

section \<open>What a client reads in an answer\<close>

lemma context_unsigned_length: "context_unsigned t v = Inr enc \<Longrightarrow> length enc \<le> 5"
  by (auto simp: context_unsigned_def bindR_Inr_iff bytes_of_Inr_iff dest!: unsigned_octets_value)

lemma context_object_id_length: "context_object_id t ot i = Inr enc \<Longrightarrow> length enc \<le> 5"
  by (auto simp: context_object_id_def object_id_def pack_be_def bindR_Inr_iff bytes_of_Inr_iff
      simp del: be_octets.simps split: if_splits)

lemma bracket_length: "opening_tag t = Inr enc \<Longrightarrow> length enc = 1" "closing_tag t = Inr enc \<Longrightarrow> length enc = 1"
  by (auto simp: opening_tag_def closing_tag_def bytes_of_Inr_iff)

lemma read_property_ack_shape:
  assumes "is_octet i" and "valid_object_id ot inst" and "is_unsigned p"
  obtains rest where "read_property_ack i ot inst p v = Inr (0x30 # word_of_int i # 12 # rest)"
    and "length rest \<le> 12 + length v"
proof -
  obtain oid where oid: "context_object_id 0 ot inst = Inr oid"
    by (rule object_parameter [OF assms(2), of 0]) auto
  obtain pid where pid: "context_unsigned 1 p = Inr pid"
    by (rule unsigned_parameter [OF assms(3), of 1]) auto
  obtain op cl where br: "opening_tag 3 = Inr op" "closing_tag 3 = Inr cl"
    by (rule bracket_parameter [of 3]) auto
  have "read_property_ack i ot inst p v = Inr (0x30 # word_of_int i # 12 # (oid @ pid @ op @ v @ cl))"
    using assms(1) by (simp add: read_property_ack_def bytes_of_def is_octet_def oid pid br)
  then show thesis
    by (rule that) (use context_object_id_length [OF oid] context_unsigned_length [OF pid] bracket_length br in auto)
qed

text \<open>The fields of an answer frame from its first octets.\<close>

lemma answer_frame_fields:
  assumes "network_message g = None" and "payload g = word_of_int (16 * t) # word_of_int i # rest"
    and "t \<in> {PDU_SIMPLE_ACK, PDU_COMPLEX_ACK, PDU_ERROR, PDU_REJECT, PDU_ABORT}" and "is_octet i"
  shows "pdu_type g = Some t" and "invoke_id g = Inr (Some i)" and "answers i g = Inr True"
proof -
  show type: "pdu_type g = Some t"
    using assms(1-3) by (auto simp: pdu_type_def octet_high_bits)
  show id: "invoke_id g = Inr (Some i)"
    using assms(2,3,4) by (auto simp: invoke_id_def type uint_octet_small)
  show "answers i g = Inr True"
    using assms(1,3) by (auto simp: answers_def type id)
qed

section \<open>Reading\<close>

text \<open>A server that answers reads in the ordinary way: on line, no failure injected.\<close>

definition serving :: "'a server_scheme \<Rightarrow> bool" where
  "serving s \<longleftrightarrow> mode s = Online \<and> failures s = []"

lemma server_answer_read:
  assumes "confirmed_frame f i SERVICE_READ_PROPERTY parameters" and "serving s"
  shows "server_answer env f s = server_read env f None s"
  using confirmed_frame_fields [OF assms(1)] assms(2)
  by (simp add: server_answer_def serving_def)

lemma server_read_value:
  assumes "confirmed_frame f i SERVICE_READ_PROPERTY parameters"
    and "parse_read_property_request_indexed (payload f) = Inr (Some (ot, inst, p, None))"
    and "(ot, inst, p) \<notin> whole_arrays_refused s" and "objects s (ot, inst) \<noteq> None"
  shows "server_read env f None s =
     (case server_value env s ot inst p of
        None \<Rightarrow> with_invoke_id f (\<lambda>inv. error_pdu inv SERVICE_READ_PROPERTY ERROR_CLASS_PROPERTY ERROR_CODE_UNKNOWN_PROPERTY)
      | Some octets \<Rightarrow> with_invoke_id f (\<lambda>inv. read_property_ack inv ot inst p octets))
       (log_read SERVICE_READ_PROPERTY [(ot, inst, [p])] s)"
proof -
  have "server_value env (log_read srv specs s) = server_value env s" for srv specs
    by (simp add: server_value_def stored_property_def log_read_def fun_eq_iff)
  then show ?thesis
    using assms(2-4) by (auto simp: server_read_def read_special_def bindS_def split: option.split)
qed

lemma read_request_parameters:
  assumes "is_octet i" and "valid_object_id ot inst" and "is_unsigned p" and "pred_option is_unsigned idx"
  obtains apdu parameters where "read_property_request i ot inst p idx = Inr apdu"
    and "apdu = [0, 5, word_of_int i, word_of_int SERVICE_READ_PROPERTY] @ parameters" and "length apdu < 65000"
    and "parse_read_property_request_indexed apdu = Inr (Some (ot, inst, p, idx))"
proof -
  obtain oid where oid: "context_object_id 0 ot inst = Inr oid"
    by (rule object_parameter [OF assms(2), of 0]) auto
  obtain pid where pid: "context_unsigned 1 p = Inr pid"
    by (rule unsigned_parameter [OF assms(3), of 1]) auto
  obtain ix where ix: "optional (context_unsigned 2) idx = Inr ix"
    by (rule optional_parameter [OF assms(4), of 2]) auto
  have "length ix \<le> 5"
    using ix by (cases idx) (auto dest: context_unsigned_length)
  then have "length ([0, 5, word_of_int i, word_of_int 12 :: octet] @ oid @ pid @ ix) < 65000"
    using context_object_id_length [OF oid] context_unsigned_length [OF pid] by simp
  moreover have "read_property_request i ot inst p idx = Inr ([0, 5, word_of_int i, word_of_int 12] @ oid @ pid @ ix)"
    using confirmed_request_ok [OF assms(1), of 12] by (simp add: read_property_request_def oid pid ix is_octet_def)
  moreover note read_property_request_parses_indexed [OF assms]
  ultimately show thesis
    using that by (metis bindR_simps(2))
qed

lemma exchange_read_value:
  assumes "is_octet i" and "valid_object_id ot inst" and "is_unsigned p" and "serving s"
    and "(ot, inst, p) \<notin> whole_arrays_refused s"
    and "server_value env s ot inst p = Some v" and "well_tagged v" and "length v < 60000"
  obtains apdu g t where "read_property_request i ot inst p None = Inr apdu"
    and "exchange env me peer apdu s = (Inr (Some g), t)" and "answers i g = Inr True"
    and "answer_value_octets (Some g) = Inr (Some v)" and "served_data t = served_data s"
proof -
  obtain apdu parameters where apdu: "read_property_request i ot inst p None = Inr apdu"
    "apdu = [0, 5, word_of_int i, word_of_int SERVICE_READ_PROPERTY] @ parameters" "length apdu < 65000"
    "parse_read_property_request_indexed apdu = Inr (Some (ot, inst, p, None))"
    by (rule read_request_parameters [OF assms(1-3), of None]) auto
  obtain rest where ack: "read_property_ack i ot inst p v = Inr (0x30 # word_of_int i # 12 # rest)"
    and len: "length rest \<le> 12 + length v"
    by (rule read_property_ack_shape [OF assms(1-3)])
  let ?ans = "0x30 # word_of_int i # 12 # rest"
  let ?t = "\<lambda>f. log_read SERVICE_READ_PROPERTY [(ot, inst, [p])] (keep_frame False f s)"
  have listed: "objects s (ot, inst) \<noteq> None"
    using assms(6) by (auto simp: server_value_def stored_property_def split: option.splits)
  have ans: "server_answer env f (keep_frame False f s) = (Inr (Some ?ans), ?t f)"
    if f: "confirmed_frame f i SERVICE_READ_PROPERTY parameters" for f
  proof -
    have pay: "payload f = apdu"
      using f apdu(2) by (simp add: confirmed_frame_def)
    have "server_answer env f (keep_frame False f s) = server_read env f None (keep_frame False f s)"
      using assms(4) by (intro server_answer_read [OF f]) (simp add: serving_def)
    also have "\<dots> = with_invoke_id f (\<lambda>iid. read_property_ack iid ot inst p v) (?t f)"
      using server_read_value [OF f apdu(4) [folded pay], of "keep_frame False f s" env] assms(5,6) listed by simp
    also have "\<dots> = (Inr (Some ?ans), ?t f)"
      using ack by (intro with_invoke_id_ok [OF f])
    finally show ?thesis .
  qed
  have "length ?ans < 65000" and octet: "is_octet SERVICE_READ_PROPERTY"
    using len assms(8) by (simp_all add: is_octet_def)
  then obtain f g where g: "exchange env me peer apdu s = (Inr (Some g), ?t f)" "network_message g = None" "payload g = ?ans"
    using exchange_answer [OF apdu(2) assms(1) octet apdu(3) ans, of me peer] by blast
  note fields = answer_frame_fields [of g 3 i "12 # rest"]
  have "answer_value_octets (Some g) = Inr (Some v)"
    using read_property_ack_value [OF assms(1-3,7)] fields g(2,3) assms(1) ack by (simp add: answer_value_octets_def)
  then show thesis
    using that [OF apdu(1) g(1)] fields g(2,3) assms(1) by simp
qed

section \<open>Writing\<close>

abbreviation write_of :: "int \<Rightarrow> int \<Rightarrow> int \<Rightarrow> bytes \<Rightarrow> int option \<Rightarrow> int option \<Rightarrow> write_request" where
  "write_of ot inst p v prio idx \<equiv> \<lparr>object_type = ot, instance_number = inst, property_identifier = p,
     array_index = idx, value_octets = v, priority = prio\<rparr>"

definition log_write :: "write_request \<Rightarrow> 'a server_scheme \<Rightarrow> 'a server_scheme" where
  "log_write w s = s\<lparr>write_requests := write_requests s @ [w]\<rparr>"

lemma log_write_simps [simp]:
  "objects (log_write w s) = objects s" "mode (log_write w s) = mode s" "failures (log_write w s) = failures s"
  "commandable (log_write w s) = commandable s" "writable (log_write w s) = writable s"
  "priority_arrays (log_write w s) = priority_arrays s" "relinquish_defaults (log_write w s) = relinquish_defaults s"
  "whole_arrays_refused (log_write w s) = whole_arrays_refused s" "write_requests (log_write w s) = write_requests s @ [w]"
  by (simp_all add: log_write_def)

lemma log_write_data [simp]:
  "served_data (log_write w s) = served_data s" "stored_property (log_write w s) = stored_property s"
  "is_commanded (log_write w s) = is_commanded s" "write_refusal (log_write w s) = write_refusal s"
  "null_ignored (log_write w s) = null_ignored s"
  by (simp_all add: served_data_def stored_property_def is_commanded_def write_refusal_def null_ignored_def fun_eq_iff)

lemma server_answer_write:
  assumes "confirmed_frame f i SERVICE_WRITE_PROPERTY parameters" and "mode s \<noteq> Offline" and "failures s = []"
    and "parse_write_property_request (payload f) = Inr (Some w)"
  shows "server_answer env f s = server_write f (Some w) (log_write w s)"
  using confirmed_frame_fields [OF assms(1)] assms(2-4)
  by (simp add: server_answer_def log_write_def)

lemma write_request_parameters:
  assumes "is_octet i" and "valid_object_id ot inst" and "is_unsigned p" and "pred_option is_unsigned prio"
    and "pred_option is_unsigned idx" and "well_tagged v" and "length v < 60000"
  obtains apdu parameters where "write_property_request i ot inst p v prio idx = Inr apdu"
    and "apdu = [0, 5, word_of_int i, word_of_int SERVICE_WRITE_PROPERTY] @ parameters" and "length apdu < 65000"
    and "parse_write_property_request apdu = Inr (Some (write_of ot inst p v prio idx))"
proof -
  obtain oid where oid: "context_object_id 0 ot inst = Inr oid"
    by (rule object_parameter [OF assms(2), of 0]) auto
  obtain pid where pid: "context_unsigned 1 p = Inr pid"
    by (rule unsigned_parameter [OF assms(3), of 1]) auto
  obtain ix where ix: "optional (context_unsigned 2) idx = Inr ix"
    by (rule optional_parameter [OF assms(5), of 2]) auto
  obtain pr where pr: "optional (context_unsigned 4) prio = Inr pr"
    by (rule optional_parameter [OF assms(4), of 4]) auto
  obtain op cl where br: "opening_tag 3 = Inr op" "closing_tag 3 = Inr cl"
    by (rule bracket_parameter [of 3]) auto
  define apdu where "apdu = [0, 5, word_of_int i, word_of_int 15 :: octet] @ oid @ pid @ ix @ op @ v @ cl @ pr"
  have "length ix \<le> 5" and "length pr \<le> 5"
    using ix pr by (cases idx; cases prio; auto dest: context_unsigned_length)+
  then have "length apdu < 65000"
    using context_object_id_length [OF oid] context_unsigned_length [OF pid] bracket_length(1) [OF br(1)]
      bracket_length(2) [OF br(2)] assms(7)
    by (simp add: apdu_def)
  moreover have "write_property_request i ot inst p v prio idx = Inr apdu"
    using confirmed_request_ok [OF assms(1), of 15]
    by (simp add: write_property_request_def oid pid ix br pr apdu_def is_octet_def)
  moreover note write_property_request_parses [OF assms(1-6)]
  ultimately show thesis
    using that [of apdu "oid @ pid @ ix @ op @ v @ cl @ pr"] by (simp add: apdu_def)
qed

text \<open>A write that ends in a SimpleACK: \<open>t\<close> is what the server's \<open>_write\<close> leaves.\<close>

lemma exchange_write_acked:
  assumes "is_octet i" and "valid_object_id ot inst" and "is_unsigned p" and "pred_option is_unsigned prio"
    and "pred_option is_unsigned idx" and "well_tagged v" and "length v < 60000"
    and "mode s \<noteq> Offline" and "failures s = []"
    and "\<And>f params. confirmed_frame f i SERVICE_WRITE_PROPERTY params \<Longrightarrow>
      server_write f (Some (write_of ot inst p v prio idx)) (log_write (write_of ot inst p v prio idx) (keep_frame False f s)) =
        with_invoke_id f (\<lambda>iid. simple_ack iid SERVICE_WRITE_PROPERTY) (t f)"
  obtains apdu g f where "write_property_request i ot inst p v prio idx = Inr apdu"
    and "exchange env me peer apdu s = (Inr (Some g), t f)" and "answers i g = Inr True" and "acked (Some g)"
proof -
  obtain apdu parameters where apdu: "write_property_request i ot inst p v prio idx = Inr apdu"
    "apdu = [0, 5, word_of_int i, word_of_int SERVICE_WRITE_PROPERTY] @ parameters" "length apdu < 65000"
    "parse_write_property_request apdu = Inr (Some (write_of ot inst p v prio idx))"
    by (rule write_request_parameters [OF assms(1-7)])
  have octet: "is_octet SERVICE_WRITE_PROPERTY"
    by (simp add: is_octet_def)
  let ?ans = "[0x20, word_of_int i, word_of_int 15 :: octet]"
  have ans: "server_answer env f (keep_frame False f s) = (Inr (Some ?ans), t f)"
    if f: "confirmed_frame f i SERVICE_WRITE_PROPERTY parameters" for f
  proof -
    have pay: "parse_write_property_request (payload f) = Inr (Some (write_of ot inst p v prio idx))"
      using f apdu(2,4) by (simp add: confirmed_frame_def)
    show ?thesis
      using server_answer_write [OF f _ _ pay, of "keep_frame False f s" env] assms(8,9) assms(10) [OF f]
        with_invoke_id_ok [OF f, of "\<lambda>iid. simple_ack iid 15" ?ans "t f"] simple_ack_ok [OF assms(1) octet]
      by simp
  qed
  have "length ?ans < 65000"
    by simp
  then obtain f g where g: "exchange env me peer apdu s = (Inr (Some g), t f)" "network_message g = None" "payload g = ?ans"
    using exchange_answer [OF apdu(2) assms(1) octet apdu(3) ans, of me peer] by blast
  note fields = answer_frame_fields [of g 2 i "[15]"]
  show thesis
    using that [OF apdu(1) g(1)] fields g(2,3) assms(1) by (simp add: acked_def answer_type_def)
qed

text \<open>A write that is neither commanded nor refused nor an ignored NULL is stored.\<close>

lemma exchange_write_stored:
  assumes "is_octet i" and "valid_object_id ot inst" and "is_unsigned p" and "pred_option is_unsigned prio"
    and "pred_option is_unsigned idx" and "well_tagged v" and "length v < 60000"
    and "mode s \<noteq> Offline" and "failures s = []"
    and "application_tag v = Inr tag" and "objects s (ot, inst) = Some props"
    and "write_refusal s props (write_of ot inst p v prio idx) = None"
    and "\<not> is_commanded s (write_of ot inst p v prio idx)" and "\<not> null_ignored s (write_of ot inst p v prio idx) tag"
  obtains apdu g t where "write_property_request i ot inst p v prio idx = Inr apdu"
    and "exchange env me peer apdu s = (Inr (Some g), t)" and "answers i g = Inr True" and "acked (Some g)"
    and "stored_property t = (\<lambda>key q. if key = (ot, inst) \<and> q = p then Some (Octets v) else stored_property s key q)"
    and "mode t = mode s" and "failures t = failures s" and "whole_arrays_refused t = whole_arrays_refused s"
proof -
  let ?w = "write_of ot inst p v prio idx"
  let ?t = "\<lambda>f. store_property (ot, inst) p (Octets v) (log_write ?w (keep_frame False f s))"
  have "server_write f (Some ?w) (log_write ?w (keep_frame False f s)) =
      with_invoke_id f (\<lambda>iid. simple_ack iid SERVICE_WRITE_PROPERTY) (?t f)" for f
    using server_write_cases [of ?w tag f "log_write ?w (keep_frame False f s)"] assms(10-14)
    by (simp add: Let_def)
  then obtain apdu g f where e: "write_property_request i ot inst p v prio idx = Inr apdu"
      "exchange env me peer apdu s = (Inr (Some g), ?t f)" "answers i g = Inr True" "acked (Some g)"
    using exchange_write_acked [OF assms(1-9), of ?t] by blast
  show thesis
    by (rule that [OF e]) (simp_all add: stored_property_store fun_eq_iff, simp_all add: store_property_def)
qed

section \<open>Commanding\<close>

text \<open>The abstract specification of a commandable Present_Value: of the commands so far, the latest at each
  priority counts, and the value is that of the highest priority (the least number) whose latest command is
  not NULL, else the Relinquish_Default.\<close>

type_synonym command = "int \<times> bytes option"

definition latest :: "command list \<Rightarrow> int \<Rightarrow> bytes option" where
  "latest cmds p = (case filter (\<lambda>c. fst c = p) (rev cmds) of [] \<Rightarrow> None | c # _ \<Rightarrow> snd c)"

definition spec_value :: "served_value \<Rightarrow> command list \<Rightarrow> served_value" where
  "spec_value dflt cmds =
     (case filter (\<lambda>p. latest cmds p \<noteq> None) [1..16] of [] \<Rightarrow> dflt | p # _ \<Rightarrow> Octets (the (latest cmds p)))"

definition command_slots :: "command list \<Rightarrow> bytes option list" where
  "command_slots cmds = foldl (\<lambda>slots (p, v). slots[nat (p - 1) := v]) (replicate 16 None) cmds"

definition in_range :: "command \<Rightarrow> bool" where
  "in_range c \<longleftrightarrow> 1 \<le> fst c \<and> fst c \<le> 16"

lemma latest_snoc: "latest (cmds @ [(q, v)]) p = (if q = p then v else latest cmds p)"
  by (simp add: latest_def)

lemma command_slots_snoc: "command_slots (cmds @ [(q, v)]) = (command_slots cmds)[nat (q - 1) := v]"
  by (simp add: command_slots_def)

lemma command_slots_nth:
  assumes "list_all in_range cmds"
  shows "length (command_slots cmds) = 16 \<and> (\<forall>k < 16. command_slots cmds ! k = latest cmds (int k + 1))"
  using assms
proof (induction cmds rule: rev_induct)
  case Nil
  then show ?case
    by (simp add: command_slots_def latest_def)
next
  case (snoc c cmds)
  obtain q v where c: "c = (q, v)"
    by (cases c)
  then have "1 \<le> q" and "q \<le> 16"
    using snoc.prems by (auto simp: in_range_def)
  then show ?case
    using snoc by (auto simp: c command_slots_snoc latest_snoc nth_list_update)
qed

lemma upto_nat: "map (\<lambda>k. int k + 1) [0..<16] = [1..16]"
  by (simp add: upt_rec upto_rec1)

lemma commanded_value_spec:
  assumes "list_all in_range cmds"
  shows "commanded_value dflt (command_slots cmds) = spec_value dflt cmds"
proof -
  have "command_slots cmds = map (\<lambda>k. command_slots cmds ! k) [0..<16]"
    using command_slots_nth [OF assms] map_nth [of "command_slots cmds"] by simp
  also have "\<dots> = map (latest cmds) (map (\<lambda>k. int k + 1) [0..<16])"
    using command_slots_nth [OF assms] by simp
  finally have slots: "command_slots cmds = map (latest cmds) [1..16]"
    by (simp only: upto_nat)
  have "winning (map h ps) = map (\<lambda>p. the (h p)) (filter (\<lambda>p. h p \<noteq> None) ps)" for h :: "int \<Rightarrow> bytes option" and ps
    by (induction ps) (auto simp: winning_def)
  then show ?thesis
    by (simp add: commanded_value_def spec_value_def slots split: list.split)
qed

text \<open>One command over the wire: NULL relinquishes.\<close>

definition command_octets :: "command \<Rightarrow> bytes" where
  "command_octets c = (case snd c of None \<Rightarrow> [0x00] | Some v \<Rightarrow> v)"

definition valid_command :: "command \<Rightarrow> bool" where
  "valid_command c \<longleftrightarrow> in_range c \<and>
     (case snd c of None \<Rightarrow> True
      | Some v \<Rightarrow> well_tagged v \<and> length v < 60000 \<and> succeeds (application_tag v) \<and> application_tag v \<noteq> Inr (Some TAG_NULL))"

definition command :: "(nat \<Rightarrow> bytes) \<Rightarrow> address \<Rightarrow> address \<Rightarrow> int \<Rightarrow> object_key \<Rightarrow> command \<Rightarrow> ('a server_scheme, answer) action" where
  "command env me peer i key c =
     bindS (liftS (write_property_request i (fst key) (snd key) PROPERTY_PRESENT_VALUE (command_octets c) (Some (fst c)) None))
       (exchange env me peer)"

text \<open>A commandable object that takes commands.\<close>

definition accepts_commands :: "'a server_scheme \<Rightarrow> object_key \<Rightarrow> bool" where
  "accepts_commands s key \<longleftrightarrow>
     serving s \<and> valid_object_id (fst key) (snd key) \<and>
     (case commandable s of None \<Rightarrow> False | Some keys \<Rightarrow> key \<in> keys) \<and>
     (case writable s of None \<Rightarrow> True | Some ws \<Rightarrow> (fst key, snd key, PROPERTY_PRESENT_VALUE) \<in> ws)"

lemma command_tag:
  assumes "valid_command c"
  obtains tag where "application_tag (command_octets c) = Inr tag" and "tag = Some TAG_NULL \<longleftrightarrow> snd c = None"
    and "well_tagged (command_octets c)" and "length (command_octets c) < 60000"
proof (cases "snd c")
  case None
  have "encodes [0x00] TAG_NULL False Value []"
    using application_null_ok by (simp add: application_null_def bytes_of_def)
  moreover from this have "application_tag [0x00] = Inr (Some TAG_NULL)"
    by (simp add: application_tag_def encodes_def)
  ultimately show thesis
    using that [of "Some TAG_NULL"] None by (simp add: command_octets_def well_tagged_tag)
next
  case (Some v)
  then show thesis
    using that assms by (auto simp: valid_command_def command_octets_def succeeds_iff)
qed

lemma command_ok:
  assumes "is_octet i" and "valid_command c" and "accepts_commands s key" and "server_inv s"
    and "priority_arrays s key = Some slots" and "relinquish_defaults s key = Some d"
  obtains g t where "command env me peer i key c s = (Inr (Some g), t)" and "acked (Some g)" and "answers i g = Inr True"
    and "priority_arrays t key = Some (slots[nat (fst c - 1) := snd c])" and "relinquish_defaults t key = Some d"
    and "stored_property t key PROPERTY_PRESENT_VALUE = Some (commanded_value d (slots[nat (fst c - 1) := snd c]))"
    and "accepts_commands t key" and "server_inv t"
proof -
  obtain ot inst where key: "key = (ot, inst)"
    by (cases key)
  let ?v = "command_octets c"
  let ?w = "write_of ot inst PROPERTY_PRESENT_VALUE ?v (Some (fst c)) None"
  obtain tag where tag: "application_tag ?v = Inr tag" "tag = Some TAG_NULL \<longleftrightarrow> snd c = None" "well_tagged ?v" "length ?v < 60000"
    by (rule command_tag [OF assms(2)])
  have range: "1 \<le> fst c" "fst c \<le> 16"
    using assms(2) by (auto simp: valid_command_def in_range_def)
  have com: "is_commanded s ?w"
    using assms(3) by (auto simp: accepts_commands_def is_commanded_def key split: option.splits)
  have inv: "object_inv s key"
    using assms(3,4) by (auto simp: accepts_commands_def server_inv_def split: option.splits)
  then have slots: "length slots = 16" "stored_property s key PROPERTY_PRESENT_VALUE \<noteq> None"
    using assms(5) by (auto elim: object_invE)
  then obtain props where props: "objects s (ot, inst) = Some props" "props PROPERTY_PRESENT_VALUE \<noteq> None"
    by (auto simp: stored_property_def key split: option.splits)
  have ref: "write_refusal s props ?w = None"
    using assms(3) props(2)
    by (auto simp: write_refusal_def accepts_commands_def serving_def check_write_def key split: option.splits)
  let ?s = "\<lambda>f. store_property key PROPERTY_PRESENT_VALUE (Octets ?v) (log_write ?w (keep_frame False f s))"
  let ?t = "\<lambda>f. commanded_state key ?w (tag = Some TAG_NULL) slots d (?s f)"
  have "command_slot key ?w (tag = Some TAG_NULL) (?s f) = (Inr (), ?t f)" for f
    using assms(5,6) slots(1) range by (intro command_slot_ok) (auto simp: effective_priority_def)
  then have "server_write f (Some ?w) (log_write ?w (keep_frame False f s)) =
      with_invoke_id f (\<lambda>iid. simple_ack iid SERVICE_WRITE_PROPERTY) (?t f)" for f
    using server_write_cases [of ?w tag f "log_write ?w (keep_frame False f s)"] tag(1) com ref props(1)
    by (simp add: Let_def null_ignored_def key bindS_def)
  moreover have pre: "valid_object_id ot inst" "is_unsigned PROPERTY_PRESENT_VALUE" "pred_option is_unsigned (Some (fst c))"
      "pred_option is_unsigned (None :: int option)" "mode s \<noteq> Offline" "failures s = []"
    using assms(3) range by (auto simp: accepts_commands_def serving_def is_unsigned_def key)
  ultimately obtain apdu g f where e: "write_property_request i ot inst PROPERTY_PRESENT_VALUE ?v (Some (fst c)) None = Inr apdu"
      "exchange env me peer apdu s = (Inr (Some g), ?t f)" "answers i g = Inr True" "acked (Some g)"
    using exchange_write_acked [OF assms(1) pre(1-4) tag(3,4) pre(5,6), of ?t] by blast
  have run: "command env me peer i key c s = (Inr (Some g), ?t f)"
    using e(1,2) by (simp add: command_def key)
  have new: "slots[nat (effective_priority (Some (fst c)) - 1) := (if tag = Some TAG_NULL then None else Some ?v)] =
      slots[nat (fst c - 1) := snd c]"
    using tag(2) range by (cases "snd c") (auto simp: effective_priority_def command_octets_def)
  have "server_inv (log_write ?w (keep_frame False f s))"
    using assms(4) server_inv_served_data [of "log_write ?w (keep_frame False f s)" s] by simp
  then have inv': "server_inv (?t f)"
    using server_inv_commanded [of "log_write ?w (keep_frame False f s)" ?w slots d] com assms(5,6) by (simp add: key)
  have acc: "accepts_commands (?t f) key"
    using assms(3) by (simp add: accepts_commands_def serving_def) (simp add: commanded_state_def store_property_def Let_def)
  have arr: "priority_arrays (?t f) key = Some (slots[nat (fst c - 1) := snd c])"
    and dfl: "relinquish_defaults (?t f) key = Some d"
    and pv: "stored_property (?t f) key PROPERTY_PRESENT_VALUE = Some (commanded_value d (slots[nat (fst c - 1) := snd c]))"
    using assms(6) new
    by (cases "tag = Some TAG_NULL"; simp add: commanded_state_def Let_def stored_property_store)+
  show thesis
    by (rule that [OF run e(4,3) arr dfl pv acc inv'])
qed

text \<open>A run of commands: every one is acknowledged, and the Present_Value is what the specification says of
  the history.\<close>

fun command_all :: "(nat \<Rightarrow> bytes) \<Rightarrow> address \<Rightarrow> address \<Rightarrow> int \<Rightarrow> object_key \<Rightarrow> command list \<Rightarrow> ('a server_scheme, answer list) action" where
  "command_all env me peer i key [] = returnS []"
| "command_all env me peer i key (c # cs) =
     bindS (command env me peer i key c) (\<lambda>a.
     bindS (command_all env me peer ((i + 1) mod 256) key cs) (\<lambda>as. returnS (a # as)))"

lemma command_all_from:
  assumes "list_all valid_command cs" and "is_octet i" and "accepts_commands s key" and "server_inv s"
    and "priority_arrays s key = Some (command_slots done_cmds)" and "relinquish_defaults s key = Some d"
    and "list_all in_range done_cmds"
  shows "\<exists>as t. command_all env me peer i key cs s = (Inr as, t) \<and> length as = length cs \<and> list_all acked as \<and>
     stored_property t key PROPERTY_PRESENT_VALUE = Some (spec_value d (done_cmds @ cs)) \<and> server_inv t"
  using assms
proof (induction cs arbitrary: i s done_cmds)
  case Nil
  have "object_inv s key"
    using Nil.prems(3,4) by (auto simp: accepts_commands_def server_inv_def split: option.splits)
  then show ?case
    using Nil.prems commanded_value_spec [of done_cmds d] by (auto elim!: object_invE)
next
  case (Cons c cs)
  have c: "valid_command c" "in_range c"
    using Cons.prems(1) by (auto simp: valid_command_def)
  obtain g t where t: "command env me peer i key c s = (Inr (Some g), t)" "acked (Some g)"
      "priority_arrays t key = Some ((command_slots done_cmds)[nat (fst c - 1) := snd c])"
      "relinquish_defaults t key = Some d" "accepts_commands t key" "server_inv t"
    using command_ok [OF Cons.prems(2) c(1) Cons.prems(3,4,5,6)] by blast
  have arr: "priority_arrays t key = Some (command_slots (done_cmds @ [c]))"
    using t(3) by (cases c) (simp add: command_slots_snoc)
  have next_i: "is_octet ((i + 1) mod 256)"
    by (simp add: is_octet_def)
  have "list_all valid_command cs" and "list_all in_range (done_cmds @ [c])"
    using Cons.prems(1,7) c(2) by auto
  then obtain as u where "command_all env me peer ((i + 1) mod 256) key cs t = (Inr as, u)" "length as = length cs"
      "list_all acked as" "stored_property u key PROPERTY_PRESENT_VALUE = Some (spec_value d ((done_cmds @ [c]) @ cs))" "server_inv u"
    using Cons.IH [OF _ next_i t(5,6) arr t(4)] by blast
  then show ?case
    using t(1,2) by (simp add: bindS_def)
qed

section \<open>Refusals and silence\<close>

lemma error_pdu_length: "error_pdu i srv cls code = Inr ans \<Longrightarrow> length ans \<le> 13"
  by (auto simp: error_pdu_def application_enumerated_def bindR_Inr_iff bytes_of_Inr_iff dest!: unsigned_octets_value)

lemma exchange_error:
  assumes "apdu = [0, 5, word_of_int i, word_of_int srv] @ parameters" and "is_octet i" and "is_octet srv"
    and "length apdu < 65000" and "is_unsigned cls" and "is_unsigned code"
    and "\<And>f. confirmed_frame f i srv parameters \<Longrightarrow>
      server_answer env f (keep_frame False f s) = with_invoke_id f (\<lambda>iid. error_pdu iid srv cls code) (t f)"
  obtains f g where "exchange env me peer apdu s = (Inr (Some g), t f)" and "answers i g = Inr True"
    and "answer_error (Some g) = Inr (Some (cls, code))" and "\<not> answer_ok (Some g)"
proof -
  obtain e1 e2 where ack: "error_pdu i srv cls code = Inr ([0x50, word_of_int i, word_of_int srv] @ e1 @ e2)"
    by (rule error_pdu_shape [OF assms(2,3,5,6)])
  let ?ans = "[0x50, word_of_int i, word_of_int srv] @ e1 @ e2"
  have len: "length ?ans < 65000"
    using error_pdu_length [OF ack] by simp
  have ans: "server_answer env f (keep_frame False f s) = (Inr (Some ?ans), t f)"
    if f: "confirmed_frame f i srv parameters" for f
    using assms(7) [OF f] with_invoke_id_ok [OF f, of "\<lambda>iid. error_pdu iid srv cls code" ?ans "t f"] ack by simp
  obtain f g where g: "exchange env me peer apdu s = (Inr (Some g), t f)" "network_message g = None" "payload g = ?ans"
    using exchange_answer [OF assms(1,2,3,4) ans len, of me peer] by blast
  note fields = answer_frame_fields [of g 5 i "word_of_int srv # e1 @ e2"]
  have "error_class_and_code ?ans = Inr (Some (cls, code))"
    using error_pdu_decodes [OF assms(2,3,5,6)] ack by simp
  then show thesis
    using that [OF g(1)] fields g(2,3) assms(2) by (simp add: answer_error_def answer_ok_def answer_type_def)
qed

text \<open>A device that is off line answers nothing and counts the request.\<close>

lemma server_answer_offline:
  assumes "confirmed_frame f i srv parameters" and "mode s = Offline"
    and "srv = SERVICE_WRITE_PROPERTY \<Longrightarrow> parse_write_property_request (payload f) = Inr w"
    and "srv \<noteq> SERVICE_WRITE_PROPERTY \<Longrightarrow> w = None"
  shows "server_answer env f s = (Inr None,
     (let s' = (case w of None \<Rightarrow> s | Some r \<Rightarrow> log_write r s) in
      if srv \<in> {SERVICE_READ_PROPERTY, SERVICE_READ_PROPERTY_MULTIPLE, SERVICE_WRITE_PROPERTY}
      then s'\<lparr>requests_while_offline := requests_while_offline s' + 1\<rparr> else s'))"
  using confirmed_frame_fields [OF assms(1)] assms(2-4)
  by (cases "srv = SERVICE_WRITE_PROPERTY") (auto simp: server_answer_def log_write_def Let_def split: option.split)

end
