(* ===== verification/Services_Multiple.thy ===== *)
theory Services_Multiple
  imports Services
begin

text \<open>
  ReadPropertyMultiple: the answer that \<open>codec.read_property_multiple_ack\<close> builds is read back by
  \<open>parse_read_property_multiple_ack\<close>. A scan lemma per production (a property, the properties of an object,
  an object, the list of objects), each over the scan lemma of the one below it.
\<close>

section \<open>Constructed data\<close>

lemma constructed_body_value:
  assumes "well_tagged v" and "drop p octets = v @ cl @ post" and "encodes cl n c Close b"
  shows "constructed_body octets p = Inr (v, p + length v + length cl)"
  using close_loop_value [OF assms, of p] py_slice_whole [OF assms(2)] by (simp add: constructed_close)

lemma constructed_end_value:
  assumes "well_tagged v" and "drop p octets = v @ cl @ post" and "encodes cl n c Close b"
  shows "constructed_end octets p = Inr (p + length v + length cl)"
  using close_loop_value [OF assms, of p] by (simp add: constructed_close)

text \<open>The bodies of the loops only move forwards, so \<open>scan_to\<close> is the loop of the source for each.\<close>

named_theorems advance_rules \<open>loop bodies that only move forwards\<close>

lemma rpm_step_advances [advance_rules]: "advances (rpm_step apdu)"
  by (auto simp: advances_def rpm_step_def bindR_Inr_iff dest!: constructed_body_progress
      split: if_splits option.splits)

lemma read_range_step_advances [advance_rules]: "advances (read_range_step apdu)"
  by (auto simp: advances_def read_range_step_def bindR_Inr_iff
      dest!: constructed_body_progress constructed_end_progress split: if_splits)

lemma notification_fields_step_advances [advance_rules]: "advances (notification_fields_step octets)"
  by (auto simp: advances_def notification_fields_step_def bindR_Inr_iff
      dest!: constructed_end_progress split: if_splits)

lemma cov_step_advances [advance_rules]: "advances (cov_step octets)"
  by (auto simp: advances_def cov_step_def bindR_Inr_iff dest!: constructed_body_progress split: if_splits)

section \<open>One property\<close>

definition access_of :: "bytes option \<Rightarrow> property_access" where
  "access_of v = (case v of None \<Rightarrow> ResultError [ERROR_CLASS_PROPERTY, ERROR_CODE_UNKNOWN_PROPERTY] | Some octets \<Rightarrow> ResultOctets octets)"

definition valid_property :: "int \<times> bytes option \<Rightarrow> bool" where
  "valid_property r = (case r of (pid, v) \<Rightarrow> is_unsigned pid \<and> pred_option well_tagged v)"

lemma is_unsigned_numeral: "numeral k < (2 :: int) ^ 32 \<Longrightarrow> is_unsigned (numeral k)"
  by (simp add: is_unsigned_def)

text \<open>A property is written as its identifier and one bracketed value: the octets served, or an error.\<close>

lemma property_result_shape:
  assumes "valid_property (pid, v)"
  obtains pe op inner cl where "property_result (pid, v) = Inr (pe @ op @ inner @ cl)"
    and "encodes pe 2 True Value (int_content pid)" and "well_tagged inner"
    and "encodes op (if v = None then 5 else 4) True Open []" and "encodes cl (if v = None then 5 else 4) True Close []"
    and "v = Some octets \<Longrightarrow> inner = octets"
    and "v = None \<Longrightarrow> application_values inner =
      Inr [(TAG_ENUMERATED, int_content ERROR_CLASS_PROPERTY), (TAG_ENUMERATED, int_content ERROR_CODE_UNKNOWN_PROPERTY)]"
proof -
  have v: "is_unsigned pid" "pred_option well_tagged v"
    using assms by (auto simp: valid_property_def)
  obtain pe where pe: "context_unsigned 2 pid = Inr pe" "encodes pe 2 True Value (int_content pid)"
    by (rule unsigned_parameter [OF v(1), of 2]) auto
  show thesis
  proof (cases v)
    case (Some octets)
    obtain op cl where br: "opening_tag 4 = Inr op" "closing_tag 4 = Inr cl"
        "encodes op 4 True Open []" "encodes cl 4 True Close []"
      by (rule bracket_parameter [of 4]) auto
    have "property_result (pid, v) = Inr (pe @ op @ octets @ cl)"
      by (simp add: property_result_def Some pe(1) br(1,2))
    then show thesis
      using that [of pe op octets cl] pe(2) br v Some by auto
  next
    case None
    obtain op cl where br: "opening_tag 5 = Inr op" "closing_tag 5 = Inr cl"
        "encodes op 5 True Open []" "encodes cl 5 True Close []"
      by (rule bracket_parameter [of 5]) auto
    obtain e1 e2 where e: "application_enumerated 2 = Inr e1" "encodes e1 TAG_ENUMERATED False Value (int_content 2)"
        "application_enumerated 32 = Inr e2" "encodes e2 TAG_ENUMERATED False Value (int_content 32)"
      using application_enumerated_ok [of 2] application_enumerated_ok [of 32] by auto
    have "property_result (pid, v) = Inr (pe @ op @ (e1 @ e2) @ cl)"
      by (simp add: property_result_def None pe(1) br(1,2) e(1,3))
    moreover have "application_values (concat [e1, e2]) = Inr [(TAG_ENUMERATED, int_content 2), (TAG_ENUMERATED, int_content 32)]"
      by (rule application_values_run) (simp add: e)
    moreover have "well_tagged (e1 @ e2)"
      using e(2,4) by auto
    ultimately show thesis
      using that [of pe op "e1 @ e2" cl] pe(2) br None by simp
  qed
qed

text \<open>The state between two properties of the object \<open>key\<close>: the results so far are \<open>rs\<close>, those of the object \<open>d\<close>.\<close>

definition rpm_at :: "((int \<times> int) \<times> (result_reference \<times> property_access) list) list \<Rightarrow> int \<times> int \<Rightarrow>
    (result_reference \<times> property_access) list \<Rightarrow> rpm_state \<Rightarrow> bool" where
  "rpm_at rs key d s \<longleftrightarrow> rpm_results s = rs @ [(key, d)] \<and> rpm_current s = Some key"

lemma scan_property:
  assumes "valid_property (pid, v)" and "property_result (pid, v) = Inr enc" and "drop p apdu = enc @ post"
    and "rpm_at rs key d s" and "key \<notin> fst ` set rs" and "(Some pid, None) \<notin> fst ` set d"
  shows "\<exists>s'. rpm_at rs key (d @ [((Some pid, None), access_of v)]) s' \<and>
    scan_to (rpm_step apdu) apdu p s = scan_to (rpm_step apdu) apdu (p + length enc) s'"
proof -
  obtain pe op inner cl where enc: "enc = pe @ op @ inner @ cl"
    and pe: "encodes pe 2 True Value (int_content pid)" and inner: "well_tagged inner"
    and op: "encodes op (if v = None then 5 else 4) True Open []"
    and cl: "encodes cl (if v = None then 5 else 4) True Close []"
    and some: "\<And>octets. v = Some octets \<Longrightarrow> inner = octets"
    and none: "v = None \<Longrightarrow> application_values inner =
      Inr [(TAG_ENUMERATED, int_content 2), (TAG_ENUMERATED, int_content 32)]"
    by (rule property_result_shape [OF assms(1), of "the v"]) (auto simp: assms(2))
  have pid: "int_from_bytes (int_content pid) = pid"
    using assms(1) by (intro is_unsigned_content) (simp add: valid_property_def)
  have d0: "drop p apdu = pe @ op @ inner @ cl @ post"
    using assms(3) enc by simp
  note d1 = drop_after [OF d0]
  note d2 = drop_after [OF d1]
  define s1 where "s1 = s\<lparr>rpm_property := Some pid, rpm_index := None\<rparr>"
  define s2 where "s2 = rpm_store (access_of v) key s1"
  have "scan_to (rpm_step apdu) apdu p s = scan_to (rpm_step apdu) apdu (p + length pe) s1"
    by (rule scan_to_step [OF pe d0]) (simp_all add: rpm_step_def s1_def pid)
  also have "\<dots> = scan_to (rpm_step apdu) apdu (p + length enc) s2"
  proof (rule scan_to_step [OF op d1])
    have "constructed_body apdu (p + length pe + length op) = Inr (inner, p + length enc)"
      using constructed_body_value [OF inner d2 cl] by (simp add: enc add.assoc)
    moreover have "rpm_current s1 = Some key"
      using assms(4) by (simp add: s1_def rpm_at_def)
    ultimately show "rpm_step apdu (if v = None then 5 else 4, True, Open, [], p + length pe + length op) s1 =
        Inr (s2, p + length enc)"
      using none some by (cases v) (simp_all add: rpm_step_def s2_def access_of_def)
  qed (simp add: enc)
  finally have "scan_to (rpm_step apdu) apdu p s = scan_to (rpm_step apdu) apdu (p + length enc) s2" .
  moreover have "rpm_at rs key (d @ [((Some pid, None), access_of v)]) s2"
    using assms(4-6) by (simp add: rpm_at_def s2_def s1_def rpm_store_def dict_modify_last dict_set_fresh)
  ultimately show ?thesis
    by blast
qed

section \<open>The properties of an object, the objects of an answer\<close>

abbreviation access_entry :: "int \<times> bytes option \<Rightarrow> result_reference \<times> property_access" where
  "access_entry r \<equiv> (case r of (pid, v) \<Rightarrow> ((Some pid, None), access_of v))"

lemma scan_properties:
  assumes "list_all valid_property properties" and "catR (map property_result properties) = Inr enc"
    and "drop p apdu = enc @ post" and "rpm_at rs key d s" and "key \<notin> fst ` set rs"
    and "distinct (map fst properties)" and "\<forall>pid \<in> fst ` set properties. (Some pid, None) \<notin> fst ` set d"
  shows "\<exists>s'. rpm_at rs key (d @ map access_entry properties) s' \<and>
    scan_to (rpm_step apdu) apdu p s = scan_to (rpm_step apdu) apdu (p + length enc) s'"
  using assms
proof (induction properties arbitrary: enc p d s)
  case Nil
  then show ?case by auto
next
  case (Cons r properties)
  obtain pid v where r: "r = (pid, v)"
    by (cases r)
  obtain a b where enc: "property_result (pid, v) = Inr a" "catR (map property_result properties) = Inr b" "enc = a @ b"
    using Cons.prems(2) by (auto simp: r bindR_Inr_iff)
  have d: "drop p apdu = a @ b @ post"
    using Cons.prems(3) enc(3) by simp
  have "valid_property (pid, v)" and "(Some pid, None) \<notin> fst ` set d"
    using Cons.prems(1,7) by (auto simp: r)
  from scan_property [OF this(1) enc(1) d Cons.prems(4,5) this(2)]
  obtain s1 where s1: "rpm_at rs key (d @ [((Some pid, None), access_of v)]) s1"
      "scan_to (rpm_step apdu) apdu p s = scan_to (rpm_step apdu) apdu (p + length a) s1"
    by blast
  have "\<exists>s'. rpm_at rs key ((d @ [((Some pid, None), access_of v)]) @ map access_entry properties) s' \<and>
      scan_to (rpm_step apdu) apdu (p + length a) s1 = scan_to (rpm_step apdu) apdu (p + length a + length b) s'"
    using Cons.prems(1,6,7) by (intro Cons.IH [OF _ enc(2) drop_after [OF d] s1(1) Cons.prems(5)]) (auto simp: r)
  then show ?case
    using s1(2) by (simp add: r enc(3) add.assoc)
qed

text \<open>An object of an answer and what is decoded of it.\<close>

type_synonym object_answer = "int \<times> int \<times> (int \<times> bytes option) list"

definition valid_object_answer :: "object_answer \<Rightarrow> bool" where
  "valid_object_answer r = (case r of (ot, i, properties) \<Rightarrow>
     valid_object_id ot i \<and> list_all valid_property properties \<and> distinct (map fst properties))"

abbreviation answer_key :: "object_answer \<Rightarrow> int \<times> int" where
  "answer_key r \<equiv> (case r of (ot, i, properties) \<Rightarrow> (ot, i))"

abbreviation decoded_object :: "object_answer \<Rightarrow> (int \<times> int) \<times> (result_reference \<times> property_access) list" where
  "decoded_object r \<equiv> (case r of (ot, i, properties) \<Rightarrow> ((ot, i), map access_entry properties))"

lemma property_results_ok:
  "list_all valid_property properties \<Longrightarrow> \<exists>enc. catR (map property_result properties) = Inr enc"
proof (induction properties)
  case (Cons r properties)
  obtain pid v where r: "r = (pid, v)"
    by (cases r)
  have "\<exists>enc. property_result r = Inr enc"
    using property_result_shape [of pid v "[]"] Cons.prems unfolding r by fastforce
  then show ?case
    using Cons by auto
qed simp

lemma object_results_shape:
  assumes "valid_object_answer (ot, i, properties)"
  obtains oid op encs cl where "object_results (ot, i, properties) = Inr (oid @ op @ encs @ cl)"
    and "encodes oid 0 True Value (object_id_content ot i)" and "encodes op 1 True Open []"
    and "catR (map property_result properties) = Inr encs" and "encodes cl 1 True Close []"
proof -
  have v: "valid_object_id ot i" "list_all valid_property properties"
    using assms by (auto simp: valid_object_answer_def)
  obtain oid where oid: "context_object_id 0 ot i = Inr oid" "encodes oid 0 True Value (object_id_content ot i)"
    by (rule object_parameter [OF v(1), of 0]) auto
  obtain op cl where br: "opening_tag 1 = Inr op" "closing_tag 1 = Inr cl"
      "encodes op 1 True Open []" "encodes cl 1 True Close []"
    by (rule bracket_parameter [of 1]) auto
  obtain encs where encs: "catR (map property_result properties) = Inr encs"
    using property_results_ok [OF v(2)] by blast
  have "object_results (ot, i, properties) = Inr (oid @ op @ encs @ cl)"
    unfolding object_results_def by (simp add: oid(1) br(1,2) encs catR_append)
  with that oid(2) br(3,4) encs show thesis
    by blast
qed

lemma scan_object:
  assumes "valid_object_answer (ot, i, properties)" and "object_results (ot, i, properties) = Inr enc"
    and "drop p apdu = enc @ post" and "(ot, i) \<notin> fst ` set (rpm_results s)"
  shows "\<exists>s'. rpm_results s' = rpm_results s @ [decoded_object (ot, i, properties)] \<and>
    scan_to (rpm_step apdu) apdu p s = scan_to (rpm_step apdu) apdu (p + length enc) s'"
proof -
  obtain oid op encs cl where enc: "enc = oid @ op @ encs @ cl"
    and oid: "encodes oid 0 True Value (object_id_content ot i)" and op: "encodes op 1 True Open []"
    and encs: "catR (map property_result properties) = Inr encs" and cl: "encodes cl 1 True Close []"
    by (rule object_results_shape [OF assms(1)]) (simp add: assms(2))
  have v: "valid_object_id ot i" "list_all valid_property properties" "distinct (map fst properties)"
    using assms(1) by (auto simp: valid_object_answer_def)
  have d: "drop p apdu = oid @ op @ encs @ cl @ post"
    using assms(3) enc by simp
  note d1 = drop_after [OF d]
  note d2 = drop_after [OF d1]
  note d3 = drop_after [OF d2]
  define s1 where "s1 = s\<lparr>rpm_results := rpm_results s @ [((ot, i), [])], rpm_current := Some (ot, i)\<rparr>"
  have at: "rpm_at (rpm_results s) (ot, i) [] s1"
    by (simp add: rpm_at_def s1_def)
  have "scan_to (rpm_step apdu) apdu p s = scan_to (rpm_step apdu) apdu (p + length oid) s1"
    using assms(4)
    by (intro scan_to_step [OF oid d])
      (simp_all add: rpm_step_def s1_def object_identifier_of_content [OF v(1)] dict_setdefault_fresh)
  also have "\<dots> = scan_to (rpm_step apdu) apdu (p + length oid + length op) s1"
    by (rule scan_to_step [OF op d1]) (simp_all add: rpm_step_def)
  finally have start: "scan_to (rpm_step apdu) apdu p s = scan_to (rpm_step apdu) apdu (p + length oid + length op) s1" .
  obtain s2 where s2: "rpm_at (rpm_results s) (ot, i) ([] @ map access_entry properties) s2"
      "scan_to (rpm_step apdu) apdu (p + length oid + length op) s1 =
       scan_to (rpm_step apdu) apdu (p + length oid + length op + length encs) s2"
    using scan_properties [OF v(2) encs d2 at assms(4) v(3)] by auto
  have "scan_to (rpm_step apdu) apdu (p + length oid + length op + length encs) s2 =
      scan_to (rpm_step apdu) apdu (p + length enc) s2"
    by (rule scan_to_step [OF cl d3]) (simp_all add: rpm_step_def enc add.assoc)
  then show ?thesis
    using start s2 by (intro exI [of _ s2]) (simp add: rpm_at_def)
qed

lemma scan_objects:
  assumes "list_all valid_object_answer results" and "catR (map object_results results) = Inr enc"
    and "drop p apdu = enc @ post" and "distinct (map answer_key results)"
    and "answer_key ` set results \<inter> fst ` set (rpm_results s) = {}"
  shows "\<exists>s'. rpm_results s' = rpm_results s @ map decoded_object results \<and>
    scan_to (rpm_step apdu) apdu p s = scan_to (rpm_step apdu) apdu (p + length enc) s'"
  using assms
proof (induction results arbitrary: enc p s)
  case Nil
  then show ?case by auto
next
  case (Cons r results)
  obtain ot i properties where r: "r = (ot, i, properties)"
    by (cases r)
  obtain a b where enc: "object_results (ot, i, properties) = Inr a" "catR (map object_results results) = Inr b" "enc = a @ b"
    using Cons.prems(2) by (auto simp: r bindR_Inr_iff)
  have d: "drop p apdu = a @ b @ post"
    using Cons.prems(3) enc(3) by simp
  have "valid_object_answer (ot, i, properties)" and "(ot, i) \<notin> fst ` set (rpm_results s)"
    using Cons.prems(1,5) by (auto simp: r)
  from scan_object [OF this(1) enc(1) d this(2)]
  obtain s1 where s1: "rpm_results s1 = rpm_results s @ [decoded_object (ot, i, properties)]"
      "scan_to (rpm_step apdu) apdu p s = scan_to (rpm_step apdu) apdu (p + length a) s1"
    by blast
  have "\<exists>s'. rpm_results s' = rpm_results s1 @ map decoded_object results \<and>
      scan_to (rpm_step apdu) apdu (p + length a) s1 = scan_to (rpm_step apdu) apdu (p + length a + length b) s'"
    using Cons.prems(1,4,5) s1(1) by (intro Cons.IH [OF _ enc(2) drop_after [OF d]]) (auto simp: r)
  then show ?case
    using s1 by (simp add: r enc(3) add.assoc)
qed

lemma object_answers_ok:
  "list_all valid_object_answer results \<Longrightarrow> \<exists>enc. catR (map object_results results) = Inr enc"
proof (induction results)
  case (Cons r results)
  obtain ot i properties where r: "r = (ot, i, properties)"
    by (cases r)
  have "\<exists>enc. object_results r = Inr enc"
    using object_results_shape [of ot i properties] Cons.prems unfolding r by fastforce
  then show ?case
    using Cons by auto
qed simp

lemma read_property_multiple_ack_shape:
  assumes "is_octet iid" and "list_all valid_object_answer results"
  obtains enc where "read_property_multiple_ack iid results = Inr ([0x30, word_of_int iid, 14] @ enc)"
    and "catR (map object_results results) = Inr enc"
  using object_answers_ok [OF assms(2)] assms(1) that
  by (auto simp: read_property_multiple_ack_def bytes_of_def is_octet_def)

text \<open>A frame that carries the ComplexACK.\<close>

lemma rpm_ack_parses:
  assumes "is_octet iid" and "list_all valid_object_answer results" and "distinct (map answer_key results)"
    and "read_property_multiple_ack iid results = Inr apdu" and "network_message f = None" and "payload f = apdu"
  shows "parse_read_property_multiple_ack (Some f) = Inr (Some (map decoded_object results))"
proof -
  obtain enc where apdu: "apdu = [0x30, word_of_int iid, 14] @ enc" and enc: "catR (map object_results results) = Inr enc"
    by (rule read_property_multiple_ack_shape [OF assms(1,2)]) (simp add: assms(4))
  have "complex_ack (Some f) (Some 14) = Inr (Some apdu)"
    using assms(5,6) apdu by (simp add: complex_ack_def service_def pdu_type_def drop_bit_eq_div)
  moreover obtain s' where "rpm_results s' = map decoded_object results"
      "scan_to (rpm_step apdu) apdu 3 \<lparr>rpm_results = [], rpm_current = None, rpm_property = None, rpm_index = None\<rparr> = Inr s'"
    using scan_objects [OF assms(2) enc, of 3 apdu "[]"
        "\<lparr>rpm_results = [], rpm_current = None, rpm_property = None, rpm_index = None\<rparr>"] assms(3)
    by (auto simp: apdu scan_to_end)
  ultimately show ?thesis
    by (simp add: parse_read_property_multiple_ack_def on_ack_def)
qed

end
