(* ===== verification/Exchange_Multiple.thy ===== *)
theory Exchange_Multiple
  imports Exchange Services_Multiple
begin

text \<open>
  A ReadPropertyMultiple from end to end: the client's request, the server's reading of the specifications,
  the values it serves, and the dict the client makes of the answer. One answer is a snapshot: every value in
  it is the one the server held in the same state.
\<close>

section \<open>What the server answers\<close>

definition snapshot :: "(nat \<Rightarrow> bytes) \<Rightarrow> 'a server_scheme \<Rightarrow> (int \<times> int \<times> property_reference list) list \<Rightarrow> object_answer list" where
  "snapshot env s specs =
     map (\<lambda>(ot, inst, rs). (ot, inst, map (\<lambda>r. (reference_property r, server_value env s ot inst (reference_property r))) rs)) specs"

text \<open>A request the server can answer in one frame: distinct objects, distinct properties of each, values that are
  whole tags.\<close>

definition snapshot_ok :: "(nat \<Rightarrow> bytes) \<Rightarrow> 'a server_scheme \<Rightarrow> (int \<times> int \<times> property_reference list) list \<Rightarrow> bool" where
  "snapshot_ok env s specs \<longleftrightarrow>
     list_all valid_specification specs \<and> distinct (map spec_key specs) \<and>
     list_all (\<lambda>(ot, inst, rs). distinct (map reference_property rs) \<and>
       list_all (\<lambda>r. pred_option well_tagged (server_value env s ot inst (reference_property r))) rs) specs"

lemma snapshot_valid:
  assumes "snapshot_ok env s specs"
  shows "list_all valid_object_answer (snapshot env s specs)" and "distinct (map answer_key (snapshot env s specs))"
proof -
  show "list_all valid_object_answer (snapshot env s specs)"
    using assms
    by (fastforce simp: snapshot_ok_def snapshot_def list_all_iff valid_object_answer_def valid_property_def
        valid_specification_def valid_reference_def comp_def)
  have "map answer_key (snapshot env s specs) = map spec_key specs"
    by (auto simp: snapshot_def)
  then show "distinct (map answer_key (snapshot env s specs))"
    using assms by (simp add: snapshot_ok_def)
qed

lemma server_answer_multiple:
  assumes "confirmed_frame f i SERVICE_READ_PROPERTY_MULTIPLE parameters" and "serving s"
  shows "server_answer env f s = read_multiple env f s"
  using confirmed_frame_fields [OF assms(1)] assms(2)
  by (simp add: server_answer_def serving_def)

lemma read_multiple_snapshot:
  assumes "confirmed_frame f i SERVICE_READ_PROPERTY_MULTIPLE parameters"
    and "read_access_specifications parameters = Inr (map decoded_spec specs)"
    and "read_property_multiple_ack i (snapshot env s specs) = Inr ack"
  shows "read_multiple env f s =
    (Inr (Some ack), log_read SERVICE_READ_PROPERTY_MULTIPLE (map (\<lambda>(ot, inst, rs). (ot, inst, map reference_property rs)) specs) s)"
proof -
  let ?log = "log_read SERVICE_READ_PROPERTY_MULTIPLE (map (\<lambda>(ot, inst, rs). (ot, inst, map reference_property rs)) specs)"
  have "drop 4 (payload f) = parameters"
    using assms(1) by (simp add: confirmed_frame_def)
  moreover have "map (\<lambda>((ot, inst), ps). (ot, inst, ps)) (map decoded_spec specs) =
      map (\<lambda>(ot, inst, rs). (ot, inst, map reference_property rs)) specs"
    by auto
  moreover have "server_value env (?log s) = server_value env s"
    by (simp add: server_value_def stored_property_def log_read_def fun_eq_iff)
  then have "map (\<lambda>((ot, inst), ps). (ot, inst, map (\<lambda>pid. (pid, server_value env (?log s) ot inst pid)) ps)) (map decoded_spec specs) =
      snapshot env s specs"
    by (auto simp: snapshot_def)
  ultimately show ?thesis
    using assms(2) with_invoke_id_ok [OF assms(1), of "\<lambda>inv. read_property_multiple_ack inv (snapshot env s specs)" ack "?log s"] assms(3)
    unfolding read_multiple_def by (simp only: liftS_apply bindS_liftS bindS_modify bindS_get)
qed

section \<open>From end to end\<close>

lemma multiple_request_shape:
  assumes "is_octet i" and "read_property_multiple_request i specs = Inr apdu" and "snapshot_ok env s specs"
  obtains parameters where "apdu = [0, 5, word_of_int i, word_of_int SERVICE_READ_PROPERTY_MULTIPLE] @ parameters"
    and "read_access_specifications parameters = Inr (map decoded_spec specs)"
proof -
  have v: "list_all valid_specification specs" "distinct (map spec_key specs)"
    using assms(3) by (simp_all add: snapshot_ok_def)
  obtain parameters where p: "catR (map encode_spec specs) = Inr parameters"
    using encode_specs_ok [OF v(1)] by blast
  have "apdu = [0, 5, word_of_int i, word_of_int 14] @ parameters"
    using assms(2) confirmed_request_ok [OF assms(1), of 14 parameters] p
    by (simp add: read_property_multiple_request_def is_octet_def)
  moreover have "read_access_specifications parameters = Inr (map decoded_spec specs)"
    using read_access_specifications_roundtrip [OF v] p by simp
  ultimately show thesis
    using that by blast
qed

lemma exchange_multiple:
  assumes "is_octet i" and "serving s" and "snapshot_ok env s specs"
    and "read_property_multiple_request i specs = Inr apdu" and "length apdu < 65000"
    and "read_property_multiple_ack i (snapshot env s specs) = Inr ack" and "length ack < 65000"
  obtains g t where "exchange env me peer apdu s = (Inr (Some g), t)" and "answers i g = Inr True"
    and "parse_read_property_multiple_ack (Some g) = Inr (Some (map decoded_object (snapshot env s specs)))"
    and "served_data t = served_data s"
proof -
  obtain parameters where apdu: "apdu = [0, 5, word_of_int i, word_of_int SERVICE_READ_PROPERTY_MULTIPLE] @ parameters"
    and p: "read_access_specifications parameters = Inr (map decoded_spec specs)"
    by (rule multiple_request_shape [OF assms(1,4,3)])
  have octet: "is_octet SERVICE_READ_PROPERTY_MULTIPLE"
    by (simp add: is_octet_def)
  let ?t = "\<lambda>f. log_read SERVICE_READ_PROPERTY_MULTIPLE (map (\<lambda>(ot, inst, rs). (ot, inst, map reference_property rs)) specs)
    (keep_frame False f s)"
  have ans: "server_answer env f (keep_frame False f s) = (Inr (Some ack), ?t f)"
    if f: "confirmed_frame f i SERVICE_READ_PROPERTY_MULTIPLE parameters" for f
  proof -
    have "server_answer env f (keep_frame False f s) = read_multiple env f (keep_frame False f s)"
      using assms(2) by (intro server_answer_multiple [OF f]) (simp add: serving_def)
    moreover have "snapshot env (keep_frame False f s) specs = snapshot env s specs"
      by (simp add: snapshot_def)
    ultimately show ?thesis
      using read_multiple_snapshot [OF f p, of env "keep_frame False f s" ack] assms(6) by simp
  qed
  obtain f g where g: "exchange env me peer apdu s = (Inr (Some g), ?t f)" "network_message g = None" "payload g = ack"
    using exchange_answer [OF apdu assms(1) octet assms(5) ans assms(7), of me peer] by blast
  obtain enc where ack: "ack = [0x30, word_of_int i, 14] @ enc"
    by (rule read_property_multiple_ack_shape [OF assms(1) snapshot_valid(1) [OF assms(3)]]) (simp add: assms(6))
  note parsed = rpm_ack_parses [OF assms(1) snapshot_valid [OF assms(3)] assms(6) g(2,3)]
  show thesis
    using that [OF g(1)] answer_frame_fields(3) [of g 3 i "14 # enc"] g(2,3) ack assms(1) parsed by simp
qed

end
