(* ===== verification/Services_Cov.thy ===== *)
theory Services_Cov
  imports Services_Multiple
begin

text \<open>
  COVNotificationMultiple: the production of the standard (clause 21) that the constructor of
  \<open>CovNotificationMultiple\<close> decodes, written with the codec's encoders, and its decoding: the subscription's
  fields, and every reported value in order with the object, the property and the array index it belongs to.
\<close>

section \<open>The production\<close>

type_synonym cov_entry = "int \<times> int option \<times> bytes"
type_synonym cov_object = "int \<times> int \<times> cov_entry list"

definition cov_entry_octets :: "cov_entry \<Rightarrow> bytes result" where
  "cov_entry_octets e = (case e of (pid, index, v) \<Rightarrow>
     catR [context_unsigned 0 pid, optional (context_unsigned 1) index, opening_tag 2, Inr v, closing_tag 2])"

definition cov_object_octets :: "cov_object \<Rightarrow> bytes result" where
  "cov_object_octets r = (case r of (ot, i, entries) \<Rightarrow>
     catR ([context_object_id 0 ot i, opening_tag 1] @ map cov_entry_octets entries @ [closing_tag 1]))"

definition cov_parameters :: "int \<Rightarrow> int \<times> int \<Rightarrow> int \<Rightarrow> cov_object list \<Rightarrow> bytes result" where
  "cov_parameters process dev remaining reported =
     catR ([context_unsigned 0 process, context_object_id 1 (fst dev) (snd dev), context_unsigned 2 remaining, opening_tag 4] @
           map cov_object_octets reported @ [closing_tag 4])"

definition valid_entry :: "cov_entry \<Rightarrow> bool" where
  "valid_entry e = (case e of (pid, index, v) \<Rightarrow> is_unsigned pid \<and> pred_option is_unsigned index \<and> well_tagged v)"

definition valid_cov_object :: "cov_object \<Rightarrow> bool" where
  "valid_cov_object r = (case r of (ot, i, entries) \<Rightarrow> valid_object_id ot i \<and> list_all valid_entry entries)"

definition entry_value :: "int \<times> int \<Rightarrow> cov_entry \<Rightarrow> (int \<times> int) option \<times> int option \<times> int option \<times> bytes" where
  "entry_value key e = (case e of (pid, index, v) \<Rightarrow> (Some key, Some pid, index, v))"

definition reported_values :: "cov_object \<Rightarrow> ((int \<times> int) option \<times> int option \<times> int option \<times> bytes) list" where
  "reported_values r = (case r of (ot, i, entries) \<Rightarrow> map (entry_value (ot, i)) entries)"

section \<open>Decoding\<close>

abbreviation cov_scan :: "bytes \<Rightarrow> nat \<Rightarrow> cov_state \<Rightarrow> cov_state result" where
  "cov_scan octets \<equiv> scan_to (cov_step octets) octets"

lemma cov_entry_shape:
  assumes "valid_entry (pid, index, v)"
  obtains pe ie op cl where "cov_entry_octets (pid, index, v) = Inr (pe @ ie @ op @ v @ cl)"
    and "encodes pe 0 True Value (int_content pid)" and "encodes_optional ie 1 index"
    and "encodes op 2 True Open []" and "encodes cl 2 True Close []"
proof -
  have v: "is_unsigned pid" "pred_option is_unsigned index"
    using assms by (auto simp: valid_entry_def)
  obtain pe where pe: "context_unsigned 0 pid = Inr pe" "encodes pe 0 True Value (int_content pid)"
    by (rule unsigned_parameter [OF v(1), of 0]) auto
  obtain ie where ie: "optional (context_unsigned 1) index = Inr ie" "encodes_optional ie 1 index"
    by (rule optional_parameter [OF v(2), of 1]) auto
  obtain op cl where br: "opening_tag 2 = Inr op" "closing_tag 2 = Inr cl"
      "encodes op 2 True Open []" "encodes cl 2 True Close []"
    by (rule bracket_parameter [of 2]) auto
  show thesis
    using that pe ie br by (simp add: cov_entry_octets_def)
qed

text \<open>One reported value, at depth 2.\<close>

lemma scan_entry:
  assumes "valid_entry (pid, index, v)" and "cov_entry_octets (pid, index, v) = Inr enc" and "drop p octets = enc @ post"
    and "cov_depth s = 2" and "cov_index s = None"
  shows "cov_scan octets p s = cov_scan octets (p + length enc)
    (s\<lparr>cov_values := cov_values s @ [(cov_monitored s, Some pid, index, v)], cov_property := Some pid\<rparr>)"
proof -
  obtain pe ie op cl where enc: "enc = pe @ ie @ op @ v @ cl" and pe: "encodes pe 0 True Value (int_content pid)"
    and ie: "encodes_optional ie 1 index" and op: "encodes op 2 True Open []" and cl: "encodes cl 2 True Close []"
    by (rule cov_entry_shape [OF assms(1)]) (simp add: assms(2))
  have val: "is_unsigned pid" "pred_option is_unsigned index" "well_tagged v"
    using assms(1) by (auto simp: valid_entry_def)
  have d0: "drop p octets = pe @ ie @ op @ v @ cl @ post"
    using assms(3) enc by simp
  note d1 = drop_after [OF d0]
  note d2 = drop_after [OF d1]
  note d3 = drop_after [OF d2]
  let ?s1 = "s\<lparr>cov_property := Some pid\<rparr>"
  let ?s2 = "?s1\<lparr>cov_index := index\<rparr>"
  have "cov_scan octets p s = cov_scan octets (p + length pe) ?s1"
    using assms(4) by (intro scan_to_step [OF pe d0]) (simp_all add: cov_step_def is_unsigned_content [OF val(1)])
  also have "\<dots> = cov_scan octets (p + length pe + length ie) ?s2"
  proof (cases index)
    case None
    then have "ie = []" and "?s2 = ?s1"
      using ie assms(5) by (simp_all add: encodes_optional_def)
    then show ?thesis by simp
  next
    case (Some j)
    then have e: "encodes ie 1 True Value (int_content j)" and "is_unsigned j"
      using ie val(2) by (auto simp: encodes_optional_def)
    then show ?thesis
      using assms(4) Some by (intro scan_to_step [OF e d1]) (simp_all add: cov_step_def is_unsigned_content)
  qed
  also have "\<dots> = cov_scan octets (p + length enc)
      (?s2\<lparr>cov_values := cov_values ?s2 @ [(cov_monitored ?s2, cov_property ?s2, cov_index ?s2, v)], cov_index := None\<rparr>)"
    using assms(4) constructed_body_value [OF val(3) d3 cl]
    by (intro scan_to_step [OF op d2]) (simp_all add: cov_step_def enc add.assoc)
  also have "?s2\<lparr>cov_values := cov_values ?s2 @ [(cov_monitored ?s2, cov_property ?s2, cov_index ?s2, v)], cov_index := None\<rparr> =
      s\<lparr>cov_values := cov_values s @ [(cov_monitored s, Some pid, index, v)], cov_property := Some pid\<rparr>"
    using assms(5) by simp
  finally show ?thesis .
qed

text \<open>What the scan of a group leaves: the values reported so far, and the loop's variables as they were.\<close>

definition cov_extends :: "cov_state \<Rightarrow> ((int \<times> int) option \<times> int option \<times> int option \<times> bytes) list \<Rightarrow> cov_state \<Rightarrow> bool" where
  "cov_extends s vs s' \<longleftrightarrow>
     cov_values s' = cov_values s @ vs \<and> cov_depth s' = cov_depth s \<and> cov_index s' = None \<and>
     cov_frame s' = cov_frame s \<and> cov_confirmed s' = cov_confirmed s \<and> cov_process_identifier s' = cov_process_identifier s \<and>
     cov_initiating_device s' = cov_initiating_device s \<and> cov_time_remaining s' = cov_time_remaining s"

lemma cov_extends_trans: "cov_extends s vs s' \<Longrightarrow> cov_extends s' ws s'' \<Longrightarrow> cov_extends s (vs @ ws) s''"
  by (simp add: cov_extends_def)

lemma scan_entries:
  assumes "list_all valid_entry entries" and "catR (map cov_entry_octets entries) = Inr enc"
    and "drop p octets = enc @ post" and "cov_depth s = 2" and "cov_index s = None" and "cov_monitored s = Some key"
  shows "\<exists>s'. cov_extends s (map (entry_value key) entries) s' \<and>
    cov_scan octets p s = cov_scan octets (p + length enc) s'"
  using assms
proof (induction entries arbitrary: enc p s)
  case Nil
  then show ?case
    by (auto simp: cov_extends_def)
next
  case (Cons e entries)
  obtain pid index v where e: "e = (pid, index, v)"
    by (cases e)
  obtain a b where enc: "cov_entry_octets (pid, index, v) = Inr a" "catR (map cov_entry_octets entries) = Inr b" "enc = a @ b"
    using Cons.prems(2) by (auto simp: e bindR_Inr_iff)
  have d: "drop p octets = a @ b @ post"
    using Cons.prems(3) enc(3) by simp
  let ?s1 = "s\<lparr>cov_values := cov_values s @ [(cov_monitored s, Some pid, index, v)], cov_property := Some pid\<rparr>"
  have first: "cov_scan octets p s = cov_scan octets (p + length a) ?s1" "cov_extends s [entry_value key e] ?s1"
    using scan_entry [OF _ enc(1) d Cons.prems(4,5)] Cons.prems by (simp_all add: e cov_extends_def entry_value_def)
  have "list_all valid_entry entries" "cov_depth ?s1 = 2" "cov_index ?s1 = None" "cov_monitored ?s1 = Some key"
    using Cons.prems by simp_all
  from Cons.IH [OF this(1) enc(2) drop_after [OF d] this(2-4)]
  obtain s' where "cov_extends ?s1 (map (entry_value key) entries) s'"
      "cov_scan octets (p + length a) ?s1 = cov_scan octets (p + length a + length b) s'"
    by blast
  then show ?case
    using first(1) cov_extends_trans [OF first(2)] by (intro exI [of _ s']) (simp add: enc(3) add.assoc)
qed

lemma catR_mapI: "(\<And>x. x \<in> set xs \<Longrightarrow> \<exists>enc. f x = Inr enc) \<Longrightarrow> \<exists>enc. catR (map f xs) = Inr enc"
  by (induction xs) fastforce+

lemma scan_cov_object:
  assumes "valid_cov_object r" and "cov_object_octets r = Inr enc" and "drop p octets = enc @ post"
    and "cov_depth s = 1" and "cov_index s = None"
  shows "\<exists>s'. cov_extends s (reported_values r) s' \<and> cov_scan octets p s = cov_scan octets (p + length enc) s'"
proof -
  obtain ot i entries where r: "r = (ot, i, entries)"
    by (cases r)
  have v: "valid_object_id ot i" "list_all valid_entry entries"
    using assms(1) by (auto simp: valid_cov_object_def r)
  obtain oid where oid: "context_object_id 0 ot i = Inr oid" "encodes oid 0 True Value (object_id_content ot i)"
    by (rule object_parameter [OF v(1), of 0]) auto
  obtain op cl where br: "opening_tag 1 = Inr op" "closing_tag 1 = Inr cl"
      "encodes op 1 True Open []" "encodes cl 1 True Close []"
    by (rule bracket_parameter [of 1]) auto
  obtain encs where encs: "catR (map cov_entry_octets entries) = Inr encs" "enc = oid @ op @ encs @ cl"
    using assms(2) by (auto simp: cov_object_octets_def r oid(1) br(1,2) catR_append bindR_Inr_iff)
  have d0: "drop p octets = oid @ op @ encs @ cl @ post"
    using assms(3) encs(2) by simp
  note d1 = drop_after [OF d0]
  note d2 = drop_after [OF d1]
  note d3 = drop_after [OF d2]
  let ?s1 = "s\<lparr>cov_monitored := Some (ot, i)\<rparr>"
  let ?s2 = "?s1\<lparr>cov_depth := 2\<rparr>"
  have "cov_scan octets p s = cov_scan octets (p + length oid) ?s1"
    using assms(4) by (intro scan_to_step [OF oid(2) d0]) (simp_all add: cov_step_def object_identifier_of_content [OF v(1)])
  also have "\<dots> = cov_scan octets (p + length oid + length op) ?s2"
    using assms(4) by (intro scan_to_step [OF br(3) d1]) (simp_all add: cov_step_def)
  finally have start: "cov_scan octets p s = cov_scan octets (p + length oid + length op) ?s2" .
  obtain s3 where s3: "cov_extends ?s2 (reported_values r) s3"
      "cov_scan octets (p + length oid + length op) ?s2 = cov_scan octets (p + length oid + length op + length encs) s3"
    using scan_entries [OF v(2) encs(1) d2, of ?s2 "(ot, i)"] assms(5) by (auto simp: reported_values_def r)
  have "cov_scan octets (p + length oid + length op + length encs) s3 = cov_scan octets (p + length enc) (s3\<lparr>cov_depth := 1\<rparr>)"
    using s3(1) by (intro scan_to_step [OF br(4) d3]) (simp_all add: cov_step_def cov_extends_def encs(2) add.assoc)
  then show ?thesis
    using start s3 assms(4) by (intro exI [of _ "s3\<lparr>cov_depth := 1\<rparr>"]) (simp add: cov_extends_def)
qed

lemma scan_cov_objects:
  assumes "list_all valid_cov_object reported" and "catR (map cov_object_octets reported) = Inr enc"
    and "drop p octets = enc @ post" and "cov_depth s = 1" and "cov_index s = None"
  shows "\<exists>s'. cov_extends s (concat (map reported_values reported)) s' \<and> cov_scan octets p s = cov_scan octets (p + length enc) s'"
  using assms
proof (induction reported arbitrary: enc p s)
  case Nil
  then show ?case
    by (auto simp: cov_extends_def)
next
  case (Cons r reported)
  obtain a b where enc: "cov_object_octets r = Inr a" "catR (map cov_object_octets reported) = Inr b" "enc = a @ b"
    using Cons.prems(2) by (auto simp: bindR_Inr_iff)
  have d: "drop p octets = a @ b @ post"
    using Cons.prems(3) enc(3) by simp
  have "valid_cov_object r"
    using Cons.prems(1) by simp
  from scan_cov_object [OF this enc(1) d Cons.prems(4,5)]
  obtain s1 where s1: "cov_extends s (reported_values r) s1" "cov_scan octets p s = cov_scan octets (p + length a) s1"
    by blast
  have "list_all valid_cov_object reported" "cov_depth s1 = 1" "cov_index s1 = None"
    using Cons.prems s1(1) by (simp_all add: cov_extends_def)
  from Cons.IH [OF this(1) enc(2) drop_after [OF d] this(2,3)]
  obtain s2 where "cov_extends s1 (concat (map reported_values reported)) s2"
      "cov_scan octets (p + length a) s1 = cov_scan octets (p + length a + length b) s2"
    by blast
  then show ?case
    using s1(2) cov_extends_trans [OF s1(1)] by (intro exI [of _ s2]) (simp add: enc(3) add.assoc)
qed

section \<open>The whole notification\<close>

lemma cov_objects_ok: "list_all valid_cov_object reported \<Longrightarrow> \<exists>enc. catR (map cov_object_octets reported) = Inr enc"
proof (rule catR_mapI)
  fix r
  assume "list_all valid_cov_object reported" and "r \<in> set reported"
  then obtain ot i entries where r: "r = (ot, i, entries)" "valid_object_id ot i" "list_all valid_entry entries"
    by (cases r) (auto simp: list_all_iff valid_cov_object_def)
  have "\<exists>encs. catR (map cov_entry_octets entries) = Inr encs"
  proof (rule catR_mapI)
    fix e
    assume "e \<in> set entries"
    with r(3) have "valid_entry e"
      by (simp add: list_all_iff)
    then show "\<exists>enc. cov_entry_octets e = Inr enc"
      by (cases e) (auto elim: cov_entry_shape)
  qed
  then show "\<exists>enc. cov_object_octets r = Inr enc"
    using context_object_id_ok [of 0 ot i] opening_tag_ok [of 1] closing_tag_ok [of 1] r(2)
    by (auto simp: r(1) cov_object_octets_def catR_append)
qed

text \<open>The fields of the subscription, up to the opening tag of the list.\<close>

definition cov_subscription :: "frame \<Rightarrow> int \<Rightarrow> int \<times> int \<Rightarrow> int \<Rightarrow> cov_state" where
  "cov_subscription f process dev remaining =
     (cov_initial f False)\<lparr>cov_process_identifier := Some process, cov_initiating_device := Some dev,
       cov_time_remaining := Some remaining, cov_depth := 1\<rparr>"

lemma scan_subscription:
  assumes "is_unsigned process" and "valid_object_id (fst dev) (snd dev)" and "is_unsigned remaining"
    and "encodes e0 0 True Value (int_content process)" and "encodes e1 1 True Value (object_id_content (fst dev) (snd dev))"
    and "encodes e2 2 True Value (int_content remaining)" and "encodes op 4 True Open []"
    and "octets = e0 @ e1 @ e2 @ op @ rest"
  shows "cov_scan octets 0 (cov_initial f False) =
    cov_scan octets (length e0 + length e1 + length e2 + length op) (cov_subscription f process dev remaining)"
proof -
  have d0: "drop 0 octets = e0 @ e1 @ e2 @ op @ rest"
    by (simp add: assms(8))
  note d1 = drop_after [OF d0]
  note d2 = drop_after [OF d1]
  note d3 = drop_after [OF d2]
  let ?s0 = "cov_initial f False"
  let ?s1 = "?s0\<lparr>cov_process_identifier := Some process\<rparr>"
  let ?s2 = "?s1\<lparr>cov_initiating_device := Some dev\<rparr>"
  let ?s3 = "?s2\<lparr>cov_time_remaining := Some remaining\<rparr>"
  have dev: "object_identifier_of (object_id_content (fst dev) (snd dev)) = Inr dev"
    using object_identifier_of_content [OF assms(2)] by simp
  have "cov_scan octets 0 ?s0 = cov_scan octets (0 + length e0) ?s1"
    by (rule scan_to_step [OF assms(4) d0]) (simp_all add: cov_step_def cov_initial_def is_unsigned_content [OF assms(1)])
  also have "\<dots> = cov_scan octets (0 + length e0 + length e1) ?s2"
    by (rule scan_to_step [OF assms(5) d1]) (simp_all add: cov_step_def cov_initial_def dev)
  also have "\<dots> = cov_scan octets (0 + length e0 + length e1 + length e2) ?s3"
    by (rule scan_to_step [OF assms(6) d2]) (simp_all add: cov_step_def cov_initial_def is_unsigned_content [OF assms(3)])
  also have "\<dots> = cov_scan octets (0 + length e0 + length e1 + length e2 + length op) (cov_subscription f process dev remaining)"
    by (rule scan_to_step [OF assms(7) d3]) (simp_all add: cov_step_def cov_initial_def cov_subscription_def)
  finally show ?thesis
    by simp
qed

definition decoded_cov :: "frame \<Rightarrow> int \<Rightarrow> int \<times> int \<Rightarrow> int \<Rightarrow> cov_object list \<Rightarrow> cov_notification" where
  "decoded_cov f process dev remaining reported =
     \<lparr>cov_frame = f, cov_confirmed = False, cov_process_identifier = Some process, cov_initiating_device = Some dev,
      cov_time_remaining = Some remaining, cov_values = concat (map reported_values reported)\<rparr>"

text \<open>The list and its closing tag, after which the octets end.\<close>

lemma scan_reported:
  assumes "list_all valid_cov_object reported" and "catR (map cov_object_octets reported) = Inr encs"
    and "encodes cl 4 True Close []" and "drop p octets = encs @ cl" and "p \<le> length octets"
  shows "\<exists>s. cov_scan octets p (cov_subscription f process dev remaining) = Inr s \<and>
    cov_notification.truncate s = decoded_cov f process dev remaining reported"
proof -
  let ?s = "cov_subscription f process dev remaining"
  have "cov_depth ?s = 1" "cov_index ?s = None"
    by (simp_all add: cov_subscription_def cov_initial_def)
  from scan_cov_objects [OF assms(1,2,4) this]
  obtain s5 where s5: "cov_extends ?s (concat (map reported_values reported)) s5"
      "cov_scan octets p ?s = cov_scan octets (p + length encs) s5"
    by blast
  have d: "drop (p + length encs) octets = cl @ []"
    using drop_after [OF assms(4)] by simp
  have "cov_scan octets (p + length encs) s5 = cov_scan octets (p + length encs + length cl) (s5\<lparr>cov_depth := 0\<rparr>)"
    using s5(1) by (intro scan_to_step [OF assms(3) d])
      (simp_all add: cov_step_def cov_extends_def cov_subscription_def cov_initial_def)
  also have "\<dots> = Inr (s5\<lparr>cov_depth := 0\<rparr>)"
    using arg_cong [OF assms(4), of length] assms(5) by (intro scan_to_end) simp
  finally have "cov_scan octets p ?s = Inr (s5\<lparr>cov_depth := 0\<rparr>)"
    using s5(2) by simp
  moreover have "cov_notification.truncate (s5\<lparr>cov_depth := 0\<rparr>) = decoded_cov f process dev remaining reported"
    using s5(1) by (simp add: cov_extends_def cov_notification.truncate_def cov_subscription_def cov_initial_def decoded_cov_def)
  ultimately show ?thesis
    by blast
qed

lemma cov_parameters_decode:
  assumes "is_unsigned process" and "valid_object_id (fst dev) (snd dev)" and "is_unsigned remaining"
    and "list_all valid_cov_object reported"
  shows "\<exists>octets. cov_parameters process dev remaining reported = Inr octets \<and>
    (\<forall>f. network_message f = None \<and> payload f = [0x10, 11] @ octets \<longrightarrow>
      CovNotificationMultiple f = Inr (decoded_cov f process dev remaining reported))"
proof -
  obtain e0 where e0: "context_unsigned 0 process = Inr e0" "encodes e0 0 True Value (int_content process)"
    by (rule unsigned_parameter [OF assms(1), of 0]) auto
  obtain e1 where e1: "context_object_id 1 (fst dev) (snd dev) = Inr e1"
      "encodes e1 1 True Value (object_id_content (fst dev) (snd dev))"
    by (rule object_parameter [OF assms(2), of 1]) auto
  obtain e2 where e2: "context_unsigned 2 remaining = Inr e2" "encodes e2 2 True Value (int_content remaining)"
    by (rule unsigned_parameter [OF assms(3), of 2]) auto
  obtain op cl where br: "opening_tag 4 = Inr op" "closing_tag 4 = Inr cl"
      "encodes op 4 True Open []" "encodes cl 4 True Close []"
    by (rule bracket_parameter [of 4]) auto
  obtain encs where encs: "catR (map cov_object_octets reported) = Inr encs"
    using cov_objects_ok [OF assms(4)] by blast
  define octets where "octets = e0 @ e1 @ e2 @ op @ encs @ cl"
  let ?p = "length e0 + length e1 + length e2 + length op"
  have "drop ?p octets = encs @ cl" and "?p \<le> length octets"
    by (simp_all add: octets_def)
  from scan_reported [OF assms(4) encs br(4) this]
  have "\<exists>s. cov_scan octets 0 (cov_initial f False) = Inr s \<and>
      cov_notification.truncate s = decoded_cov f process dev remaining reported" for f
    unfolding scan_subscription [OF assms(1-3) e0(2) e1(2) e2(2) br(3) octets_def] .
  then obtain s where s: "cov_scan octets 0 (cov_initial f False) = Inr (s f)"
      "cov_notification.truncate (s f) = decoded_cov f process dev remaining reported" for f
    by metis
  have "CovNotificationMultiple f = Inr (decoded_cov f process dev remaining reported)"
    if "network_message f = None" "payload f = [0x10, 11] @ octets" for f
    using that s by (simp add: CovNotificationMultiple_def pdu_type_def drop_bit_eq_div)
  moreover have "cov_parameters process dev remaining reported = Inr octets"
    by (simp add: cov_parameters_def e0(1) e1(1) e2(1) br(1,2) encs catR_append octets_def)
  ultimately show ?thesis
    by blast
qed

end
