(* ===== verification/Services_Values.thy ===== *)
theory Services_Values
  imports Services_Multiple
begin

text \<open>
  The constructed values of \<open>wiretest/services.py\<close> and the answers of the file services.
  \<open>encodes_fields\<close> is a sequence of context-tagged primitives; it is closed under concatenation, so the round trip
  of a value with optional fields is the concatenation of those of its fields.
\<close>

section \<open>Sequences of context-tagged primitives\<close>

definition encodes_fields :: "bytes \<Rightarrow> (int \<times> bytes) list \<Rightarrow> bool" where
  "encodes_fields enc vs \<longleftrightarrow> (\<exists>encs. enc = concat encs \<and> list_all2 (\<lambda>e (n, b). encodes e n True Value b) encs vs)"

lemma encodes_fields_Nil [simp]: "encodes_fields [] []"
  by (auto simp: encodes_fields_def)

lemma encodes_fields_single: "encodes enc n True Value b \<Longrightarrow> encodes_fields enc [(n, b)]"
  unfolding encodes_fields_def by (intro exI [of _ "[enc]"]) simp

lemma encodes_fields_append: "encodes_fields a vs \<Longrightarrow> encodes_fields b ws \<Longrightarrow> encodes_fields (a @ b) (vs @ ws)"
  unfolding encodes_fields_def using list_all2_appendI concat_append [symmetric] by blast

text \<open>A scan over such a sequence whose turns do not fail folds them over the fields.\<close>

lemma scan_fields:
  assumes "\<And>start n b q s. body start (n, True, Value, b, q) s = g (n, b) s"
    and "encodes_fields enc vs" and "drop p data = enc @ post"
  shows "scan_tags body data p s = bindR (foldR g vs s) (scan_tags body data (p + length enc))"
proof -
  obtain encs where encs: "enc = concat encs" "list_all2 (\<lambda>e (n, b). encodes e n True Value b) encs vs"
    using assms(2) by (auto simp: encodes_fields_def)
  from encs(2) assms(3) [unfolded encs(1)] show ?thesis
    unfolding encs(1)
  proof (induction encs vs arbitrary: p s rule: list_all2_induct)
    case Nil
    then show ?case by simp
  next
    case (Cons e encs v vs)
    obtain n b where v: "v = (n, b)"
      by (cases v)
    have e: "encodes e n True Value b" and d: "drop p data = e @ concat encs @ post"
      using Cons.hyps(1) Cons.prems by (auto simp: v)
    have "bindR (g v s) (\<lambda>s'. bindR (foldR g vs s') (scan_tags body data (p + length e + length (concat encs)))) =
        bindR (g v s) (scan_tags body data (p + length e))"
      by (cases "g v s") (simp_all add: Cons.IH [OF drop_after [OF d]])
    then show ?case
      using assms(1) scan_tags_step [OF e d, of body s] by (simp add: v bindR_assoc add.assoc)
  qed
qed

lemma foldR_append: "foldR f (xs @ ys) s = bindR (foldR f xs s) (foldR f ys)"
proof (induction xs arbitrary: s)
  case (Cons x xs)
  then show ?case
    by (cases "f x s") simp_all
qed simp

lemma foldR_collect: "foldR (\<lambda>v vs. Inr (vs @ [v])) ws vs = Inr (vs @ ws)"
  by (induction ws arbitrary: vs) auto

lemma context_values_fields: "encodes_fields enc vs \<Longrightarrow> context_values enc = Inr vs"
  unfolding context_values_def
  by (subst scan_fields [where g = "\<lambda>v vs. Inr (vs @ [v])" and enc = enc and post = "[]"])
    (simp_all add: foldR_collect scan_tags_end)

section \<open>Optional fields\<close>

definition field :: "int \<Rightarrow> ('a \<Rightarrow> bytes) \<Rightarrow> 'a option \<Rightarrow> (int \<times> bytes) list" where
  "field t content v = (case v of None \<Rightarrow> [] | Some x \<Rightarrow> [(t, content x)])"

abbreviation real_content :: "pyfloat \<Rightarrow> bytes" where
  "real_content x \<equiv> projr (pack_f x)"

lemma real_content_value: "is_single x \<Longrightarrow> pack_f x = Inr (real_content x) \<and> unpack_f (real_content x) = Inr x"
  using is_single_pack_ok [of x] unpack_pack_f [of x] by (auto simp: succeeds_iff)

lemma optional_unsigned_field:
  assumes "pred_option is_unsigned v" and "0 \<le> t" and "t < 15"
  shows "\<exists>enc. optional (context_unsigned t) v = Inr enc \<and> encodes_fields enc (field t int_content v)"
  using assms context_unsigned_ok [of t "the v"]
  by (cases v) (auto simp: field_def is_unsigned_def intro: encodes_fields_single)

lemma optional_real_field:
  assumes "pred_option is_single v" and "0 \<le> t" and "t < 15"
  shows "\<exists>enc. optional (context_real t) v = Inr enc \<and> encodes_fields enc (field t real_content v)"
  using assms context_real_ok [of t "the v" "real_content (the v)"] real_content_value [of "the v"]
  by (cases v) (auto simp: field_def intro: encodes_fields_single)

lemma optional_string_field:
  assumes "pred_option fits_string v" and "0 \<le> t" and "t < 15"
  shows "\<exists>enc. optional (context_character_string t) v = Inr enc \<and>
     encodes_fields enc (field t (\<lambda>s. 0 # projr (utf8_encode s)) v)"
  using assms context_character_string_ok [of t "the v"]
  by (cases v) (auto simp: field_def fits_string_def intro!: encodes_fields_single split: sum.splits)

section \<open>Lighting commands\<close>

definition valid_lighting :: "int \<Rightarrow> pyfloat option list \<Rightarrow> int option list \<Rightarrow> bool" where
  "valid_lighting operation reals ints \<longleftrightarrow>
     is_unsigned operation \<and> list_all (pred_option is_single) reals \<and> list_all (pred_option is_unsigned) ints"

lemma lighting_command_shape:
  assumes "valid_lighting op [level, ramp, increment] [fade, prio]"
  shows "\<exists>enc. lighting_command op level ramp increment fade prio = Inr enc \<and> enc \<noteq> [] \<and>
     encodes_fields enc ([(0, int_content op)] @ field 1 real_content level @ field 2 real_content ramp @
       field 3 real_content increment @ field 4 int_content fade @ field 5 int_content prio)"
proof -
  have v: "is_unsigned op" "pred_option is_single level" "pred_option is_single ramp" "pred_option is_single increment"
      "pred_option is_unsigned fade" "pred_option is_unsigned prio"
    using assms by (simp_all add: valid_lighting_def)
  obtain e0 where e0: "context_unsigned 0 op = Inr e0" "encodes e0 0 True Value (int_content op)"
    by (rule unsigned_parameter [OF v(1), of 0]) auto
  obtain e1 e2 e3 where reals: "optional (context_real 1) level = Inr e1" "encodes_fields e1 (field 1 real_content level)"
      "optional (context_real 2) ramp = Inr e2" "encodes_fields e2 (field 2 real_content ramp)"
      "optional (context_real 3) increment = Inr e3" "encodes_fields e3 (field 3 real_content increment)"
    using optional_real_field [OF v(2), of 1] optional_real_field [OF v(3), of 2] optional_real_field [OF v(4), of 3]
    by auto
  obtain e4 e5 where ints: "optional (context_unsigned 4) fade = Inr e4" "encodes_fields e4 (field 4 int_content fade)"
      "optional (context_unsigned 5) prio = Inr e5" "encodes_fields e5 (field 5 int_content prio)"
    using optional_unsigned_field [OF v(5), of 4] optional_unsigned_field [OF v(6), of 5] by auto
  have "lighting_command op level ramp increment fade prio = Inr (e0 @ e1 @ e2 @ e3 @ e4 @ e5)"
    by (simp add: lighting_command_def context_enumerated_def e0(1) reals(1,3,5) ints(1,3))
  then show ?thesis
    using encodes_nonempty [OF e0(2)] reals ints encodes_fields_single [OF e0(2)]
    by (auto intro!: encodes_fields_append [where vs = "[_]", simplified] encodes_fields_append)
qed

lemma lighting_fold:
  assumes "valid_lighting op [level, ramp, increment] [fade, prio]"
  shows "foldR lighting_step ([(0, int_content op)] @ field 1 real_content level @ field 2 real_content ramp @
       field 3 real_content increment @ field 4 int_content fade @ field 5 int_content prio)
     \<lparr>light_operation = None, light_target_level = None, light_ramp_rate = None,
      light_step_increment = None, light_fade_time = None, light_priority = None\<rparr> =
     Inr \<lparr>light_operation = Some op, light_target_level = level, light_ramp_rate = ramp,
      light_step_increment = increment, light_fade_time = fade, light_priority = prio\<rparr>"
proof -
  have real: "foldR lighting_step (field t real_content v) l =
      Inr (case v of None \<Rightarrow> l | Some x \<Rightarrow>
        if t = 1 then l\<lparr>light_target_level := Some x\<rparr>
        else if t = 2 then l\<lparr>light_ramp_rate := Some x\<rparr> else l\<lparr>light_step_increment := Some x\<rparr>)"
    if "pred_option is_single v" and "t \<in> {1, 2, 3}" for t v l
    using that real_content_value by (cases v) (auto simp: field_def lighting_step_def)
  have int: "foldR lighting_step (field t int_content v) l =
      Inr (case v of None \<Rightarrow> l | Some x \<Rightarrow>
        if t = 4 then l\<lparr>light_fade_time := Some x\<rparr> else l\<lparr>light_priority := Some x\<rparr>)"
    if "pred_option is_unsigned v" and "t \<in> {4, 5}" for t v l
    using that is_unsigned_content by (cases v) (auto simp: field_def lighting_step_def)
  have "foldR lighting_step [(0, int_content op)] l = Inr (l\<lparr>light_operation := Some op\<rparr>)" for l
    using assms by (simp add: lighting_step_def valid_lighting_def is_unsigned_content)
  then show ?thesis
    using assms unfolding foldR_append by (auto simp: real int valid_lighting_def split: option.split)
qed

lemma lighting_command_decodes:
  assumes "valid_lighting op [level, ramp, increment] [fade, prio]"
  shows "bindR (lighting_command op level ramp increment fade prio) (\<lambda>octets. decode_lighting_command (Some octets)) =
     Inr (Some \<lparr>light_operation = Some op, light_target_level = level, light_ramp_rate = ramp,
      light_step_increment = increment, light_fade_time = fade, light_priority = prio\<rparr>)"
proof -
  obtain enc where enc: "lighting_command op level ramp increment fade prio = Inr enc" "enc \<noteq> []"
    and f: "encodes_fields enc ([(0, int_content op)] @ field 1 real_content level @ field 2 real_content ramp @
       field 3 real_content increment @ field 4 int_content fade @ field 5 int_content prio)"
    using lighting_command_shape [OF assms] by blast
  show ?thesis
    unfolding enc(1) bindR_simps decode_lighting_command_def option.case context_values_fields [OF f]
      lighting_fold [OF assms] using enc(2) by simp
qed

section \<open>Landing calls\<close>

definition valid_call :: "landing_call \<Rightarrow> bool" where
  "valid_call c \<longleftrightarrow>
     is_unsigned (call_floor c) \<and> (call_direction c = None) \<noteq> (call_destination c = None) \<and>
     pred_option is_unsigned (call_direction c) \<and> pred_option is_unsigned (call_destination c) \<and>
     pred_option fits_string (call_text c)"

abbreviation encode_call :: "landing_call \<Rightarrow> bytes result" where
  "encode_call c \<equiv> landing_call_status (call_floor c) (call_direction c) (call_destination c) (call_text c)"

abbreviation text_content :: "pystr \<Rightarrow> bytes" where
  "text_content t \<equiv> 0 # projr (utf8_encode t)"

lemma text_content_value: "fits_string t \<Longrightarrow> utf8_decode_replace (drop 1 (text_content t)) = t"
  using utf8_decode_encode [of t "projr (utf8_encode t)" "[]"]
  by (auto simp: fits_string_def split: sum.splits)

definition call_fields :: "landing_call \<Rightarrow> (int \<times> bytes) list" where
  "call_fields c = [(0, int_content (call_floor c))] @ field 1 int_content (call_direction c) @
     field 2 int_content (call_destination c) @ field 3 text_content (call_text c)"

lemma landing_call_status_shape:
  assumes "valid_call c"
  shows "\<exists>enc. encode_call c = Inr enc \<and> encodes_fields enc (call_fields c)"
proof -
  have v: "is_unsigned (call_floor c)" "pred_option is_unsigned (call_direction c)"
      "pred_option is_unsigned (call_destination c)" "pred_option fits_string (call_text c)"
      "(call_direction c = None) \<noteq> (call_destination c = None)"
    using assms by (simp_all add: valid_call_def)
  obtain e0 where e0: "context_unsigned 0 (call_floor c) = Inr e0" "encodes e0 0 True Value (int_content (call_floor c))"
    by (rule unsigned_parameter [OF v(1), of 0]) auto
  obtain e1 where e1: "optional (context_unsigned 1) (call_direction c) = Inr e1"
      "encodes_fields e1 (field 1 int_content (call_direction c))"
    using optional_unsigned_field [OF v(2), of 1] by auto
  obtain e2 where e2: "optional (context_unsigned 2) (call_destination c) = Inr e2"
      "encodes_fields e2 (field 2 int_content (call_destination c))"
    using optional_unsigned_field [OF v(3), of 2] by auto
  obtain e3 where e3: "optional (context_character_string 3) (call_text c) = Inr e3"
      "encodes_fields e3 (field 3 text_content (call_text c))"
    using optional_string_field [OF v(4), of 3] by auto
  have "encode_call c = Inr (e0 @ e1 @ e2 @ e3)"
    using v(5) e0(1) e1(1) e2(1) e3(1)
    by (cases "call_direction c"; cases "call_destination c") (simp_all add: landing_call_status_def context_enumerated_def)
  then show ?thesis
    using encodes_fields_append [OF encodes_fields_single [OF e0(2)]
        encodes_fields_append [OF e1(2) encodes_fields_append [OF e2(2) e3(2)]]]
    by (simp add: call_fields_def)
qed

abbreviation landing_turn :: "int \<times> bytes \<Rightarrow> landing_call list \<Rightarrow> landing_call list result" where
  "landing_turn v \<equiv> landing_step 0 (fst v, True, Value, snd v, 0)"

lemma update_last_snoc [simp]: "update_last f (xs @ [x]) = xs @ [f x]"
  by (simp add: update_last_def)

lemma landing_fold:
  assumes "valid_call c"
  shows "foldR landing_turn (call_fields c) calls = Inr (calls @ [c])"
proof -
  have v: "int_from_bytes (int_content (call_floor c)) = call_floor c"
      "\<And>d. call_direction c = Some d \<Longrightarrow> int_from_bytes (int_content d) = d"
      "\<And>d. call_destination c = Some d \<Longrightarrow> int_from_bytes (int_content d) = d"
      "\<And>t. call_text c = Some t \<Longrightarrow> utf8_decode_replace (drop 1 (text_content t)) = t"
    using assms is_unsigned_content text_content_value unfolding valid_call_def by auto
  show ?thesis
    unfolding call_fields_def foldR_append
    by (cases c; cases "call_direction c"; cases "call_destination c"; cases "call_text c")
      (use v in \<open>simp_all add: field_def landing_step_def\<close>)
qed

lemma landing_fold_all:
  "list_all valid_call cs \<Longrightarrow> foldR landing_turn (concat (map call_fields cs)) calls = Inr (calls @ cs)"
  by (induction cs arbitrary: calls) (simp_all add: foldR_append landing_fold)

lemma landing_calls_shape:
  "list_all valid_call cs \<Longrightarrow>
     \<exists>enc. catR (map encode_call cs) = Inr enc \<and> encodes_fields enc (concat (map call_fields cs))"
proof (induction cs)
  case (Cons c cs)
  obtain a b where "encode_call c = Inr a" "encodes_fields a (call_fields c)"
      "catR (map encode_call cs) = Inr b" "encodes_fields b (concat (map call_fields cs))"
    using landing_call_status_shape [of c] Cons by auto
  then show ?case
    by (auto intro: encodes_fields_append)
qed simp

lemma landing_calls_decode:
  assumes "list_all valid_call cs"
  shows "bindR (catR (map encode_call cs)) (\<lambda>octets. decode_landing_calls (Some octets)) = Inr cs"
proof -
  obtain enc where enc: "catR (map encode_call cs) = Inr enc" and f: "encodes_fields enc (concat (map call_fields cs))"
    using landing_calls_shape [OF assms] by blast
  have "scan_tags landing_step enc 0 [] = bindR (foldR landing_turn (concat (map call_fields cs)) []) (scan_tags landing_step enc (0 + length enc))"
    by (rule scan_fields [OF _ f, where post = "[]"]) (simp_all add: landing_step_def)
  then show ?thesis
    using landing_fold_all [OF assms, of "[]"] by (simp add: enc decode_landing_calls_def scan_tags_end)
qed

section \<open>Answers of the file services\<close>

text \<open>The productions of the two ACKs (clause 21), as a device writes them.\<close>

definition file_ack :: "int \<Rightarrow> bool \<Rightarrow> int \<Rightarrow> bytes \<Rightarrow> bytes result" where
  "file_ack iid eof start data =
     catR [bytes_of [0x30, iid, SERVICE_ATOMIC_READ_FILE], application_boolean eof, opening_tag 0,
           application_signed start, application_octet_string data, closing_tag 0]"

lemma file_ack_parses:
  assumes "is_octet iid" and "is_signed start" and "length data < 65536"
    and "file_ack iid eof start data = Inr apdu" and "network_message f = None" and "payload f = apdu"
  shows "parse_atomic_read_file_ack (Some f) = Inr (Some (eof, start, data))"
proof -
  obtain body where body: "signed_octets start = Inr body"
    using assms(2) by (auto simp: is_signed_def signed_octets_iff)
  obtain e1 e2 e3 e4 e5 where e: "application_boolean eof = Inr e1" "encodes e1 TAG_BOOLEAN False Value [if eof then 1 else 0]"
      "opening_tag 0 = Inr e2" "encodes e2 0 True Open []" "application_signed start = Inr e3" "encodes e3 TAG_SIGNED False Value body"
      "application_octet_string data = Inr e4" "encodes e4 TAG_OCTET_STRING False Value data" "closing_tag 0 = Inr e5"
    using application_boolean_ok [of eof] opening_tag_ok [of 0] application_signed_ok [OF body]
      application_octet_string_ok [OF assms(3)] closing_tag_ok [of 0] by auto
  have apdu: "apdu = [0x30, word_of_int iid, 6] @ e1 @ e2 @ e3 @ e4 @ e5"
    using assms(1,4) e by (simp add: file_ack_def bytes_of_def is_octet_def)
  have d0: "drop 3 apdu = e1 @ e2 @ e3 @ e4 @ e5"
    by (simp add: apdu)
  note d1 = drop_after [OF d0]
  note d2 = drop_after [OF d1]
  note d3 = drop_after [OF d2]
  have "complex_ack (Some f) None = Inr (Some apdu)"
    using assms(5,6) apdu by (simp add: complex_ack_def pdu_type_def drop_bit_eq_div)
  moreover have "int_from_bytes_signed body = start"
    using signed_octets_value [OF body] by simp
  ultimately show ?thesis
    using encodes_read_at [OF e(2) d0] encodes_read_at [OF e(4) d1] encodes_read_at [OF e(6) d2] encodes_read_at [OF e(8) d3]
    by (simp add: parse_atomic_read_file_ack_def on_ack_def)
qed

section \<open>Errors\<close>

lemma raises_application_values: "raises_only read_errors (application_values octets)"
  unfolding application_values_def by (intro raises_scan_tags) (auto intro: raises_only_prod)

lemma raises_constructed:
  "raises_only read_errors (constructed_end octets p)" "raises_only read_errors (constructed_body octets p)"
  unfolding constructed_close by (intro raises_rules raises_only_prod)+

lemma raises_bits: "raises_only read_errors (bits_of_body body)"
  unfolding bits_of_body_def Let_def by (intro raises_rules)

lemma raises_unpack_f: "raises_only read_errors (unpack_f body)" "raises_only read_errors (unpack_d body)"
  unfolding unpack_f_def unpack_d_def by (intro raises_rules)+

lemma raises_decode_application: "raises_only read_errors (decode_application octets)"
  unfolding decode_application_def decode_content_def
  by (intro raises_rules raises_bits raises_unpack_f)

lemma raises_bytes_of: "raises_only read_errors (bytes_of xs)"
  by (simp add: raises_only_def bytes_of_def)

lemmas service_raises = raises_rules raises_constructed raises_application_values raises_decode_application
  raises_bytes_of raises_scan_to

lemma raises_rpm_step: "raises_only read_errors (rpm_step apdu t s)"
  unfolding rpm_step_def by (cases "rpm_current s") (auto intro!: service_raises)

lemma raises_read_range_step: "raises_only read_errors (read_range_step apdu t r)"
  unfolding read_range_step_def by (auto intro!: service_raises)

text \<open>A ComplexACK too short to name its service raises outside the \<open>try\<close> block.\<close>

definition short_ack :: "answer \<Rightarrow> bool" where
  "short_ack a = (case a of None \<Rightarrow> False | Some f \<Rightarrow> pdu_type f = Some PDU_COMPLEX_ACK \<and> length (payload f) < 3)"

lemma complex_ack_errors: "complex_ack a expected = Inl e \<Longrightarrow> e = IndexError \<and> expected \<noteq> None \<and> short_ack a"
  by (auto simp: complex_ack_def short_ack_def service_def bindR_Inl_iff py_nth_def split: option.splits if_splits)

lemma on_ack_errors:
  assumes "\<And>apdu. raises_only read_errors (m apdu)"
    and "on_ack a expected (\<lambda>apdu. except_None [IndexError, StructError] (m apdu)) = Inl e"
  shows "e = ValueError \<or> (e = IndexError \<and> expected \<noteq> None \<and> short_ack a)"
  using assms(2) raises_onlyD [OF assms(1)]
  by (auto simp: on_ack_def bindR_Inl_iff except_None_Inl_iff dest: complex_ack_errors split: option.splits)

lemma ack_parser_errors:
  "parse_read_property_multiple_ack a = Inl e \<Longrightarrow> e = ValueError \<or> (e = IndexError \<and> short_ack a)"
  "parse_read_range_ack a = Inl e \<Longrightarrow> e = ValueError \<or> (e = IndexError \<and> short_ack a)"
  "parse_atomic_read_file_ack a = Inl e \<Longrightarrow> e = ValueError"
proof -
  show "e = ValueError \<or> (e = IndexError \<and> short_ack a)" if "parse_read_property_multiple_ack a = Inl e"
    using on_ack_errors [OF _ that [unfolded parse_read_property_multiple_ack_def]]
    by (auto intro!: service_raises raises_rpm_step)
  show "e = ValueError \<or> (e = IndexError \<and> short_ack a)" if "parse_read_range_ack a = Inl e"
    using on_ack_errors [OF _ that [unfolded parse_read_range_ack_def]]
    by (auto intro!: service_raises raises_read_range_step)
  show "e = ValueError" if "parse_atomic_read_file_ack a = Inl e"
    using on_ack_errors [OF _ that [unfolded parse_atomic_read_file_ack_def]]
    by (auto intro!: service_raises)
qed

lemma short_ack_raises:
  assumes "short_ack a"
  shows "parse_read_property_multiple_ack a = Inl IndexError" and "parse_read_range_ack a = Inl IndexError"
  using assms
  by (auto simp: short_ack_def parse_read_property_multiple_ack_def parse_read_range_ack_def on_ack_def complex_ack_def
      service_def py_nth_def split: option.splits)

end
