(* ===== verification/Alarm_Laws.thy ===== *)
theory Alarm_Laws
  imports Alarm Services_Values
begin

unbundle bit_operations_syntax

text \<open>
  An event notification that \<open>event_notification\<close> builds is read back by \<open>EventNotification\<close>, field by field, in both
  its forms and for alarms and acknowledgements. The parameters are runs of context-tagged primitives around
  two constructed values, so the proof folds \<open>event_field\<close> over the runs (\<open>scan_to_fields\<close>) and crosses the
  constructed values with the lemmas on time stamps and on \<open>skip_constructed\<close>.
\<close>

section \<open>Runs of primitives in a loop that moves its position\<close>

lemma scan_to_fields:
  assumes "\<And>n b q s. body (n, True, Value, b, q) s = bindR (g (n, b) s) (\<lambda>s. Inr (s, q))"
    and "encodes_fields enc vs" and "drop p data = enc @ post"
  shows "scan_to body data p s = bindR (foldR g vs s) (scan_to body data (p + length enc))"
proof -
  obtain encs where encs: "enc = concat encs" "list_all2 (\<lambda>e (n, b). encodes e n True Value b) encs vs"
    using assms(2) by (auto simp: encodes_fields_def)
  from encs(2) assms(3) [unfolded encs(1)] show ?thesis
    unfolding encs(1)
  proof (induction encs vs arbitrary: p s rule: list_all2_induct)
    case Nil
    then show ?case by simp
  next
    case (Cons e encs v vs)
    obtain n b where v: "v = (n, b)"
      by (cases v)
    have e: "encodes e n True Value b" and d: "drop p data = e @ concat encs @ post"
      using Cons.hyps(1) Cons.prems by (auto simp: v)
    have "scan_to body data p s = bindR (g v s) (scan_to body data (p + length e))"
    proof (cases "g v s")
      case (Inl err)
      then show ?thesis
        using encodes_read_at [OF e d] encodes_position [OF e d] assms(1)
        by (subst scan_to.simps) (simp add: v)
    next
      case (Inr s')
      then show ?thesis
        using scan_to_step [OF e d, of body s s' "p + length e"] assms(1) by (simp add: v)
    qed
    then show ?case
      using Cons.IH [OF drop_after [OF d]] by (cases "g v s") (simp_all add: add.assoc)
  qed
qed

section \<open>Equivalences\<close>

lemma foldl_extend: "foldl (\<lambda>bits octet. bits @ f octet) acc xs = acc @ concat (map f xs)"
  by (induction xs arbitrary: acc) auto

lemma alarm_bits_eq: "alarm_bits body = bits_of_body body"
  by (simp add: alarm_bits_def bits_of_body_def foldl_extend octet_bits_def [abs_def])

lemma skip_constructed_eq: "skip_constructed octets p = constructed_end octets p"
  by (simp add: skip_constructed_def constructed_end_def)

lemma skip_constructed_progress: "skip_constructed octets p = Inr q \<Longrightarrow> p \<le> q"
  by (simp add: skip_constructed_eq constructed_end_progress)

lemma read_time_stamp_choice_progress: "read_time_stamp_choice octets p = Inr (stamp, q) \<Longrightarrow> p < q"
  by (fastforce simp: read_time_stamp_choice_def bindR_Inr_iff dest: read_tag_progress skip_constructed_progress
      split: if_splits)

lemma read_time_stamp_progress: "read_time_stamp octets p = Inr (stamp, q) \<Longrightarrow> p < q"
  by (fastforce simp: read_time_stamp_def bindR_Inr_iff dest: read_tag_progress read_time_stamp_choice_progress)

lemma event_step_advances [advance_rules]: "advances (event_step octets)"
  by (auto simp: advances_def event_step_def bindR_Inr_iff
      dest!: read_time_stamp_progress skip_constructed_progress split: if_splits)

lemma time_stamps_from_progress: "time_stamps_from n octets p = Inr (stamps, q) \<Longrightarrow> p \<le> q"
  by (induction n arbitrary: p stamps) (fastforce simp: bindR_Inr_iff dest: read_time_stamp_choice_progress)+

lemma priorities_from_progress: "priorities_from octets p acc = Inr (priorities, q) \<Longrightarrow> p < q"
proof (induction octets p acc rule: priorities_from.induct)
  case (1 octets p acc)
  obtain n c k b r where r: "read_tag octets p = Inr (n, c, k, b, r)"
      "(if k = Close then Inr (acc, r) else priorities_from octets r (acc @ [int_from_bytes b])) = Inr (priorities, q)"
    using "1.prems" by (subst (asm) priorities_from.simps) (auto simp: bindR_Inr_iff)
  show ?case
    using read_tag_progress [OF r(1)] r(2) "1.IH" [OF r(1) refl refl refl refl] by (auto split: if_splits)
qed

lemma set_current_position: "set_current f position s = Inr (s', q) \<Longrightarrow> q = position"
  by (auto simp: set_current_def split: if_splits)

lemma summary_step_advances [advance_rules]: "advances (summary_step octets)"
  unfolding advances_def
proof (intro allI impI)
  fix t s s' after
  assume step: "summary_step octets t s = Inr (s', after)"
  obtain n c k b q where t: "t = (n, c, k, b, q)"
    by (cases t)
  show "next_position t \<le> after"
    using step unfolding summary_step_def t
    by (fastforce simp: bindR_Inr_iff dest: set_current_position time_stamps_from_progress priorities_from_progress
        read_tag_progress split: if_splits)
qed

section \<open>Time stamps\<close>

lemma date_tag: "is_octet a \<and> is_octet b \<and> is_octet c \<and> is_octet d \<Longrightarrow>
   application_date (1900 + a) b c d = Inr (0xA4 # map word_of_int [a, b, c, d])"
  by (simp add: application_date_def bytes_of_def is_octet_def)

lemma time_tag: "is_octet a \<and> is_octet b \<and> is_octet c \<and> is_octet d \<Longrightarrow>
   application_time a b c d = Inr (0xB4 # map word_of_int [a, b, c, d])"
  by (simp add: application_time_def bytes_of_def is_octet_def)

text \<open>A date and a time are four octets each.\<close>

definition is_stamp :: "time_stamp \<Rightarrow> bool" where
  "is_stamp s = (case s of (d, t) \<Rightarrow> length d = 4 \<and> length t = 4)"

lemma stamp_tags:
  assumes "length d = 4"
  shows "encodes (0xA4 # d) 10 False Value d" and "encodes (0xB4 # d) 11 False Value d"
  using read_tag_short [of 10 0 d] read_tag_short [of 11 0 d] assms by simp_all

lemma context_date_time_shape:
  assumes "is_stamp (d, t)" and "0 \<le> tag" and "tag < 15"
  obtains op op2 cl2 cl where "context_date_time tag (d, t) = Inr (op @ op2 @ (0xA4 # d) @ (0xB4 # t) @ cl2 @ cl)"
    and "encodes op tag True Open []" and "encodes op2 2 True Open []"
    and "encodes cl2 2 True Close []" and "encodes cl tag True Close []"
proof -
  obtain op cl where br: "opening_tag tag = Inr op" "closing_tag tag = Inr cl"
      "encodes op tag True Open []" "encodes cl tag True Close []"
    by (rule bracket_parameter [OF assms(2,3)])
  obtain op2 cl2 where br2: "opening_tag 2 = Inr op2" "closing_tag 2 = Inr cl2"
      "encodes op2 2 True Open []" "encodes cl2 2 True Close []"
    by (rule bracket_parameter [of 2]) auto
  show thesis
    using that br br2 by (simp add: context_date_time_def bytes_of_def)
qed

text \<open>The dateTime form inside its outer tag, read from just after the outer opening tag.\<close>

lemma read_time_stamp_at:
  assumes "is_stamp (d, t)" and "encodes op2 2 True Open []" and "encodes cl2 2 True Close []" and "encodes cl n c Close b"
    and "drop p octets = op2 @ (0xA4 # d) @ (0xB4 # t) @ cl2 @ cl @ post"
  shows "read_time_stamp octets p =
    Inr (Some (d, t), p + length op2 + length (0xA4 # d) + length (0xB4 # t) + length cl2 + length cl)"
proof -
  have l: "length d = 4" "length t = 4"
    using assms(1) by (simp_all add: is_stamp_def)
  note d0 = assms(5)
  note d1 = drop_after [OF d0]
  note d2 = drop_after [OF d1]
  note d3 = drop_after [OF d2]
  note d4 = drop_after [OF d3]
  show ?thesis
    using encodes_read_at [OF assms(2) d0] encodes_read_at [OF stamp_tags(1) [OF l(1)] d1]
      encodes_read_at [OF stamp_tags(2) [OF l(2)] d2] encodes_read_at [OF assms(3) d3] encodes_read_at [OF assms(4) d4]
    by (simp add: read_time_stamp_def read_time_stamp_choice_def)
qed

section \<open>Event notifications\<close>

definition valid_event :: "event_arguments \<Rightarrow> bool" where
  "valid_event e \<longleftrightarrow>
     is_octet (ev_invoke_id e) \<and> is_unsigned (ev_process_identifier e) \<and>
     valid_object_id OBJECT_TYPE_DEVICE (ev_initiating_device e) \<and>
     valid_object_id (fst (ev_event_object e)) (snd (ev_event_object e)) \<and>
     list_all is_unsigned [ev_notification_class e, ev_priority e, ev_notify_type e, ev_from_state e, ev_to_state e] \<and>
     pred_option fits_string (ev_message_text e) \<and> is_single (ev_exceeding_value e) \<and> is_single (ev_exceeded_limit e) \<and>
     succeeds (event_stamp e)"

abbreviation stamp_of :: "event_arguments \<Rightarrow> time_stamp" where
  "stamp_of e \<equiv> projr (event_stamp e)"

lemma event_stamp_length: "event_stamp e = Inr s \<Longrightarrow> is_stamp s"
  by (auto simp: event_stamp_def is_stamp_def application_date_def application_time_def bindR_Inr_iff
      bytes_of_Inr_iff split: prod.splits)

lemma event_stamp_is_stamp: "succeeds (event_stamp e) \<Longrightarrow> event_stamp e = Inr (stamp_of e) \<and> is_stamp (stamp_of e)"
  using event_stamp_length by (auto simp: succeeds_iff)

text \<open>The parameters: primitives 0 to 2, the time stamp, primitives 4 to 8, and the values.\<close>

abbreviation leading_fields :: "event_arguments \<Rightarrow> (int \<times> bytes) list" where
  "leading_fields e \<equiv> [(0, int_content (ev_process_identifier e)),
     (1, object_id_content OBJECT_TYPE_DEVICE (ev_initiating_device e)),
     (2, object_id_content (fst (ev_event_object e)) (snd (ev_event_object e)))]"

abbreviation middle_fields :: "event_arguments \<Rightarrow> (int \<times> bytes) list" where
  "middle_fields e \<equiv> [(4, int_content (ev_notification_class e)), (5, int_content (ev_priority e)),
     (6, int_content EVENT_TYPE_OUT_OF_RANGE)] @ field 7 text_content (ev_message_text e) @
     [(8, int_content (ev_notify_type e))]"

abbreviation is_acknowledgement :: "event_arguments \<Rightarrow> bool" where
  "is_acknowledgement e \<equiv> ev_notify_type e = NOTIFY_TYPE_ACK_NOTIFICATION"

abbreviation state_fields :: "event_arguments \<Rightarrow> (int \<times> bytes) list" where
  "state_fields e \<equiv> (if is_acknowledgement e then [] else
     [(9, [if ev_ack_required e then 1 else 0]), (10, int_content (ev_from_state e))]) @
     [(11, int_content (ev_to_state e))]"

text \<open>The event values: a constructed value, or nothing.\<close>

definition constructed_or_nothing :: "bytes \<Rightarrow> bool" where
  "constructed_or_nothing enc \<longleftrightarrow>
     enc = [] \<or> (\<exists>op v cl. enc = op @ v @ cl \<and> encodes op 12 True Open [] \<and> well_tagged v \<and> encodes cl 12 True Close [])"

lemma is_single_one: "is_single float_one"
proof -
  have "float_of_single 0x3F800000 = float_one"
    by (simp add: float_of_single_def widen_magnitude_def)
  then show ?thesis
    using is_single_float_of_single [of "0x3F800000"] by (simp add: is_nan_single_def)
qed

lemma out_of_range_values:
  assumes "is_single x" and "is_single y"
  shows "\<exists>enc. catR [opening_tag 12, opening_tag 5, context_real 0 x, context_bit_string 1 [b, False, False, False],
      context_real 2 float_one, context_real 3 y, closing_tag 5, closing_tag 12] = Inr enc \<and> constructed_or_nothing enc"
proof -
  obtain op cl where br: "opening_tag 12 = Inr op" "closing_tag 12 = Inr cl"
      "encodes op 12 True Open []" "encodes cl 12 True Close []"
    by (rule bracket_parameter [of 12]) auto
  obtain op5 cl5 where br5: "opening_tag 5 = Inr op5" "closing_tag 5 = Inr cl5"
      "encodes op5 5 True Open []" "encodes cl5 5 True Close []"
    by (rule bracket_parameter [of 5]) auto
  obtain r0 r2 r3 where r: "context_real 0 x = Inr r0" "encodes r0 0 True Value (real_content x)"
      "context_real 2 float_one = Inr r2" "encodes r2 2 True Value (real_content float_one)"
      "context_real 3 y = Inr r3" "encodes r3 3 True Value (real_content y)"
    using context_real_ok [of 0 x "real_content x"] context_real_ok [of 2 float_one "real_content float_one"]
      context_real_ok [of 3 y "real_content y"] real_content_value [OF assms(1)] real_content_value [OF assms(2)]
      real_content_value [OF is_single_one] by auto
  obtain body where "bit_string_body [b, False, False, False] = Inr body" "length body = 2"
    using bit_string_body_ok [of "[b, False, False, False]"] by auto
  then obtain bs where bs: "context_bit_string 1 [b, False, False, False] = Inr bs" "encodes bs 1 True Value body"
    using context_bit_string_ok [of 1 "[b, False, False, False]" body] by auto
  have "well_tagged (r0 @ bs @ r2 @ r3)"
    using r(2,4,6) bs(2) by blast
  from well_tagged_bracket [OF br5(3) this br5(4)]
  have "constructed_or_nothing (op @ (op5 @ (r0 @ bs @ r2 @ r3) @ cl5) @ cl)"
    unfolding constructed_or_nothing_def using br(3,4) by blast
  then show ?thesis
    by (simp add: br(1,2) br5(1,2) r(1,3,5) bs(1))
qed

lemma unsigned_field_ok:
  "is_unsigned v \<Longrightarrow> 0 \<le> t \<Longrightarrow> t < 15 \<Longrightarrow> \<exists>enc. context_unsigned t v = Inr enc \<and> encodes_fields enc [(t, int_content v)]"
  using context_unsigned_ok [of t v] encodes_fields_single unfolding is_unsigned_def by blast

lemma event_values_shape:
  assumes "valid_event e"
  shows "\<exists>fs rest. event_values e = Inr (fs @ rest) \<and> encodes_fields fs (state_fields e) \<and> constructed_or_nothing rest"
proof -
  have v: "is_unsigned (ev_from_state e)" "is_unsigned (ev_to_state e)" "is_single (ev_exceeding_value e)"
      "is_single (ev_exceeded_limit e)"
    using assms by (simp_all add: valid_event_def)
  obtain e11 where e11: "context_unsigned 11 (ev_to_state e) = Inr e11" "encodes_fields e11 [(11, int_content (ev_to_state e))]"
    using unsigned_field_ok [OF v(2), of 11] by auto
  show ?thesis
  proof (cases "is_acknowledgement e")
    case True
    then show ?thesis
      using e11 by (intro exI [of _ e11] exI [of _ "[]"])
        (simp add: event_values_def context_enumerated_def constructed_or_nothing_def)
  next
    case False
    obtain e9 where e9: "context_boolean 9 (ev_ack_required e) = Inr e9"
        "encodes_fields e9 [(9, [if ev_ack_required e then 1 else 0])]"
      using context_boolean_ok [of 9 "ev_ack_required e"] encodes_fields_single by fastforce
    obtain e10 where e10: "context_unsigned 10 (ev_from_state e) = Inr e10" "encodes_fields e10 [(10, int_content (ev_from_state e))]"
      using unsigned_field_ok [OF v(1), of 10] by auto
    obtain rest where rest: "catR [opening_tag 12, opening_tag 5, context_real 0 (ev_exceeding_value e),
        context_bit_string 1 [ev_to_state e \<noteq> EVENT_STATE_NORMAL, False, False, False], context_real 2 float_one,
        context_real 3 (ev_exceeded_limit e), closing_tag 5, closing_tag 12] = Inr rest" "constructed_or_nothing rest"
      using out_of_range_values [OF v(3,4)] by blast
    have "event_values e = catR ([Inr e9, Inr e10, Inr e11] @ [opening_tag 12, opening_tag 5, context_real 0 (ev_exceeding_value e),
        context_bit_string 1 [ev_to_state e \<noteq> EVENT_STATE_NORMAL, False, False, False], context_real 2 float_one,
        context_real 3 (ev_exceeded_limit e), closing_tag 5, closing_tag 12])"
      using False e9(1) e10(1) e11(1) by (simp add: event_values_def context_enumerated_def)
    then have "event_values e = Inr ((e9 @ e10 @ e11) @ rest)"
      unfolding catR_append rest(1) by simp
    then show ?thesis
      using encodes_fields_append [OF e9(2) encodes_fields_append [OF e10(2) e11(2)]] rest(2) False
      by (intro exI [of _ "e9 @ e10 @ e11"] exI [of _ rest]) simp
  qed
qed

lemma leading_fields_shape:
  assumes "valid_event e"
  shows "\<exists>enc. catR [context_unsigned 0 (ev_process_identifier e), context_object_id 1 OBJECT_TYPE_DEVICE (ev_initiating_device e),
      (case ev_event_object e of (ot, inst) \<Rightarrow> context_object_id 2 ot inst)] = Inr enc \<and> encodes_fields enc (leading_fields e)"
proof -
  obtain ot inst where obj: "ev_event_object e = (ot, inst)"
    by (cases "ev_event_object e")
  have v: "is_unsigned (ev_process_identifier e)" "valid_object_id OBJECT_TYPE_DEVICE (ev_initiating_device e)"
      "valid_object_id ot inst"
    using assms by (simp_all add: valid_event_def obj)
  obtain e0 where e0: "context_unsigned 0 (ev_process_identifier e) = Inr e0"
      "encodes e0 0 True Value (int_content (ev_process_identifier e))"
    by (rule unsigned_parameter [OF v(1), of 0]) auto
  obtain e1 where e1: "context_object_id 1 OBJECT_TYPE_DEVICE (ev_initiating_device e) = Inr e1"
      "encodes e1 1 True Value (object_id_content OBJECT_TYPE_DEVICE (ev_initiating_device e))"
    by (rule object_parameter [OF v(2), of 1]) auto
  obtain e2 where e2: "context_object_id 2 ot inst = Inr e2" "encodes e2 2 True Value (object_id_content ot inst)"
    by (rule object_parameter [OF v(3), of 2]) auto
  show ?thesis
    using e0(1) e1(1) e2(1) encodes_fields_append [OF encodes_fields_single [OF e0(2)]
        encodes_fields_append [OF encodes_fields_single [OF e1(2)] encodes_fields_single [OF e2(2)]]]
    by (simp add: obj)
qed

lemma middle_fields_shape:
  assumes "valid_event e"
  shows "\<exists>enc. catR [context_unsigned 4 (ev_notification_class e), context_unsigned 5 (ev_priority e),
      context_enumerated 6 EVENT_TYPE_OUT_OF_RANGE, optional (context_character_string 7) (ev_message_text e),
      context_enumerated 8 (ev_notify_type e)] = Inr enc \<and> encodes_fields enc (middle_fields e)"
proof -
  have v: "is_unsigned (ev_notification_class e)" "is_unsigned (ev_priority e)" "is_unsigned (ev_notify_type e)"
      "pred_option fits_string (ev_message_text e)" "is_unsigned 5"
    using assms by (simp_all add: valid_event_def is_unsigned_def)
  obtain e4 e5 e6 where u: "context_unsigned 4 (ev_notification_class e) = Inr e4"
      "encodes_fields e4 [(4, int_content (ev_notification_class e))]"
      "context_unsigned 5 (ev_priority e) = Inr e5" "encodes_fields e5 [(5, int_content (ev_priority e))]"
      "context_unsigned 6 5 = Inr e6" "encodes_fields e6 [(6, int_content 5)]"
    using unsigned_field_ok [OF v(1), of 4] unsigned_field_ok [OF v(2), of 5] unsigned_field_ok [OF v(5), of 6] by auto
  obtain e7 where e7: "optional (context_character_string 7) (ev_message_text e) = Inr e7"
      "encodes_fields e7 (field 7 text_content (ev_message_text e))"
    using optional_string_field [OF v(4), of 7] by auto
  obtain e8 where e8: "context_unsigned 8 (ev_notify_type e) = Inr e8" "encodes_fields e8 [(8, int_content (ev_notify_type e))]"
    using unsigned_field_ok [OF v(3), of 8] by auto
  show ?thesis
    using u(1,3,5) e7(1) e8(1) encodes_fields_append [OF u(2) encodes_fields_append [OF u(4)
        encodes_fields_append [OF u(6) encodes_fields_append [OF e7(2) e8(2)]]]]
    by (simp add: context_enumerated_def)
qed

lemma event_parameters_shape:
  assumes "valid_event e" and "stamp_of e = (d, t)"
  obtains a op op2 cl2 cl b fs rest where
    "event_parameters e = Inr (a @ op @ (op2 @ (0xA4 # d) @ (0xB4 # t) @ cl2 @ cl) @ b @ fs @ rest)"
    and "encodes_fields a (leading_fields e)" and "encodes op 3 True Open []" and "encodes op2 2 True Open []"
    and "encodes cl2 2 True Close []" and "encodes cl 3 True Close []"
    and "encodes_fields b (middle_fields e)" and "encodes_fields fs (state_fields e)" and "constructed_or_nothing rest"
proof -
  have "succeeds (event_stamp e)"
    using assms(1) by (simp add: valid_event_def)
  then have stamp: "event_stamp e = Inr (d, t)" "is_stamp (d, t)"
    using event_stamp_is_stamp [of e] assms(2) by simp_all
  obtain a where a: "catR [context_unsigned 0 (ev_process_identifier e), context_object_id 1 OBJECT_TYPE_DEVICE (ev_initiating_device e),
      (case ev_event_object e of (ot, inst) \<Rightarrow> context_object_id 2 ot inst)] = Inr a" "encodes_fields a (leading_fields e)"
    using leading_fields_shape [OF assms(1)] by blast
  obtain op op2 cl2 cl where s: "context_date_time 3 (d, t) = Inr (op @ op2 @ (0xA4 # d) @ (0xB4 # t) @ cl2 @ cl)"
      "encodes op 3 True Open []" "encodes op2 2 True Open []" "encodes cl2 2 True Close []" "encodes cl 3 True Close []"
    by (rule context_date_time_shape [OF stamp(2), of 3]) auto
  obtain b where b: "catR [context_unsigned 4 (ev_notification_class e), context_unsigned 5 (ev_priority e),
      context_enumerated 6 EVENT_TYPE_OUT_OF_RANGE, optional (context_character_string 7) (ev_message_text e),
      context_enumerated 8 (ev_notify_type e)] = Inr b" "encodes_fields b (middle_fields e)"
    using middle_fields_shape [OF assms(1)] by blast
  obtain fs rest where v: "event_values e = Inr (fs @ rest)" "encodes_fields fs (state_fields e)" "constructed_or_nothing rest"
    using event_values_shape [OF assms(1)] by blast
  have "event_parameters e = catR ([context_unsigned 0 (ev_process_identifier e),
      context_object_id 1 OBJECT_TYPE_DEVICE (ev_initiating_device e),
      (case ev_event_object e of (ot, inst) \<Rightarrow> context_object_id 2 ot inst)] @ [context_date_time 3 (d, t)] @
      [context_unsigned 4 (ev_notification_class e), context_unsigned 5 (ev_priority e),
      context_enumerated 6 EVENT_TYPE_OUT_OF_RANGE, optional (context_character_string 7) (ev_message_text e),
      context_enumerated 8 (ev_notify_type e)] @ [event_values e])"
    by (simp add: event_parameters_def stamp(1))
  also have "\<dots> = Inr (a @ op @ (op2 @ (0xA4 # d) @ (0xB4 # t) @ cl2 @ cl) @ b @ fs @ rest)"
    unfolding catR_append a(1) b(1) by (simp add: s(1) v(1))
  finally show thesis
    using that a(2) s(2-5) b(2) v(2,3) by blast
qed

text \<open>The notification that is decoded.\<close>

definition reported_event :: "frame \<Rightarrow> event_arguments \<Rightarrow> event_record" where
  "reported_event f e =
     \<lparr>n_frame = f, n_confirmed = ev_confirmed e, n_invoke_id = (if ev_confirmed e then Some (ev_invoke_id e) else None),
      n_process_identifier = Some (ev_process_identifier e),
      n_initiating_device = Some (OBJECT_TYPE_DEVICE, ev_initiating_device e), n_event_object = Some (ev_event_object e),
      n_time_stamp = Some (stamp_of e), n_notification_class = Some (ev_notification_class e),
      n_priority = Some (ev_priority e), n_event_type = Some EVENT_TYPE_OUT_OF_RANGE,
      n_notify_type = Some (ev_notify_type e),
      n_ack_required = (if is_acknowledgement e then None else Some (ev_ack_required e)),
      n_from_state = (if is_acknowledgement e then None else Some (ev_from_state e)),
      n_to_state = Some (ev_to_state e)\<rparr>"

abbreviation event_fold :: "(int \<times> bytes) list \<Rightarrow> event_record \<Rightarrow> event_record result" where
  "event_fold \<equiv> foldR (\<lambda>v. event_field (fst v) (snd v))"

lemma event_folds:
  assumes "valid_event e"
  shows "event_fold (leading_fields e) n = Inr (n\<lparr>n_process_identifier := Some (ev_process_identifier e),
      n_initiating_device := Some (OBJECT_TYPE_DEVICE, ev_initiating_device e), n_event_object := Some (ev_event_object e)\<rparr>)"
    and "event_fold (middle_fields e) n = Inr (n\<lparr>n_notification_class := Some (ev_notification_class e),
      n_priority := Some (ev_priority e), n_event_type := Some EVENT_TYPE_OUT_OF_RANGE, n_notify_type := Some (ev_notify_type e)\<rparr>)"
    and "n_ack_required n = None \<Longrightarrow> n_from_state n = None \<Longrightarrow>
      event_fold (state_fields e) n = Inr (n\<lparr>n_ack_required := (if is_acknowledgement e then None else Some (ev_ack_required e)),
      n_from_state := (if is_acknowledgement e then None else Some (ev_from_state e)), n_to_state := Some (ev_to_state e)\<rparr>)"
proof -
  have u: "\<And>v. v \<in> {ev_process_identifier e, ev_notification_class e, ev_priority e, ev_notify_type e, ev_from_state e,
      ev_to_state e, 5} \<Longrightarrow> int_from_bytes (int_content v) = v"
    using assms by (intro is_unsigned_content) (auto simp: valid_event_def is_unsigned_def)
  have o: "object_identifier_of (object_id_content 8 (ev_initiating_device e)) = Inr (8, ev_initiating_device e)"
      "object_identifier_of (object_id_content (fst (ev_event_object e)) (snd (ev_event_object e))) = Inr (ev_event_object e)"
    using assms object_identifier_of_content by (auto simp: valid_event_def)
  show "event_fold (leading_fields e) n = Inr (n\<lparr>n_process_identifier := Some (ev_process_identifier e),
      n_initiating_device := Some (OBJECT_TYPE_DEVICE, ev_initiating_device e), n_event_object := Some (ev_event_object e)\<rparr>)"
    using o u by (simp add: event_field_def Let_def)
  have "event_fold (field 7 text_content (ev_message_text e)) n = Inr n" for n
    by (cases "ev_message_text e") (simp_all add: field_def event_field_def Let_def)
  then show "event_fold (middle_fields e) n = Inr (n\<lparr>n_notification_class := Some (ev_notification_class e),
      n_priority := Some (ev_priority e), n_event_type := Some EVENT_TYPE_OUT_OF_RANGE, n_notify_type := Some (ev_notify_type e)\<rparr>)"
    using u by (simp add: foldR_append event_field_def Let_def)
  show "event_fold (state_fields e) n = Inr (n\<lparr>n_ack_required := (if is_acknowledgement e then None else Some (ev_ack_required e)),
      n_from_state := (if is_acknowledgement e then None else Some (ev_from_state e)), n_to_state := Some (ev_to_state e)\<rparr>)"
    if "n_ack_required n = None" and "n_from_state n = None"
    using u that by (cases n) (simp add: foldR_append event_field_def Let_def int_from_bytes_Cons)
qed

lemma scan_event_fields:
  "encodes_fields enc vs \<Longrightarrow> drop p octets = enc @ post \<Longrightarrow>
     scan_to (event_step octets) octets p n = bindR (event_fold vs n) (scan_to (event_step octets) octets (p + length enc))"
  by (rule scan_to_fields) (simp_all add: event_step_def)

lemma scan_event_rest:
  assumes "constructed_or_nothing rest" and "drop p octets = rest" and "p \<le> length octets"
  shows "scan_to (event_step octets) octets p n = Inr n"
proof (cases "rest = []")
  case True
  then show ?thesis
    using assms(2,3) by (intro scan_to_end) simp
next
  case False
  then obtain op v cl where rest: "rest = op @ v @ cl" and op: "encodes op 12 True Open []"
    and v: "well_tagged v" and cl: "encodes cl 12 True Close []"
    using assms(1) by (auto simp: constructed_or_nothing_def)
  have d0: "drop p octets = op @ v @ cl"
    using assms(2) rest by simp
  have d1: "drop (p + length op) octets = v @ cl @ []"
    using drop_after [OF d0] by simp
  have len: "length octets = p + length op + length v + length cl"
    using arg_cong [OF d0, of length] assms(3) by simp
  have "scan_to (event_step octets) octets p n = scan_to (event_step octets) octets (p + length op + length v + length cl) n"
    using constructed_end_value [OF v d1 cl]
    by (intro scan_to_step [OF op d0]) (simp_all add: event_step_def skip_constructed_eq)
  then show ?thesis
    by (simp add: scan_to_end len)
qed

lemma event_parameters_decode:
  assumes "valid_event e" and "event_parameters e = Inr octets"
  shows "scan_to (event_step octets) octets 0 (event_initial f (ev_confirmed e) (if ev_confirmed e then Some (ev_invoke_id e) else None)) =
    Inr (reported_event f e)"
proof -
  obtain d t where dt: "stamp_of e = (d, t)"
    by (cases "stamp_of e")
  have stamp: "is_stamp (d, t)"
    using event_stamp_is_stamp [of e] assms(1) dt by (simp add: valid_event_def)
  obtain a op op2 cl2 cl b fs rest where o: "octets = a @ op @ (op2 @ (0xA4 # d) @ (0xB4 # t) @ cl2 @ cl) @ b @ fs @ rest"
    and a: "encodes_fields a (leading_fields e)" and op: "encodes op 3 True Open []"
    and s: "encodes op2 2 True Open []" "encodes cl2 2 True Close []" "encodes cl 3 True Close []"
    and b: "encodes_fields b (middle_fields e)" and fs: "encodes_fields fs (state_fields e)" and rest: "constructed_or_nothing rest"
    by (rule event_parameters_shape [OF assms(1) dt]) (simp add: assms(2))
  define stamp_octets where "stamp_octets = op2 @ (0xA4 # d) @ (0xB4 # t) @ cl2 @ cl"
  have d0: "drop 0 octets = a @ op @ stamp_octets @ b @ fs @ rest"
    by (simp add: o stamp_octets_def)
  note d1 = drop_after [OF d0]
  note d2 = drop_after [OF d1]
  note d3 = drop_after [OF d2]
  note d4 = drop_after [OF d3]
  note d5 = drop_after [OF d4]
  let ?scan = "scan_to (event_step octets) octets"
  define n0 where "n0 = event_initial f (ev_confirmed e) (if ev_confirmed e then Some (ev_invoke_id e) else None)"
  define n1 where "n1 = n0\<lparr>n_process_identifier := Some (ev_process_identifier e),
      n_initiating_device := Some (OBJECT_TYPE_DEVICE, ev_initiating_device e), n_event_object := Some (ev_event_object e)\<rparr>"
  define n2 where "n2 = n1\<lparr>n_time_stamp := Some (d, t)\<rparr>"
  define n3 where "n3 = n2\<lparr>n_notification_class := Some (ev_notification_class e),
      n_priority := Some (ev_priority e), n_event_type := Some EVENT_TYPE_OUT_OF_RANGE, n_notify_type := Some (ev_notify_type e)\<rparr>"
  have "?scan 0 n0 = ?scan (0 + length a) n1"
    using scan_event_fields [OF a d0] event_folds(1) [OF assms(1)] by (simp add: n1_def)
  also have "\<dots> = ?scan (0 + length a + length op + length stamp_octets) n2"
    using read_time_stamp_at [OF stamp s, of "0 + length a + length op" octets "b @ fs @ rest"] d2
    by (intro scan_to_step [OF op d1]) (simp_all add: event_step_def stamp_octets_def n2_def add.assoc)
  also have "\<dots> = ?scan (0 + length a + length op + length stamp_octets + length b) n3"
    using scan_event_fields [OF b d3] event_folds(2) [OF assms(1)] by (simp add: n3_def)
  also have "\<dots> = bindR (event_fold (state_fields e) n3) (?scan (0 + length a + length op + length stamp_octets + length b + length fs))"
    by (rule scan_event_fields [OF fs d4])
  also have "event_fold (state_fields e) n3 = Inr (reported_event f e)"
    by (subst event_folds(3) [OF assms(1)])
      (simp_all add: n3_def n2_def n1_def n0_def event_initial_def reported_event_def dt)
  also have "bindR (Inr (reported_event f e)) (?scan (0 + length a + length op + length stamp_octets + length b + length fs)) =
      Inr (reported_event f e)"
    using scan_event_rest [OF rest d5, of "reported_event f e"] by (simp add: o stamp_octets_def)
  finally show ?thesis
    by (simp add: n0_def)
qed

lemma event_notification_shape:
  assumes "valid_event e" and "event_notification e = Inr apdu"
  obtains octets where "event_parameters e = Inr octets"
    and "apdu = (if ev_confirmed e then [0, 5, word_of_int (ev_invoke_id e), 2] else [0x10, 3]) @ octets"
proof -
  obtain octets where "event_parameters e = Inr octets"
    using assms(2) by (auto simp: event_notification_def bindR_Inr_iff)
  moreover have "is_octet (ev_invoke_id e)"
    using assms(1) by (simp add: valid_event_def)
  ultimately show thesis
    using that assms(2) confirmed_request_ok [of "ev_invoke_id e" 2 octets]
    by (simp add: event_notification_def is_octet_def bytes_of_def split: if_splits)
qed

lemma event_notification_ok: "valid_event e \<Longrightarrow> \<exists>apdu. event_notification e = Inr apdu"
proof -
  assume v: "valid_event e"
  obtain d t where dt: "stamp_of e = (d, t)"
    by (cases "stamp_of e")
  obtain octets where "event_parameters e = Inr octets"
    by (rule event_parameters_shape [OF v dt])
  then show ?thesis
    using v confirmed_request_ok [of "ev_invoke_id e" 2]
    by (simp add: event_notification_def valid_event_def is_octet_def bytes_of_def)
qed

lemma event_notification_decodes:
  assumes "valid_event e" and "event_notification e = Inr apdu" and "network_message f = None" and "payload f = apdu"
  shows "is_event_notification f = Inr True" and "EventNotification f = Inr (reported_event f e)"
proof -
  obtain octets where octets: "event_parameters e = Inr octets"
    and apdu: "apdu = (if ev_confirmed e then [0, 5, word_of_int (ev_invoke_id e), 2] else [0x10, 3]) @ octets"
    by (rule event_notification_shape [OF assms(1,2)])
  have u: "uint (word_of_int (ev_invoke_id e) :: octet) = ev_invoke_id e"
    using assms(1) by (intro uint_octet_small) (simp add: valid_event_def)
  show "is_event_notification f = Inr True"
    using assms(3,4) apdu by (simp add: is_event_notification_def pdu_type_def service_def drop_bit_eq_div split: if_splits)
  have t: "(pdu_type f = Some 0) = ev_confirmed e"
    using assms(3,4) apdu by (simp add: pdu_type_def drop_bit_eq_div)
  moreover have "ev_confirmed e \<Longrightarrow> invoke_id f = Inr (Some (ev_invoke_id e))"
    using assms(3,4) apdu u by (simp add: invoke_id_def pdu_type_def drop_bit_eq_div)
  ultimately show "EventNotification f = Inr (reported_event f e)"
    using event_parameters_decode [OF assms(1) octets] assms(4) apdu
    by (cases "ev_confirmed e") (simp_all add: EventNotification_def)
qed

end
