(* ===== verification/Workstation.thy ===== *)
theory Workstation
  imports Client Peer_Device Alarm_Laws
begin

unbundle bit_operations_syntax

text \<open>
  \<open>wiretest/workstation.py\<close>: a client that is also a recipient of event notifications. Its background thread keeps
  every notification, acknowledges the confirmed ones and hands every other answer to the request that waits for its
  invoke id. The operations come first, each as the source has it; an exception that leaves the thread's loop ends the
  thread. \<open>Workstation_Steps\<close> interleaves the two threads: its steps are the sections between two points where the other
  thread may run (the lock is held, or a datagram is sent).
\<close>

section \<open>State and receiving\<close>

definition RESPONSE_TYPES :: "int set" where
  "RESPONSE_TYPES = {PDU_SIMPLE_ACK, PDU_COMPLEX_ACK, PDU_ERROR, PDU_REJECT, PDU_ABORT}"

record workstation = outputs +
  answer_notifications :: bool
  ws_retries :: nat
  notifications :: "event_record list"
  responses :: "frame list"
  ws_invoke_id :: int
  thread_alive :: bool

definition Workstation :: "bool \<Rightarrow> nat \<Rightarrow> workstation" where
  "Workstation answering count =
     \<lparr>sent = [], retry_lines = [], answer_notifications = answering, ws_retries = count, notifications = [], responses = [],
      ws_invoke_id = 0, thread_alive = True\<rparr>"

text \<open>The SimpleACK of a confirmed notification and where it goes.\<close>

definition ack_datagram :: "frame \<Rightarrow> (bytes \<times> address) result" where
  "ack_datagram f =
     bindR (invoke_id f) (\<lambda>iid.
     bindR (require iid) (\<lambda>iid.
     bindR (simple_ack iid SERVICE_CONFIRMED_EVENT_NOTIFICATION) (\<lambda>apdu.
     bindR (npdu_plain apdu) (\<lambda>octets.
     bindR (bvlc octets False) (\<lambda>datagram. Inr (datagram, source f))))))"

text \<open>What \<open>_serve\<close> does with a frame before it sends: the notification or the answer kept, and the acknowledgement to be
  sent.\<close>

definition keep_received :: "frame \<Rightarrow> ('a workstation_scheme, (bytes \<times> address) option) action" where
  "keep_received f =
     (if \<not> ok f \<or> network_message f \<noteq> None then returnS None
      else
        bindS (liftS (is_event_notification f)) (\<lambda>event.
        if event then
          bindS (liftS (EventNotification f)) (\<lambda>n.
          thenS (modifyS (\<lambda>w. w\<lparr>notifications := notifications w @ [n]\<rparr>))
          (bindS (getS answer_notifications) (\<lambda>answering.
           if n_confirmed n \<and> answering then bindS (liftS (ack_datagram f)) (\<lambda>ack. returnS (Some ack))
           else returnS None)))
        else if pdu_type f \<in> Some ` RESPONSE_TYPES then
          thenS (modifyS (\<lambda>w. w\<lparr>responses := responses w @ [f]\<rparr>)) (returnS None)
        else returnS None))"

definition serve_arrival :: "arrival \<Rightarrow> ('a workstation_scheme, (bytes \<times> address) option) action" where
  "serve_arrival a =
     (case a of
        ConnectionReset \<Rightarrow> returnS None
      | Datagram data src \<Rightarrow> bindS (liftS (Frame data src)) keep_received)"

text \<open>One turn of \<open>_serve\<close>; an exception ends the thread, and a thread that has ended receives nothing.\<close>

definition ws_turn :: "arrival \<Rightarrow> 'a workstation_scheme \<Rightarrow> (bytes \<times> address) option \<times> 'a workstation_scheme" where
  "ws_turn a w =
     (if \<not> thread_alive w then (None, w)
      else case serve_arrival a w of
        (Inl e, w') \<Rightarrow> (None, w'\<lparr>thread_alive := False\<rparr>)
      | (Inr ack, w') \<Rightarrow> (ack, w'))"

definition ws_receive :: "arrival \<Rightarrow> 'a workstation_scheme \<Rightarrow> 'a workstation_scheme" where
  "ws_receive a w =
     (case ws_turn a w of (None, w') \<Rightarrow> w' | (Some (octets, dst), w') \<Rightarrow> snd (send octets dst w'))"

definition ws_close :: "'a workstation_scheme \<Rightarrow> 'a workstation_scheme" where
  "ws_close w = w\<lparr>thread_alive := False\<rparr>"

text \<open>\<open>wait_for_notification\<close>: the scan from index \<open>after\<close>, repeated after each arrival before the deadline.\<close>

fun wait_for_notification :: "(event_record \<Rightarrow> bool) \<Rightarrow> nat \<Rightarrow> arrival list \<Rightarrow> 'a workstation_scheme \<Rightarrow>
    event_record option \<times> 'a workstation_scheme" where
  "wait_for_notification predicate after arrivals w =
     (case find predicate (drop after (notifications w)) of
        Some n \<Rightarrow> (Some n, w)
      | None \<Rightarrow>
          (case arrivals of
             [] \<Rightarrow> (None, w)
           | a # rest \<Rightarrow> wait_for_notification predicate after rest (ws_receive a w)))"

declare wait_for_notification.simps [simp del]

definition notifications_since :: "nat \<Rightarrow> 'a workstation_scheme \<Rightarrow> event_record list" where
  "notifications_since after w = drop after (notifications w)"

definition mark :: "'a workstation_scheme \<Rightarrow> nat" where
  "mark w = length (notifications w)"

section \<open>Requesting\<close>

text \<open>\<open>[frame for frame in self._responses if frame.invoke_id != invoke_id]\<close>, and the scan that takes the first answer.\<close>

fun drop_responses :: "int \<Rightarrow> frame list \<Rightarrow> frame list result" where
  "drop_responses i [] = Inr []"
| "drop_responses i (f # fs) =
     bindR (invoke_id f) (\<lambda>j. bindR (drop_responses i fs) (\<lambda>gs. Inr (if j \<noteq> Some i then f # gs else gs)))"

fun take_response :: "int \<Rightarrow> frame list \<Rightarrow> (frame \<times> frame list) option result" where
  "take_response i [] = Inr None"
| "take_response i (f # fs) =
     bindR (invoke_id f) (\<lambda>j.
       if j = Some i then Inr (Some (f, fs))
       else bindR (take_response i fs) (\<lambda>r. Inr (map_option (\<lambda>(g, gs). (g, f # gs)) r)))"

definition ws_begin :: "('a workstation_scheme, int) action" where
  "ws_begin =
     thenS (modifyS (\<lambda>w. w\<lparr>ws_invoke_id := (ws_invoke_id w + 1) mod 256\<rparr>))
     (bindS (getS (\<lambda>w. (ws_invoke_id w, responses w))) (\<lambda>(i, fs).
      bindS (liftS (drop_responses i fs)) (\<lambda>kept.
      thenS (modifyS (\<lambda>w. w\<lparr>responses := kept\<rparr>)) (returnS i))))"

fun ws_wait :: "int \<Rightarrow> arrival list \<Rightarrow> ('a workstation_scheme, frame option) action" where
  "ws_wait i arrivals w =
     (case take_response i (responses w) of
        Inl e \<Rightarrow> (Inl e, w)
      | Inr (Some (f, rest)) \<Rightarrow> (Inr (Some f), w\<lparr>responses := rest\<rparr>)
      | Inr None \<Rightarrow>
          (case arrivals of
             [] \<Rightarrow> (Inr None, w)
           | a # rest \<Rightarrow> ws_wait i rest (ws_receive a w)))"

declare ws_wait.simps [simp del]

definition ws_attempt :: "bytes \<Rightarrow> address \<Rightarrow> int \<Rightarrow> (nat \<Rightarrow> arrival list) \<Rightarrow> nat \<Rightarrow> ('a workstation_scheme, frame option) action" where
  "ws_attempt octets dst i arrivals k = thenS (send octets dst) (ws_wait i (arrivals k))"

definition ws_request :: "(int \<Rightarrow> bytes result) \<Rightarrow> address \<Rightarrow> (nat \<Rightarrow> arrival list) \<Rightarrow> ('a workstation_scheme, answer) action" where
  "ws_request build_apdu dst arrivals =
     bindS ws_begin (\<lambda>i.
     bindS (liftS (bindR (build_apdu i) (\<lambda>apdu. request_datagram apdu None []))) (\<lambda>octets.
     bindS (getS ws_retries) (\<lambda>count.
     send_with_retries i (ws_attempt octets dst i arrivals) count)))"

definition send_unconfirmed :: "bytes \<Rightarrow> address \<Rightarrow> ('a workstation_scheme, unit) action" where
  "send_unconfirmed apdu dst =
     bindS (liftS (bindR (npdu_plain apdu) (\<lambda>octets. bvlc octets False))) (\<lambda>datagram. send datagram dst)"

definition ws_announce :: "int \<Rightarrow> address \<Rightarrow> int \<Rightarrow> ('a workstation_scheme, unit) action" where
  "ws_announce inst dst vendor =
     bindS (liftS (i_am inst vendor 1476 3)) (\<lambda>apdu. send_unconfirmed apdu dst)"

end
