(* ===== verification/Workstation_Steps.thy ===== *)
theory Workstation_Steps
  imports Workstation
begin

unbundle bit_operations_syntax

text \<open>
  The two threads of a workstation. \<open>ws_step\<close> interleaves the background thread (a turn of its loop, the sending of an
  acknowledgement) with the thread of the test (a call of \<open>request\<close>, the sending of an attempt, the scan that takes an
  answer, the end of a wait). \<open>ws_run\<close> is a sequence of steps with its events. The invariants by rule induction: what
  the lists hold, that every confirmed notification is acknowledged exactly once and in order, and that a request never
  returns an answer that was there before it.
\<close>

section \<open>Steps\<close>

datatype main_state =
    Idle
  | Sending int bytes address nat
  | Waiting int bytes address nat
  | Returned answer
  | Raised py_error

fun at_rest :: "main_state \<Rightarrow> bool" where
  "at_rest (Sending i octets dst n) = False"
| "at_rest (Waiting i octets dst n) = False"
| "at_rest _ = True"

record ws_system = workstation +
  pending :: "(bytes \<times> address) option"
  main :: main_state

datatype ws_event =
    Arrived arrival
  | Acknowledged bytes address
  | Called address
  | SentRequest bytes address
  | Took frame
  | TimedOut
  | ScanRaised py_error
  | SentUnconfirmed bytes address

text \<open>What \<open>request\<close> does up to its first attempt.\<close>

definition ws_call :: "(int \<Rightarrow> bytes result) \<Rightarrow> address \<Rightarrow> ws_system \<Rightarrow> ws_system" where
  "ws_call build dst s =
     (case ws_begin s of
        (Inl e, s') \<Rightarrow> s'\<lparr>main := Raised e\<rparr>
      | (Inr i, s') \<Rightarrow>
          (case bindR (build i) (\<lambda>apdu. request_datagram apdu None []) of
             Inl e \<Rightarrow> s'\<lparr>main := Raised e\<rparr>
           | Inr octets \<Rightarrow> s'\<lparr>main := Sending i octets dst (ws_retries s)\<rparr>))"

inductive ws_step :: "ws_system \<Rightarrow> ws_event \<Rightarrow> ws_system \<Rightarrow> bool" where
  receive: "thread_alive s \<Longrightarrow> pending s = None \<Longrightarrow> ws_turn a s = (ack, s') \<Longrightarrow>
    ws_step s (Arrived a) (s'\<lparr>pending := ack\<rparr>)"
| acknowledge: "pending s = Some (octets, dst) \<Longrightarrow>
    ws_step s (Acknowledged octets dst) (s\<lparr>sent := sent s @ [(octets, dst)], pending := None\<rparr>)"
| call: "at_rest (main s) \<Longrightarrow> ws_step s (Called dst) (ws_call build dst s)"
| send_request: "main s = Sending i octets dst n \<Longrightarrow>
    ws_step s (SentRequest octets dst) (s\<lparr>sent := sent s @ [(octets, dst)], main := Waiting i octets dst n\<rparr>)"
| take: "main s = Waiting i octets dst n \<Longrightarrow> take_response i (responses s) = Inr (Some (f, rest)) \<Longrightarrow>
    ws_step s (Took f) (s\<lparr>responses := rest, main := Returned (Some f)\<rparr>)"
| retry: "main s = Waiting i octets dst (Suc n) \<Longrightarrow> take_response i (responses s) = Inr None \<Longrightarrow>
    ws_step s TimedOut (s\<lparr>retry_lines := retry_lines s @ [i], main := Sending i octets dst n\<rparr>)"
| give_up: "main s = Waiting i octets dst 0 \<Longrightarrow> take_response i (responses s) = Inr None \<Longrightarrow>
    ws_step s TimedOut (s\<lparr>main := Returned None\<rparr>)"
| scan_raises: "main s = Waiting i octets dst n \<Longrightarrow> take_response i (responses s) = Inl e \<Longrightarrow>
    ws_step s (ScanRaised e) (s\<lparr>main := Raised e\<rparr>)"
| unconfirmed: "at_rest (main s) \<Longrightarrow> send_unconfirmed apdu dst s = (r, s') \<Longrightarrow> ws_step s (SentUnconfirmed apdu dst) s'"

inductive_cases ws_step_arrived [elim]: "ws_step s (Arrived a) t"
inductive_cases ws_step_called [elim]: "ws_step s (Called dst) t"
inductive_cases ws_step_took [elim]: "ws_step s (Took f) t"

inductive ws_run :: "ws_system \<Rightarrow> ws_event list \<Rightarrow> ws_system \<Rightarrow> bool" for s where
  run_start: "ws_run s [] s"
| run_step: "ws_run s events t \<Longrightarrow> ws_step t e u \<Longrightarrow> ws_run s (events @ [e]) u"

definition ws_start :: "bool \<Rightarrow> nat \<Rightarrow> ws_system" where
  "ws_start answering count = workstation.extend (Workstation answering count) \<lparr>pending = None, main = Idle\<rparr>"

section \<open>One turn of the background thread\<close>

lemma EventNotification_frame:
  assumes "EventNotification f = Inr n"
  shows "n_frame n = f" and "n_confirmed n = (pdu_type f = Some PDU_CONFIRMED_REQUEST)"
    and "n_confirmed n \<Longrightarrow> invoke_id f = Inr (n_invoke_id n)"
proof -
  obtain octets iid where scan: "scan_to (event_step octets) octets 0 (event_initial f (pdu_type f = Some 0) iid) = Inr n"
      and iid: "pdu_type f = Some 0 \<longrightarrow> invoke_id f = Inr iid"
    using assms by (auto simp: EventNotification_def Let_def bindR_Inr_iff split: if_splits)
  from scan have "n_frame n = f \<and> n_confirmed n = (pdu_type f = Some 0) \<and> n_invoke_id n = iid"
    by (rule scan_to_invariant)
      (auto simp: event_initial_def event_step_def event_field_def Let_def bindR_Inr_iff split: if_splits)
  then show "n_frame n = f" and "n_confirmed n = (pdu_type f = Some PDU_CONFIRMED_REQUEST)"
      and "n_confirmed n \<Longrightarrow> invoke_id f = Inr (n_invoke_id n)"
    using iid by simp_all
qed

lemma ack_datagram_ok:
  assumes "is_event_notification f = Inr True" and "pdu_type f = Some PDU_CONFIRMED_REQUEST"
  shows "\<exists>x. ack_datagram f = Inr (x, source f)"
proof -
  have len: "length (payload f) > 3"
    using assms by (auto simp: is_event_notification_def service_def bindR_Inr_iff split: if_splits)
  define iid where "iid = uint (payload f ! 2)"
  have id: "invoke_id f = Inr (Some iid)"
    using len assms(2) by (simp add: invoke_id_def iid_def)
  have "is_octet iid"
    by (simp add: iid_def)
  then obtain apdu where apdu: "simple_ack iid 2 = Inr apdu" "length apdu = 3"
    by (simp add: simple_ack_def bytes_of_def is_octet_def)
  have v: "valid_npdu None None [] None [] 255"
    by (simp add: valid_npdu_def is_octet_def)
  obtain octets where octets: "npdu_plain apdu = Inr octets" "length octets = 2 + length apdu"
    using npdu_shape [OF v] by (auto simp: address_octets_def)
  then obtain x where "bvlc octets False = Inr x"
    using bvll_ok [of BVLC_ORIGINAL_UNICAST octets] apdu(2) by (auto simp: bvlc_def is_octet_def)
  then show ?thesis
    using id apdu(1) octets(1) by (simp add: ack_datagram_def)
qed

text \<open>A turn keeps nothing, or a notification, or an answer.\<close>

lemma keep_received_cases:
  assumes "keep_received f s = (r, s')"
  obtains (unchanged) e where "s' = s" and "r = Inr None \<or> r = Inl e"
  | (notification) n ack where "is_event_notification f = Inr True" and "EventNotification f = Inr n"
      and "s' = s\<lparr>notifications := notifications s @ [n]\<rparr>" and "r = Inr ack"
      and "if n_confirmed n \<and> answer_notifications s then ack_datagram f = Inr (the ack) \<and> ack \<noteq> None else ack = None"
  | (response) "ok f" and "network_message f = None" and "pdu_type f \<in> Some ` RESPONSE_TYPES"
      and "s' = s\<lparr>responses := responses s @ [f]\<rparr>" and "r = Inr None"
proof -
  consider "\<not> ok f \<or> network_message f \<noteq> None"
    | e where "ok f" "network_message f = None" "is_event_notification f = Inl e"
    | e where "ok f" "network_message f = None" "is_event_notification f = Inr True" "EventNotification f = Inl e"
    | n where "ok f" "network_message f = None" "is_event_notification f = Inr True" "EventNotification f = Inr n"
    | "ok f" "network_message f = None" "is_event_notification f = Inr False"
    by (cases "is_event_notification f"; cases "EventNotification f") auto
  then show thesis
  proof cases
    case (4 n)
    show thesis
    proof (cases "n_confirmed n \<and> answer_notifications s")
      case True
      then obtain x where "ack_datagram f = Inr (x, source f)"
        using ack_datagram_ok [of f] 4 EventNotification_frame [OF 4(4)] by auto
      then show thesis
        using notification [OF 4(3,4), of "Some (x, source f)"] assms 4 True by (auto simp: keep_received_def)
    next
      case False
      then show thesis
        using notification [OF 4(3,4), of None] assms 4 by (auto simp: keep_received_def)
    qed
  next
    case 5
    then show thesis
      using response unchanged assms by (cases "pdu_type f \<in> Some ` RESPONSE_TYPES") (auto simp: keep_received_def)
  qed (use unchanged assms in \<open>auto simp: keep_received_def\<close>)
qed

lemma ws_turn_cases:
  assumes "ws_turn a s = (ack, s')"
  obtains (unchanged) b where "s' = s\<lparr>thread_alive := b\<rparr>" and "ack = None"
  | (notification) data src f n where "a = Datagram data src" and "Frame data src = Inr f" and "is_event_notification f = Inr True"
      and "EventNotification f = Inr n" and "s' = s\<lparr>notifications := notifications s @ [n]\<rparr>"
      and "if n_confirmed n \<and> answer_notifications s then ack_datagram f = Inr (the ack) \<and> ack \<noteq> None else ack = None"
  | (response) data src f where "a = Datagram data src" and "Frame data src = Inr f" and "ok f" and "network_message f = None"
      and "pdu_type f \<in> Some ` RESPONSE_TYPES" and "s' = s\<lparr>responses := responses s @ [f]\<rparr>" and "ack = None"
proof (cases "thread_alive s \<and> a \<noteq> ConnectionReset")
  case False
  then have "s' = s\<lparr>thread_alive := thread_alive s\<rparr>" and "ack = None"
    using assms by (cases "thread_alive s", auto simp: ws_turn_def serve_arrival_def)+
  then show thesis
    by (rule unchanged)
next
  case True
  then obtain data src where alive: "thread_alive s" and a: "a = Datagram data src"
    by (cases a) auto
  show thesis
  proof (cases "Frame data src")
    case (Inl e)
    then show thesis
      using unchanged [of False] assms alive a by (auto simp: ws_turn_def serve_arrival_def)
  next
    case (Inr f)
    obtain r s1 where k: "keep_received f s = (r, s1)"
      by (cases "keep_received f s")
    have turn: "(case r of Inl e \<Rightarrow> (None, s1\<lparr>thread_alive := False\<rparr>) | Inr ack \<Rightarrow> (ack, s1)) = (ack, s')"
      using assms alive a Inr k by (auto simp: ws_turn_def serve_arrival_def split: sum.splits)
    from k show thesis
    proof (cases rule: keep_received_cases)
      case (unchanged e)
      have "s' = s\<lparr>thread_alive := thread_alive s \<and> r = Inr None\<rparr>" and "ack = None"
        using turn unchanged alive by (auto split: sum.splits)
      then show thesis
        by (rule that(1))
    next
      case (notification n ack')
      then show thesis
        using turn that(2) [OF a Inr] by auto
    next
      case response
      then show thesis
        using turn that(3) [OF a Inr] by auto
    qed
  qed
qed

section \<open>The list of answers\<close>

lemma drop_responses_kept:
  "drop_responses i fs = Inr gs \<Longrightarrow> set gs \<subseteq> set fs \<and> (\<forall>f \<in> set gs. invoke_id f \<noteq> Inr (Some i))"
  by (induction fs arbitrary: gs) (fastforce simp: bindR_Inr_iff split: if_splits)+

lemma take_response_Some:
  "take_response i fs = Inr (Some (f, rest)) \<Longrightarrow> f \<in> set fs \<and> invoke_id f = Inr (Some i) \<and> set rest \<subseteq> set fs"
  by (induction fs arbitrary: rest) (fastforce simp: bindR_Inr_iff split: if_splits)+

lemma take_response_append:
  "take_response i fs = Inr None \<Longrightarrow> take_response i (fs @ gs) = bindR (take_response i gs) (\<lambda>r. Inr (map_option (\<lambda>(g, rest). (g, fs @ rest)) r))"
proof (induction fs)
  case Nil
  then show ?case
    by (cases "take_response i gs") (auto simp: option.map_ident_strong)
next
  case (Cons f fs)
  then show ?case
    by (cases "take_response i gs") (auto simp: bindR_Inr_iff option.map_comp comp_def split_def split: if_splits)
qed

lemma take_response_prefix: "take_response i (fs @ gs) = Inr None \<Longrightarrow> take_response i fs = Inr None"
  by (induction fs) (auto simp: bindR_Inr_iff split: if_splits)

text \<open>\<open>request\<close> takes the next invoke id and keeps no answer that carries it.\<close>

lemma ws_begin_result:
  assumes "ws_begin s = (r, s')"
  obtains fs where "s' = s\<lparr>ws_invoke_id := (ws_invoke_id s + 1) mod 256, responses := fs\<rparr>" and "set fs \<subseteq> set (responses s)"
    and "\<forall>i. r = Inr i \<longrightarrow> i = (ws_invoke_id s + 1) mod 256 \<and> (\<forall>f \<in> set fs. invoke_id f \<noteq> Inr (Some i))"
proof (cases "drop_responses ((ws_invoke_id s + 1) mod 256) (responses s)")
  case (Inl e)
  then show thesis
    using assms by (intro that [of "responses s"]) (auto simp: ws_begin_def)
next
  case (Inr fs)
  then show thesis
    using assms drop_responses_kept [OF Inr] by (intro that [of fs]) (auto simp: ws_begin_def)
qed

lemma ws_call_result:
  obtains fs m where "ws_call build dst s = s\<lparr>ws_invoke_id := (ws_invoke_id s + 1) mod 256, responses := fs, main := m\<rparr>"
    and "set fs \<subseteq> set (responses s)"
    and "(\<exists>octets. m = Sending ((ws_invoke_id s + 1) mod 256) octets dst (ws_retries s) \<and>
           (\<forall>f \<in> set fs. invoke_id f \<noteq> Inr (Some ((ws_invoke_id s + 1) mod 256)))) \<or> (\<exists>e. m = Raised e)"
proof -
  obtain r s' where b: "ws_begin s = (r, s')"
    by (cases "ws_begin s")
  obtain fs where fs: "s' = s\<lparr>ws_invoke_id := (ws_invoke_id s + 1) mod 256, responses := fs\<rparr>" "set fs \<subseteq> set (responses s)"
    "\<forall>i. r = Inr i \<longrightarrow> i = (ws_invoke_id s + 1) mod 256 \<and> (\<forall>f \<in> set fs. invoke_id f \<noteq> Inr (Some i))"
    by (rule ws_begin_result [OF b])
  show thesis
  proof (cases r)
    case (Inl e)
    then show thesis
      using b fs by (intro that [where fs = fs and m = "Raised e"]) (simp_all add: ws_call_def)
  next
    case (Inr i)
    then show thesis
      using b fs that [where fs = fs] by (cases "bindR (build i) (\<lambda>apdu. request_datagram apdu None [])") (auto simp: ws_call_def)
  qed
qed

lemma send_unconfirmed_state: "send_unconfirmed apdu dst s = (r, s') \<Longrightarrow> \<exists>x. s' = s\<lparr>sent := x\<rparr>"
  by (cases "bindR (npdu_plain apdu) (\<lambda>octets. bvlc octets False)")
    (auto simp: send_unconfirmed_def send_def intro: exI [of _ "sent s"])

section \<open>What the lists hold\<close>

definition is_response :: "frame \<Rightarrow> bool" where
  "is_response f \<longleftrightarrow> ok f \<and> network_message f = None \<and> pdu_type f \<in> Some ` RESPONSE_TYPES"

definition is_notification :: "event_record \<Rightarrow> bool" where
  "is_notification n \<longleftrightarrow> is_event_notification (n_frame n) = Inr True \<and> EventNotification (n_frame n) = Inr n"

fun main_typed :: "main_state \<Rightarrow> bool" where
  "main_typed (Sending i octets dst n) = is_octet i"
| "main_typed (Waiting i octets dst n) = is_octet i"
| "main_typed (Returned a) = pred_option is_response a"
| "main_typed _ = True"

definition ws_typed :: "ws_system \<Rightarrow> bool" where
  "ws_typed s \<longleftrightarrow> list_all is_response (responses s) \<and> list_all is_notification (notifications s) \<and>
     is_octet (ws_invoke_id s) \<and> main_typed (main s)"

lemma ws_turn_typed:
  assumes "ws_typed s" and "ws_turn a s = (ack, s')"
  shows "ws_typed (s'\<lparr>pending := ack\<rparr>)"
  using assms(2)
proof (cases rule: ws_turn_cases)
  case (notification data src f n)
  then have "is_notification n"
    using EventNotification_frame(1) by (simp add: is_notification_def)
  then show ?thesis
    using notification assms(1) by (simp add: ws_typed_def)
qed (use assms(1) in \<open>auto simp: ws_typed_def is_response_def\<close>)

lemma list_all_subset: "list_all P xs \<Longrightarrow> set ys \<subseteq> set xs \<Longrightarrow> list_all P ys"
  by (auto simp: list_all_iff)

lemma ws_step_typed: "ws_step s e t \<Longrightarrow> ws_typed s \<Longrightarrow> ws_typed t"
proof (induction rule: ws_step.induct)
  case (receive s a ack s')
  then show ?case
    by (intro ws_turn_typed)
next
  case (call s dst build)
  obtain fs m where c: "ws_call build dst s = s\<lparr>ws_invoke_id := (ws_invoke_id s + 1) mod 256, responses := fs, main := m\<rparr>"
    "set fs \<subseteq> set (responses s)" "(\<exists>octets. m = Sending ((ws_invoke_id s + 1) mod 256) octets dst (ws_retries s) \<and>
       (\<forall>f \<in> set fs. invoke_id f \<noteq> Inr (Some ((ws_invoke_id s + 1) mod 256)))) \<or> (\<exists>e. m = Raised e)"
    by (rule ws_call_result)
  moreover have "is_octet ((ws_invoke_id s + 1) mod 256)"
    by (simp add: is_octet_def)
  ultimately show ?case
    using call(2) by (auto simp: ws_typed_def intro: list_all_subset)
next
  case (take s i octets dst n f rest)
  then show ?case
    using take_response_Some [OF take(2)] by (auto simp: ws_typed_def list_all_iff)
next
  case (unconfirmed s apdu dst r s')
  then show ?case
    using send_unconfirmed_state [OF unconfirmed(2)] by (auto simp: ws_typed_def)
qed (auto simp: ws_typed_def)

lemma ws_run_typed: "ws_run s events t \<Longrightarrow> ws_typed s \<Longrightarrow> ws_typed t"
  by (induction rule: ws_run.induct) (auto dest: ws_step_typed)

lemma ws_start_simps [simp]:
  "ws_retries (ws_start b n) = n"
  "responses (ws_start b n) = []" "notifications (ws_start b n) = []" "ws_invoke_id (ws_start b n) = 0"
  "main (ws_start b n) = Idle" "pending (ws_start b n) = None" "answer_notifications (ws_start b n) = b"
  "thread_alive (ws_start b n) = True" "sent (ws_start b n) = []"
  by (simp_all add: ws_start_def Workstation_def workstation.extend_def)

lemma ws_start_typed: "ws_typed (ws_start b n)"
  by (simp add: ws_typed_def is_octet_def)

section \<open>Acknowledgements\<close>

fun acknowledged :: "ws_event list \<Rightarrow> (bytes \<times> address) list" where
  "acknowledged [] = []"
| "acknowledged (Acknowledged octets dst # es) = (octets, dst) # acknowledged es"
| "acknowledged (_ # es) = acknowledged es"

lemma acknowledged_append [simp]: "acknowledged (es @ fs) = acknowledged es @ acknowledged fs"
  by (induction es rule: acknowledged.induct) auto

definition due :: "ws_system \<Rightarrow> (bytes \<times> address) list" where
  "due s = (case pending s of None \<Rightarrow> [] | Some a \<Rightarrow> [a])"

definition acknowledgements :: "event_record list \<Rightarrow> (bytes \<times> address) result list" where
  "acknowledgements ns = map (\<lambda>n. ack_datagram (n_frame n)) (filter n_confirmed ns)"

text \<open>The acknowledgements sent and the one about to be sent are those of the confirmed notifications kept.\<close>

definition acks_match :: "bool \<Rightarrow> ws_event list \<Rightarrow> ws_system \<Rightarrow> bool" where
  "acks_match answering events s \<longleftrightarrow> answer_notifications s = answering \<and>
     map Inr (acknowledged events @ due s) = (if answering then acknowledgements (notifications s) else [])"

lemma acks_match_turn:
  assumes "acks_match answering events s" and "pending s = None" and "ws_turn a s = (ack, s')"
  shows "acks_match answering (events @ [Arrived a]) (s'\<lparr>pending := ack\<rparr>)"
  using assms(3)
proof (cases rule: ws_turn_cases)
  case (notification data src f n)
  have "n_frame n = f"
    using EventNotification_frame(1) [OF notification(4)] .
  then show ?thesis
    using assms(1,2) notification(5,6)
    by (auto simp: acks_match_def due_def acknowledgements_def split: if_splits option.splits)
qed (use assms(1,2) in \<open>auto simp: acks_match_def due_def split: if_splits\<close>)

lemma acks_match_step:
  "ws_step s e t \<Longrightarrow> acks_match answering events s \<Longrightarrow> acks_match answering (events @ [e]) t"
proof (induction rule: ws_step.induct)
  case (receive s a ack s')
  then show ?case
    using acks_match_turn by blast
next
  case (acknowledge s octets dst)
  then show ?case
    by (simp add: acks_match_def due_def split: if_splits)
next
  case (call s dst build)
  obtain fs m where "ws_call build dst s = s\<lparr>ws_invoke_id := (ws_invoke_id s + 1) mod 256, responses := fs, main := m\<rparr>"
    by (rule ws_call_result)
  then show ?case
    using call(2) by (simp add: acks_match_def due_def)
next
  case (unconfirmed s apdu dst r s')
  then show ?case
    using send_unconfirmed_state [OF unconfirmed(2)] by (auto simp: acks_match_def due_def)
qed (simp_all add: acks_match_def due_def)

lemma ws_run_acks:
  assumes "ws_run (ws_start answering n) events s"
  shows "acks_match answering events s"
  using assms
proof (induction rule: ws_run.induct)
  case run_start
  then show ?case
    by (simp add: acks_match_def due_def acknowledgements_def)
next
  case (run_step events t e u)
  then show ?case
    using acks_match_step by blast
qed

section \<open>No answer from before the request\<close>

definition arrived :: "ws_event list \<Rightarrow> frame set" where
  "arrived events = {f. \<exists>data src. Arrived (Datagram data src) \<in> set events \<and> Frame data src = Inr f}"

lemma arrived_snoc: "arrived events \<subseteq> arrived (events @ [e])"
  by (auto simp: arrived_def)

fun main_fresh :: "int \<Rightarrow> frame set \<Rightarrow> main_state \<Rightarrow> bool" where
  "main_fresh i fs (Sending j octets dst n) = (j = i)"
| "main_fresh i fs (Waiting j octets dst n) = (j = i)"
| "main_fresh i fs (Returned a) = pred_option (\<lambda>f. f \<in> fs \<and> invoke_id f = Inr (Some i)) a"
| "main_fresh i fs (Raised e) = True"
| "main_fresh i fs Idle = False"

lemma main_fresh_mono: "main_fresh i fs m \<Longrightarrow> fs \<subseteq> gs \<Longrightarrow> main_fresh i gs m"
  by (cases m) (auto simp: option.pred_set)

text \<open>Since the call, every answer with the request's invoke id is one that has arrived, unless the call raised.\<close>

definition fresh :: "int \<Rightarrow> ws_event list \<Rightarrow> ws_system \<Rightarrow> bool" where
  "fresh i events s \<longleftrightarrow> main_fresh i (arrived events) (main s) \<and>
     (at_rest (main s) \<or> (\<forall>f \<in> set (responses s). invoke_id f = Inr (Some i) \<longrightarrow> f \<in> arrived events))"

lemma fresh_turn:
  assumes "fresh i events s" and "ws_turn a s = (ack, s')"
  shows "fresh i (events @ [Arrived a]) (s'\<lparr>pending := ack\<rparr>)"
  using assms(2)
proof (cases rule: ws_turn_cases)
  case (response data src f)
  then have "f \<in> arrived (events @ [Arrived a])"
    unfolding arrived_def by (auto simp del: split_paired_Ex)
  then show ?thesis
    using response assms(1) main_fresh_mono [OF _ arrived_snoc] arrived_snoc [of events "Arrived a"] by (auto simp: fresh_def)
qed (use assms(1) main_fresh_mono [OF _ arrived_snoc] arrived_snoc [of events "Arrived a"] in \<open>auto simp: fresh_def\<close>)

lemma fresh_step:
  "ws_step s e t \<Longrightarrow> fresh i events s \<Longrightarrow> (\<forall>dst. e \<noteq> Called dst) \<Longrightarrow> fresh i (events @ [e]) t"
proof (induction rule: ws_step.induct)
  case (receive s a ack s')
  then show ?case
    using fresh_turn by blast
next
  case (take s j octets dst n f rest)
  then show ?case
    using take_response_Some [OF take(2)] arrived_snoc [of events "Took f"] by (auto simp: fresh_def)
next
  case (unconfirmed s apdu dst r s')
  then show ?case
    using send_unconfirmed_state [OF unconfirmed(2)] main_fresh_mono [OF _ arrived_snoc] by (auto simp: fresh_def)
next
  case (acknowledge s octets dst)
  then show ?case
    using main_fresh_mono [OF _ arrived_snoc] arrived_snoc [of events "Acknowledged octets dst"] by (auto simp: fresh_def)
qed (use arrived_snoc in \<open>force simp: fresh_def\<close>)+

lemma ws_run_fresh:
  assumes "ws_run (ws_call build dst s) events t" and "\<forall>dst. Called dst \<notin> set events"
  shows "fresh ((ws_invoke_id s + 1) mod 256) events t"
  using assms
proof (induction rule: ws_run.induct)
  case run_start
  obtain fs m where "ws_call build dst s = s\<lparr>ws_invoke_id := (ws_invoke_id s + 1) mod 256, responses := fs, main := m\<rparr>"
    "(\<exists>octets. m = Sending ((ws_invoke_id s + 1) mod 256) octets dst (ws_retries s) \<and>
       (\<forall>f \<in> set fs. invoke_id f \<noteq> Inr (Some ((ws_invoke_id s + 1) mod 256)))) \<or> (\<exists>e. m = Raised e)"
    by (rule ws_call_result)
  then show ?case
    by (auto simp: fresh_def)
next
  case (run_step events t e u)
  then have "\<forall>dst. e \<noteq> Called dst" and "fresh ((ws_invoke_id s + 1) mod 256) events t"
    by (auto simp del: split_paired_All)
  then show ?case
    using fresh_step [OF run_step.hyps(2)] by blast
qed

end
