(* ===== verification/Workstation_Laws.thy ===== *)
theory Workstation_Laws
  imports Workstation_Steps
begin

text \<open>
  The operations of a workstation as calls: \<open>request\<close> returns the answer that arrives and serves the notifications
  that arrive before it; its runs are runs of the two interleaved threads, so what holds of every interleaving holds of
  the call. The last part is what breaks a workstation: a datagram that ends its thread, an answer without an invoke id.
\<close>

section \<open>Receiving\<close>

lemma ws_receive_cases:
  obtains fs where "responses (ws_receive a w) = responses w @ fs" and "\<forall>f \<in> set fs. is_response f"
proof -
  obtain ack w' where t: "ws_turn a w = (ack, w')"
    by (cases "ws_turn a w")
  have r: "responses (ws_receive a w) = responses w'"
    using t by (cases ack) (auto simp: ws_receive_def send_def)
  from t show thesis
  proof (cases rule: ws_turn_cases)
    case (response data src f)
    then show thesis
      using that [of "[f]"] r by (simp add: is_response_def)
  qed (use that [of "[]"] r in auto)
qed

lemma ws_receive_dead [simp]: "\<not> thread_alive w \<Longrightarrow> ws_receive a w = w"
  by (simp add: ws_receive_def ws_turn_def)

lemma ws_receive_response:
  assumes "thread_alive w" and "Frame data src = Inr f" and "is_response f" and "is_event_notification f = Inr False"
  shows "ws_receive (Datagram data src) w = w\<lparr>responses := responses w @ [f]\<rparr>"
  using assms by (simp add: ws_receive_def ws_turn_def serve_arrival_def keep_received_def is_response_def)

lemma response_not_event: "is_response f \<Longrightarrow> is_event_notification f = Inr False"
  by (auto simp: is_response_def is_event_notification_def RESPONSE_TYPES_def)

lemma fold_receive_responses: "\<exists>fs. responses (fold ws_receive as w) = responses w @ fs"
proof (induction as arbitrary: w)
  case (Cons a as)
  obtain fs where "responses (ws_receive a w) = responses w @ fs"
    by (rule ws_receive_cases)
  moreover obtain gs where "responses (fold ws_receive as (ws_receive a w)) = responses (ws_receive a w) @ gs"
    using Cons.IH by blast
  ultimately show ?case
    by simp
qed simp

section \<open>Notifications on the wire\<close>

lemma plain_datagram:
  assumes "length apdu < 65000"
  obtains octets datagram where "npdu_plain apdu = Inr octets" and "bvlc octets False = Inr datagram"
    and "\<And>src. \<exists>f. Frame datagram src = Inr f \<and> ok f \<and> network_message f = None \<and> payload f = apdu \<and> source f = src"
proof -
  have v: "valid_npdu None None [] None [] 255"
    by (simp add: valid_npdu_def is_octet_def)
  obtain octets where octets: "npdu_plain apdu = Inr octets" "length octets = 2 + length apdu"
    using npdu_shape [OF v] by (auto simp: address_octets_def)
  then obtain datagram where "bvlc octets False = Inr datagram"
    using bvll_ok [of BVLC_ORIGINAL_UNICAST octets] assms by (auto simp: bvlc_def is_octet_def)
  moreover have "\<exists>f. Frame datagram src = Inr f \<and> ok f \<and> network_message f = None \<and> payload f = apdu \<and> source f = src" for src
    using Frame_bvlc_npdu [OF v octets(1) calculation] octets(2) assms by (simp add: with_npdu_def initial_frame_def)
  ultimately show thesis
    using that octets(1) by blast
qed

text \<open>The acknowledgement of a confirmed notification, as whoever receives it decodes it.\<close>

definition acknowledges :: "int \<Rightarrow> bytes \<Rightarrow> bool" where
  "acknowledges iid datagram \<longleftrightarrow> (\<forall>src. \<exists>g. Frame datagram src = Inr g \<and> ok g \<and> network_message g = None \<and>
     payload g = [0x20, word_of_int iid, word_of_int SERVICE_CONFIRMED_EVENT_NOTIFICATION])"

lemma ack_datagram_frame:
  assumes "invoke_id f = Inr (Some iid)" and "is_octet iid"
  obtains x where "ack_datagram f = Inr (x, source f)" and "acknowledges iid x"
proof -
  have "simple_ack iid 2 = Inr [0x20, word_of_int iid, 2]"
    using assms(2) by (simp add: simple_ack_def bytes_of_def is_octet_def push_bit_eq_mult)
  moreover obtain octets x where "npdu_plain [0x20, word_of_int iid, 2] = Inr octets" "bvlc octets False = Inr x"
      "\<And>src. \<exists>g. Frame x src = Inr g \<and> ok g \<and> network_message g = None \<and> payload g = [0x20, word_of_int iid, 2] \<and> source g = src"
    by (rule plain_datagram [of "[0x20, word_of_int iid, 2]"]) auto
  ultimately show thesis
    using that [of x] assms(1) by (simp add: ack_datagram_def acknowledges_def) blast
qed

lemma notification_received:
  assumes "valid_event e" and "event_notification e = Inr apdu" and "thread_alive w"
    and "Frame datagram src = Inr f" and "ok f" and "network_message f = None" and "payload f = apdu" and "source f = src"
  obtains acks where "ws_receive (Datagram datagram src) w =
      w\<lparr>notifications := notifications w @ [reported_event f e], sent := sent w @ acks\<rparr>"
    and "if ev_confirmed e \<and> answer_notifications w then \<exists>x. acks = [(x, src)] \<and> acknowledges (ev_invoke_id e) x else acks = []"
proof -
  note event = event_notification_decodes [OF assms(1,2,6,7)]
  have n: "n_confirmed (reported_event f e) = ev_confirmed e" "ev_confirmed e \<Longrightarrow> n_invoke_id (reported_event f e) = Some (ev_invoke_id e)"
    by (simp_all add: reported_event_def)
  note turn = ws_receive_def ws_turn_def serve_arrival_def keep_received_def
  show thesis
  proof (cases "ev_confirmed e \<and> answer_notifications w")
    case True
    then have "invoke_id f = Inr (Some (ev_invoke_id e))" and "is_octet (ev_invoke_id e)"
      using EventNotification_frame(3) [OF event(2)] n assms(1) by (simp_all add: valid_event_def)
    then obtain x where "ack_datagram f = Inr (x, src)" "acknowledges (ev_invoke_id e) x"
      using ack_datagram_frame assms(8) by metis
    then show thesis
      using that [of "[(x, src)]"] True event n assms(3-6) by (simp add: turn send_def)
  next
    case False
    then have "ws_receive (Datagram datagram src) w = w\<lparr>notifications := notifications w @ [reported_event f e]\<rparr>"
      using event n assms(3-6) by (auto simp: turn)
    then show thesis
      using that [of "[]"] False by simp
  qed
qed

section \<open>Waiting for an answer\<close>

text \<open>An answer is found behind any arrivals that bring none; these are served as if no request waited.\<close>

lemma ws_wait_finds:
  assumes "take_response i (responses (fold ws_receive as w)) = Inr None" and "thread_alive (fold ws_receive as w)"
    and "Frame data src = Inr f" and "is_response f" and "invoke_id f = Inr (Some i)"
  shows "ws_wait i (as @ Datagram data src # rest) w = (Inr (Some f), fold ws_receive as w)"
  using assms(1,2)
proof (induction as arbitrary: w)
  case Nil
  let ?w = "ws_receive (Datagram data src) w"
  have w: "?w = w\<lparr>responses := responses w @ [f]\<rparr>"
    using Nil assms(3,4) response_not_event by (intro ws_receive_response) auto
  have "take_response i (responses ?w) = Inr (Some (f, responses w))"
    using Nil(1) assms(5) by (simp add: w take_response_append)
  then have "ws_wait i rest ?w = (Inr (Some f), w)"
    by (simp add: ws_wait.simps [of i rest] w)
  then show ?case
    using Nil(1) by (simp add: ws_wait.simps [of i "Datagram data src # rest"])
next
  case (Cons a as)
  obtain fs where fs: "responses (fold ws_receive (a # as) w) = responses w @ fs"
    using fold_receive_responses by blast
  have "take_response i (responses w) = Inr None"
    using Cons.prems(1) take_response_prefix unfolding fs by blast
  then have "ws_wait i ((a # as) @ Datagram data src # rest) w = ws_wait i (as @ Datagram data src # rest) (ws_receive a w)"
    by (simp add: ws_wait.simps [of i "a # _"])
  then show ?case
    using Cons.IH [of "ws_receive a w"] Cons.prems by simp
qed

text \<open>The state a request waits in, after its first attempt was sent.\<close>

definition requested :: "int \<Rightarrow> frame list \<Rightarrow> bytes \<Rightarrow> address \<Rightarrow> 'a workstation_scheme \<Rightarrow> 'a workstation_scheme" where
  "requested i fs octets dst w = w\<lparr>ws_invoke_id := i, responses := fs, sent := sent w @ [(octets, dst)]\<rparr>"

lemma ws_request_finds:
  assumes "drop_responses ((ws_invoke_id w + 1) mod 256) (responses w) = Inr fs"
    and "build ((ws_invoke_id w + 1) mod 256) = Inr apdu" and "request_datagram apdu None [] = Inr octets"
    and "arrivals 0 = as @ Datagram data src # rest"
    and "take_response ((ws_invoke_id w + 1) mod 256)
      (responses (fold ws_receive as (requested ((ws_invoke_id w + 1) mod 256) fs octets dst w))) = Inr None"
    and "thread_alive (fold ws_receive as (requested ((ws_invoke_id w + 1) mod 256) fs octets dst w))"
    and "Frame data src = Inr f" and "is_response f" and "invoke_id f = Inr (Some ((ws_invoke_id w + 1) mod 256))"
  shows "ws_request build dst arrivals w =
    (Inr (Some f), fold ws_receive as (requested ((ws_invoke_id w + 1) mod 256) fs octets dst w))"
proof -
  let ?i = "(ws_invoke_id w + 1) mod 256"
  let ?w = "requested ?i fs octets dst w"
  let ?v = "w\<lparr>ws_invoke_id := ?i, responses := fs\<rparr>"
  have "ws_begin w = (Inr ?i, ?v)"
    using assms(1) by (simp add: ws_begin_def)
  moreover have "ws_attempt octets dst ?i arrivals 0 ?v = (Inr (Some f), fold ws_receive as ?w)"
    using ws_wait_finds [OF assms(5-9), of rest] by (simp add: ws_attempt_def send_def assms(4) requested_def)
  ultimately show ?thesis
    using assms(2,3) by (simp add: ws_request_def bindS_Inr send_with_retries_def bindS_def)
qed

section \<open>Calls are runs\<close>

lemma ws_run_trans: "ws_run t es u \<Longrightarrow> ws_run s fs t \<Longrightarrow> ws_run s (fs @ es) u"
proof (induction rule: ws_run.induct)
  case run_start
  then show ?case by simp
next
  case (run_step events t' e u)
  then have "ws_run s ((fs @ events) @ [e]) u"
    by (intro ws_run.run_step)
  then show ?case by simp
qed

lemma ws_run_step1: "ws_step s e t \<Longrightarrow> ws_run s [e] t"
  using ws_run.run_step [OF ws_run.run_start] by simp

text \<open>Serving an arrival is a turn of the thread and the sending of its acknowledgement.\<close>

lemma ws_receive_run:
  assumes "pending s = None"
  shows "\<exists>es. ws_run s es (ws_receive a s)"
proof (cases "thread_alive s")
  case False
  then show ?thesis
    using ws_run.run_start by auto
next
  case True
  obtain ack s' where t: "ws_turn a s = (ack, s')"
    by (cases "ws_turn a s")
  have step: "ws_run s [Arrived a] (s'\<lparr>pending := ack\<rparr>)"
    using ws_step.receive [OF True assms t] by (rule ws_run_step1)
  have p: "pending s' = None"
    using t assms by (cases rule: ws_turn_cases) auto
  then have same: "s'\<lparr>pending := None\<rparr> = s'"
    by simp
  show ?thesis
  proof (cases ack)
    case None
    then show ?thesis
      using step same t by (auto simp: ws_receive_def)
  next
    case (Some x)
    obtain octets dst where x: "x = (octets, dst)"
      by (cases x)
    have "s'\<lparr>sent := y, pending := None\<rparr> = s'\<lparr>sent := y\<rparr>" for y
      using p by (cases s') simp
    then have "ws_step (s'\<lparr>pending := ack\<rparr>) (Acknowledged octets dst) (s'\<lparr>sent := sent s' @ [(octets, dst)]\<rparr>)"
      using ws_step.acknowledge [of "s'\<lparr>pending := ack\<rparr>" octets dst] Some x by simp
    then have "ws_run s ([Arrived a] @ [Acknowledged octets dst]) (s'\<lparr>sent := sent s' @ [(octets, dst)]\<rparr>)"
      using ws_run_trans [OF ws_run_step1 step] by blast
    then show ?thesis
      using t Some x by (auto simp: ws_receive_def send_def)
  qed
qed

lemma ws_receive_main: "main (ws_receive a s) = main s" "pending (ws_receive a s) = pending s"
proof -
  obtain ack s' where t: "ws_turn a s = (ack, s')"
    by (cases "ws_turn a s")
  then have "main s' = main s \<and> pending s' = pending s"
    by (cases rule: ws_turn_cases) auto
  then show "main (ws_receive a s) = main s" "pending (ws_receive a s) = pending s"
    using t by (cases ack; auto simp: ws_receive_def send_def)+
qed

text \<open>The operations do not look at the part of the state that is the test thread's own.\<close>

lemma ws_turn_set_main: "ws_turn a (s\<lparr>main := m\<rparr>) = (case ws_turn a s of (ack, s') \<Rightarrow> (ack, s'\<lparr>main := m\<rparr>))"
  by (cases a) (auto simp: ws_turn_def serve_arrival_def keep_received_def bindS_def split: sum.splits)

lemma ws_receive_set_main: "ws_receive a (s\<lparr>main := m\<rparr>) = (ws_receive a s)\<lparr>main := m\<rparr>"
  by (auto simp: ws_receive_def ws_turn_set_main send_def split: prod.splits option.splits)

lemma ws_wait_main:
  assumes "ws_wait i arrivals s = (r, s')"
  shows "ws_wait i arrivals (s\<lparr>main := m\<rparr>) = (r, s'\<lparr>main := m\<rparr>)"
  using assms
proof (induction arrivals arbitrary: s)
  case Nil
  then show ?case
    by (auto simp: ws_wait.simps [of i "[]"] split: sum.splits option.splits)
next
  case (Cons a as)
  then show ?case
    by (auto simp: ws_wait.simps [of i "a # as"] ws_receive_set_main split: sum.splits option.splits)
qed

text \<open>Where a wait, an attempt or a call ends in the interleaved system.\<close>

definition ends_in :: "frame option result \<Rightarrow> main_state \<Rightarrow> main_state" where
  "ends_in r waiting = (case r of Inl e \<Rightarrow> Raised e | Inr (Some f) \<Rightarrow> Returned (Some f) | Inr None \<Rightarrow> waiting)"

lemma ends_in_simps [simp]:
  "ends_in (Inl e) m = Raised e" "ends_in (Inr (Some f)) m = Returned (Some f)" "ends_in (Inr None) m = m"
  by (simp_all add: ends_in_def)

lemma set_main_same: "main s = m \<Longrightarrow> s\<lparr>main := m\<rparr> = (s :: ws_system)"
  by auto

lemma ws_wait_run:
  assumes "ws_wait i arrivals s = (r, s')" and "pending s = None" and "main s = Waiting i octets dst n"
  shows "main s' = main s \<and> pending s' = None \<and> (r = Inr None \<longrightarrow> take_response i (responses s') = Inr None) \<and>
    (\<exists>es. ws_run s es (s'\<lparr>main := ends_in r (main s)\<rparr>))"
  using assms
proof (induction arrivals arbitrary: s)
  case Nil
  then show ?case
    using ws_step.take [OF Nil(3)] ws_step.scan_raises [OF Nil(3)] ws_run.run_start [of s]
    by (auto simp: ws_wait.simps [of i "[]"] set_main_same dest!: ws_run_step1 split: sum.splits option.splits)
next
  case (Cons a as)
  show ?case
  proof (cases "take_response i (responses s) = Inr None")
    case False
    then show ?thesis
      using Cons.prems(1,2) ws_step.take [OF Cons.prems(3)] ws_step.scan_raises [OF Cons.prems(3)]
      by (auto simp: ws_wait.simps [of i "a # as"] dest!: ws_run_step1 split: sum.splits option.splits)
  next
    case True
    then have "ws_wait i as (ws_receive a s) = (r, s')"
      using Cons.prems(1) by (simp add: ws_wait.simps [of i "a # as"])
    from Cons.IH [OF this] Cons.prems(2,3) ws_receive_main [of a s]
    obtain es where "main s' = main s" "pending s' = None" "r = Inr None \<longrightarrow> take_response i (responses s') = Inr None"
        "ws_run (ws_receive a s) es (s'\<lparr>main := ends_in r (main s)\<rparr>)"
      by auto
    then show ?thesis
      using ws_receive_run [OF Cons.prems(2), of a] ws_run_trans by blast
  qed
qed

lemma ws_attempt_run:
  assumes "ws_attempt octets dst i arrivals k s = (r, s')" and "pending s = None" and "main s = Sending i octets dst n"
  shows "pending s' = None \<and> (r = Inr None \<longrightarrow> take_response i (responses s') = Inr None) \<and>
    (\<exists>es. ws_run s es (s'\<lparr>main := ends_in r (Waiting i octets dst n)\<rparr>))"
proof -
  let ?s = "s\<lparr>sent := sent s @ [(octets, dst)], main := Waiting i octets dst n\<rparr>"
  have wait: "ws_wait i (arrivals k) (s\<lparr>sent := sent s @ [(octets, dst)]\<rparr>) = (r, s')"
    using assms(1) by (simp add: ws_attempt_def send_def)
  have "ws_wait i (arrivals k) ?s = (r, s'\<lparr>main := Waiting i octets dst n\<rparr>)"
    using ws_wait_main [OF wait, of "Waiting i octets dst n"] by simp
  from ws_wait_run [OF this] assms(2)
  obtain es where "pending s' = None" "r = Inr None \<longrightarrow> take_response i (responses s') = Inr None"
      "ws_run ?s es (s'\<lparr>main := ends_in r (Waiting i octets dst n)\<rparr>)"
    by auto
  then show ?thesis
    using ws_run_trans [OF _ ws_run_step1 [OF ws_step.send_request [OF assms(3)]]] by blast
qed

lemma main_update_last:
  "s\<lparr>main := m, sent := x\<rparr> = s\<lparr>sent := x, main := m\<rparr>"
  "s\<lparr>main := m, retry_lines := y\<rparr> = s\<lparr>retry_lines := y, main := m\<rparr>"
  by simp_all

lemma ws_attempt_main:
  "ws_attempt octets dst i arrivals k s = (r, s') \<Longrightarrow> ws_attempt octets dst i arrivals k (s\<lparr>main := m\<rparr>) = (r, s'\<lparr>main := m\<rparr>)"
  using ws_wait_main [of i "arrivals k" "s\<lparr>sent := sent s @ [(octets, dst)]\<rparr>" r s' m]
  by (simp add: ws_attempt_def send_def main_update_last)

lemma ws_retry_main:
  "retry_loop i (ws_attempt octets dst i arrivals) k n s = (r, s') \<Longrightarrow>
     retry_loop i (ws_attempt octets dst i arrivals) k n (s\<lparr>main := m\<rparr>) = (r, s'\<lparr>main := m\<rparr>)"
proof (induction n arbitrary: k s)
  case 0
  then show ?case by simp
next
  case (Suc n)
  define s1 where "s1 = (if k \<noteq> 0 then s\<lparr>retry_lines := retry_lines s @ [i]\<rparr> else s)"
  obtain r1 s2 where a: "ws_attempt octets dst i arrivals k s1 = (r1, s2)"
    by (cases "ws_attempt octets dst i arrivals k s1")
  have m: "(if k \<noteq> 0 then s\<lparr>main := m, retry_lines := retry_lines (s\<lparr>main := m\<rparr>) @ [i]\<rparr> else s\<lparr>main := m\<rparr>) = s1\<lparr>main := m\<rparr>"
    by (simp add: s1_def main_update_last)
  have loop: "retry_loop i (ws_attempt octets dst i arrivals) k (Suc n) c =
      bindS (ws_attempt octets dst i arrivals k) (\<lambda>a. case a of Some f \<Rightarrow> returnS (Some f) |
        None \<Rightarrow> retry_loop i (ws_attempt octets dst i arrivals) (Suc k) n)
        (if k \<noteq> 0 then c\<lparr>retry_lines := retry_lines c @ [i]\<rparr> else c)" for c
    by simp
  show ?case
    using Suc.prems Suc.IH [of "Suc k" s2] a ws_attempt_main [OF a, of m]
    unfolding loop [of s] loop [of "s\<lparr>main := m\<rparr>"] m s1_def [symmetric] by (auto simp: bindS_def split: sum.splits option.splits)
qed

definition call_ends :: "answer result \<Rightarrow> main_state" where
  "call_ends r = (case r of Inl e \<Rightarrow> Raised e | Inr a \<Rightarrow> Returned a)"

lemma call_ends_simps [simp]: "call_ends (Inl e) = Raised e" "call_ends (Inr a) = Returned a"
  by (simp_all add: call_ends_def)

text \<open>The rest of the call, from an attempt about to be sent with \<open>n\<close> more to come.\<close>

lemma ws_retry_run:
  assumes "retry_loop i (ws_attempt octets dst i arrivals) k (Suc n) c = (r, c')" and "pending c = None"
    and "s = (if k \<noteq> 0 then c\<lparr>retry_lines := retry_lines c @ [i]\<rparr> else c)" and "main c = Sending i octets dst n"
  shows "\<exists>es. ws_run s es (c'\<lparr>main := call_ends r\<rparr>)"
  using assms
proof (induction n arbitrary: k c s c')
  case (0 k c s c')
  obtain r1 s1 where a: "ws_attempt octets dst i arrivals k s = (r1, s1)"
    by (cases "ws_attempt octets dst i arrivals k s")
  have "pending s = None" "main s = Sending i octets dst 0"
    using 0 by (auto split: if_splits)
  from ws_attempt_run [OF a this]
  obtain es where s1: "r1 = Inr None \<longrightarrow> take_response i (responses s1) = Inr None"
      "ws_run s es (s1\<lparr>main := ends_in r1 (Waiting i octets dst 0)\<rparr>)"
    by blast
  have res: "(r, c') = (r1, s1)"
    using 0(1,3) a by (auto simp: bindS_def split: sum.splits option.splits)
  have "\<exists>es. ws_run s es (s1\<lparr>main := Returned None\<rparr>)" if "r1 = Inr None"
    using that s1 ws_step.give_up [of "s1\<lparr>main := Waiting i octets dst 0\<rparr>" i octets dst]
    by (auto dest: ws_run_step1 [THEN ws_run_trans])
  then show ?case
    using res s1 by (cases r1; cases "projr r1") auto
next
  case (Suc n k c s c')
  obtain r1 s1 where a: "ws_attempt octets dst i arrivals k s = (r1, s1)"
    by (cases "ws_attempt octets dst i arrivals k s")
  have "pending s = None" "main s = Sending i octets dst (Suc n)"
    using Suc.prems by (auto split: if_splits)
  from ws_attempt_run [OF a this]
  obtain es where s1: "pending s1 = None" "r1 = Inr None \<longrightarrow> take_response i (responses s1) = Inr None"
      "ws_run s es (s1\<lparr>main := ends_in r1 (Waiting i octets dst (Suc n))\<rparr>)"
    by blast
  show ?case
  proof (cases "r1 = Inr None")
    case True
    let ?c = "s1\<lparr>main := Sending i octets dst n\<rparr>"
    let ?s = "?c\<lparr>retry_lines := retry_lines ?c @ [i]\<rparr>"
    have "retry_loop i (ws_attempt octets dst i arrivals) (Suc k) (Suc n) s1 = (r, c')"
      using Suc.prems(1,3) a True by (simp add: bindS_def del: retry_loop.simps(2) add: retry_loop.simps(2) [of _ _ k])
    from Suc.IH [OF ws_retry_main [OF this, of "Sending i octets dst n"], of ?s] s1(1)
    obtain fs where "ws_run ?s fs (c'\<lparr>main := call_ends r\<rparr>)"
      by auto
    moreover have "ws_step (s1\<lparr>main := Waiting i octets dst (Suc n)\<rparr>) TimedOut ?s"
      using ws_step.retry [of "s1\<lparr>main := Waiting i octets dst (Suc n)\<rparr>" i octets dst n] s1(2) True by (simp add: main_update_last)
    ultimately show ?thesis
      using s1(3) True ws_run_trans ws_run_step1 by (metis ends_in_simps(3))
  next
    case False
    then have "(r, c') = (r1, s1)"
      using Suc.prems(1,3) a by (auto simp: bindS_def split: sum.splits option.splits)
    then show ?thesis
      using False s1(3) by (cases r1; cases "projr r1") auto
  qed
qed

lemma ws_request_run:
  assumes "ws_request build dst arrivals s = (r, s')" and "at_rest (main s)" and "pending s = None"
  shows "\<exists>es. ws_run (ws_call build dst s) es (s'\<lparr>main := call_ends r\<rparr>)"
proof -
  obtain q s1 where b: "ws_begin s = (q, s1)"
    by (cases "ws_begin s")
  obtain fs where "s1 = s\<lparr>ws_invoke_id := (ws_invoke_id s + 1) mod 256, responses := fs\<rparr>"
    by (rule ws_begin_result [OF b])
  then have s1: "ws_retries s1 = ws_retries s" "pending s1 = None"
    using assms(3) by simp_all
  show ?thesis
  proof (cases q)
    case (Inl e)
    then have "ws_call build dst s = s'\<lparr>main := call_ends r\<rparr>"
      using assms(1) b by (auto simp: ws_request_def ws_call_def bindS_def)
    then show ?thesis
      using ws_run.run_start by metis
  next
    case (Inr i)
    show ?thesis
    proof (cases "bindR (build i) (\<lambda>apdu. request_datagram apdu None [])")
      case (Inl e)
      then have "ws_call build dst s = s'\<lparr>main := call_ends r\<rparr>"
        using assms(1) b Inr by (auto simp: ws_request_def ws_call_def bindS_def)
      then show ?thesis
        using ws_run.run_start by metis
    next
      case octets: (Inr octets)
      have "retry_loop i (ws_attempt octets dst i arrivals) 0 (Suc (ws_retries s)) s1 = (r, s')"
        using assms(1) b Inr octets s1(1) by (simp add: ws_request_def bindS_Inr send_with_retries_def del: retry_loop.simps)
      from ws_retry_run [OF ws_retry_main [OF this]] s1(2)
      show ?thesis
        using b Inr octets by (simp add: ws_call_def)
    qed
  qed
qed

section \<open>What breaks a workstation\<close>

text \<open>A datagram whose decoding raises ends the thread: nothing that arrives afterwards is kept or acknowledged.\<close>

lemma fold_receive_dead: "\<not> thread_alive w \<Longrightarrow> fold ws_receive as w = w"
  by (induction as) simp_all

lemma undecodable_ends_thread:
  assumes "thread_alive w" and "Frame data src = Inl e"
  shows "fold ws_receive (Datagram data src # as) w = w\<lparr>thread_alive := False\<rparr>"
proof -
  have "ws_receive (Datagram data src) w = w\<lparr>thread_alive := False\<rparr>"
    using assms by (simp add: ws_receive_def ws_turn_def serve_arrival_def)
  then show ?thesis
    by (simp add: fold_receive_dead)
qed

text \<open>An answer of one octet has no invoke id; once it is kept, every request raises before it sends.\<close>

definition short_response :: "frame \<Rightarrow> bool" where
  "short_response f \<longleftrightarrow> is_response f \<and> length (payload f) = 1"

lemma invoke_id_errors: "invoke_id f = Inl e \<Longrightarrow> e = IndexError"
  by (auto simp: invoke_id_def bindR_Inl_iff py_nth_def split: if_splits)

lemma short_response_invoke_id: "short_response f \<Longrightarrow> invoke_id f = Inl IndexError"
  by (auto simp: short_response_def is_response_def RESPONSE_TYPES_def invoke_id_def py_nth_def)

lemma drop_responses_short: "f \<in> set fs \<Longrightarrow> short_response f \<Longrightarrow> drop_responses i fs = Inl IndexError"
proof (induction fs)
  case (Cons g fs)
  show ?case
  proof (cases "invoke_id g")
    case (Inl e)
    then show ?thesis
      using invoke_id_errors by auto
  next
    case (Inr j)
    then have "drop_responses i fs = Inl IndexError"
      using Cons short_response_invoke_id by fastforce
    then show ?thesis
      using Inr by simp
  qed
qed simp

lemma short_response_blocks:
  assumes "f \<in> set (responses w)" and "short_response f"
  shows "ws_request build dst arrivals w = (Inl IndexError, w\<lparr>ws_invoke_id := (ws_invoke_id w + 1) mod 256\<rparr>)"
  using drop_responses_short [OF assms] by (simp add: ws_request_def ws_begin_def bindS_def)

text \<open>All of a sequence of requests.\<close>

fun ws_requests :: "((int \<Rightarrow> bytes result) \<times> address \<times> (nat \<Rightarrow> arrival list)) list \<Rightarrow> 'a workstation_scheme \<Rightarrow>
    answer result list \<times> 'a workstation_scheme" where
  "ws_requests [] w = ([], w)"
| "ws_requests ((build, dst, arrivals) # rs) w =
     (case ws_request build dst arrivals w of (r, w') \<Rightarrow>
        (case ws_requests rs w' of (results, w'') \<Rightarrow> (r # results, w'')))"

lemma short_response_blocks_all:
  assumes "f \<in> set (responses w)" and "short_response f"
  shows "fst (ws_requests rs w) = replicate (length rs) (Inl IndexError) \<and> sent (snd (ws_requests rs w)) = sent w \<and>
    responses (snd (ws_requests rs w)) = responses w"
  using assms(1)
proof (induction rs arbitrary: w)
  case (Cons r rs)
  obtain build dst arrivals where r: "r = (build, dst, arrivals)"
    by (cases r)
  show ?case
    using Cons.IH [of "w\<lparr>ws_invoke_id := (ws_invoke_id w + 1) mod 256\<rparr>"] Cons.prems short_response_blocks [OF Cons.prems assms(2)]
    by (auto simp: r split: prod.split)
qed simp

end
