(* ===== verification/Alarm_Exchange.thy ===== *)
theory Alarm_Exchange
  imports Workstation_Laws Peer_Device
begin

text \<open>
  An alarm from end to end: a simulated panel (\<open>SimulatedDevice\<close>) encodes an event notification and sends it, a workstation
  receives, keeps and acknowledges it, and the panel receives the acknowledgement, which its \<open>simple_acks\<close> lists.
\<close>

section \<open>The exchange\<close>

text \<open>The datagrams a workstation sends to one address while it receives an arrival.\<close>

definition sent_to :: "address \<Rightarrow> (bytes \<times> address) list \<Rightarrow> bytes list" where
  "sent_to dst out = map fst (filter (\<lambda>(_, d). d = dst) out)"

definition report_event ::
    "address \<Rightarrow> address \<Rightarrow> event_arguments \<Rightarrow> workstation \<Rightarrow> device \<Rightarrow> py_error option \<times> workstation \<times> device" where
  "report_event panel station e w d =
     (case bindR (event_notification e) (\<lambda>apdu. device_send apdu station) of
        Inl x \<Rightarrow> (Some x, w, d)
      | Inr (datagram, _) \<Rightarrow>
          let w' = ws_receive (Datagram datagram panel) w;
              replies = sent_to panel (drop (length (sent w)) (sent w'))
          in case serve_all device_answer (map (\<lambda>octets. (octets, station, False)) replies) d of
               (_, x, d') \<Rightarrow> (x, w', d'))"

lemma acks_in_append:
  "acks_in srv (fs @ gs) = bindR (acks_in srv fs) (\<lambda>xs. bindR (acks_in srv gs) (\<lambda>ys. Inr (xs @ ys)))"
proof (induction fs)
  case Nil
  show ?case
    by (cases "acks_in srv gs") simp_all
next
  case (Cons f fs)
  then show ?case
    by (cases "service f"; cases "invoke_id f"; cases "acks_in srv fs"; cases "acks_in srv gs") simp_all
qed

text \<open>What the panel makes of an acknowledgement.\<close>

lemma acknowledgement_served:
  assumes "acknowledges iid octets" and "is_octet iid" and "simple_acks d SERVICE_CONFIRMED_EVENT_NOTIFICATION = Inr acks"
  obtains d' where "serve device_answer (octets, src, False) d = (Inr None, d')"
    and "simple_acks d' SERVICE_CONFIRMED_EVENT_NOTIFICATION = Inr (acks @ [(Some iid, src)])"
proof -
  obtain g where g: "Frame octets src = Inr g" "ok g" "network_message g = None" "payload g = [0x20, word_of_int iid, 2]"
    using assms(1) unfolding acknowledges_def by (auto simp del: split_paired_All)
  have fields: "pdu_type g = Some PDU_SIMPLE_ACK" "invoke_id g = Inr (Some iid)" "service g = Inr (Some 2)" "source g = src"
    using g uint_octet_small [OF assms(2)] Frame_wf [OF g(1)]
    by (simp_all add: pdu_type_def invoke_id_def service_def drop_bit_eq_div)
  have "serve device_answer (octets, src, False) d = (Inr None, keep_frame False g d)"
    using g fields by (simp add: serve_def device_answer_def bindS_def)
  moreover have "simple_acks (keep_frame False g d) 2 = Inr (acks @ [(Some iid, src)])"
    using assms(3) g fields by (simp add: simple_acks_def device_frames_def keep_frame_def acks_in_append)
  ultimately show thesis
    using that by blast
qed

text \<open>Whether the notification is acknowledged is up to its form and to the workstation.\<close>

lemma event_reported:
  assumes "valid_event e" and "event_notification e = Inr apdu" and "length apdu < 65000" and "thread_alive w"
    and "simple_acks d SERVICE_CONFIRMED_EVENT_NOTIFICATION = Inr acks"
  obtains f w' d' where "report_event panel station e w d = (None, w', d')"
    and "payload f = apdu" and "source f = panel" and "notifications w' = notifications w @ [reported_event f e]"
    and "simple_acks d' SERVICE_CONFIRMED_EVENT_NOTIFICATION =
      Inr (acks @ (if ev_confirmed e \<and> answer_notifications w then [(Some (ev_invoke_id e), station)] else []))"
proof -
  obtain octets datagram where d: "npdu_plain apdu = Inr octets" "bvlc octets False = Inr datagram"
      "\<And>src. \<exists>f. Frame datagram src = Inr f \<and> ok f \<and> network_message f = None \<and> payload f = apdu \<and> source f = src"
    by (rule plain_datagram [OF assms(3)]) blast
  obtain f where f: "Frame datagram panel = Inr f" "ok f" "network_message f = None" "payload f = apdu" "source f = panel"
    using d(3) [of panel] by blast
  note received = notification_received [OF assms(1,2,4) f]
  show thesis
  proof (cases "ev_confirmed e \<and> answer_notifications w")
    case True
    obtain x where w: "ws_receive (Datagram datagram panel) w =
        w\<lparr>notifications := notifications w @ [reported_event f e], sent := sent w @ [(x, panel)]\<rparr>"
        and x: "acknowledges (ev_invoke_id e) x"
      by (rule received) (use True in auto)
    have "is_octet (ev_invoke_id e)"
      using assms(1) by (simp add: valid_event_def)
    from acknowledgement_served [OF x this assms(5), of station]
    obtain d' where d': "serve device_answer (x, station, False) d = (Inr None, d')"
        "simple_acks d' SERVICE_CONFIRMED_EVENT_NOTIFICATION = Inr (acks @ [(Some (ev_invoke_id e), station)])"
      by blast
    have "report_event panel station e w d = (None, ws_receive (Datagram datagram panel) w, d')"
      using assms(2) d(1,2) w d'(1) by (simp add: report_event_def device_send_def sent_to_def)
    then show thesis
      using that [OF _ f(4,5)] d'(2) w True by simp
  next
    case False
    have w: "ws_receive (Datagram datagram panel) w = w\<lparr>notifications := notifications w @ [reported_event f e]\<rparr>"
      by (rule received) (use False in auto)
    have "report_event panel station e w d = (None, ws_receive (Datagram datagram panel) w, d)"
      using assms(2) d(1,2) w by (simp add: report_event_def device_send_def sent_to_def)
    then show thesis
      using that [OF _ f(4,5)] assms(5) w False by simp
  qed
qed

end
