(* ===== verification/Alarm_Summaries.thy ===== *)
theory Alarm_Summaries
  imports Alarm_Laws
begin

text \<open>
  The answer to GetEventInformation. The harness only reads it (\<open>parse_event_summaries\<close>); the encoder here is clause 13.12
  written with the encoders of \<open>codec.py\<close>, and what it writes is read back. \<open>crosses\<close> says that the loop passes over some octets
  and takes its variables from one state to another; it composes, so each part of a summary is a lemma.
\<close>

section \<open>The encoding\<close>

text \<open>A time stamp is a date and time, or a sequence number, which the harness reads as \<open>None\<close>.\<close>

datatype stamp_choice = DateTime time_stamp | SequenceNumber int

fun encode_stamp :: "stamp_choice \<Rightarrow> bytes result" where
  "encode_stamp (DateTime (d, t)) = catR [opening_tag 2, Inr (0xA4 # d), Inr (0xB4 # t), closing_tag 2]"
| "encode_stamp (SequenceNumber n) = context_unsigned 1 n"

fun stamp_read :: "stamp_choice \<Rightarrow> time_stamp option" where
  "stamp_read (DateTime s) = Some s"
| "stamp_read (SequenceNumber n) = None"

fun valid_stamp :: "stamp_choice \<Rightarrow> bool" where
  "valid_stamp (DateTime s) = is_stamp s"
| "valid_stamp (SequenceNumber n) = is_unsigned n"

record event_report =
  r_object :: "int \<times> int"
  r_event_state :: int
  r_acked_transitions :: "bool list"
  r_time_stamps :: "stamp_choice list"
  r_notify_type :: int
  r_event_enable :: "bool list"
  r_priorities :: "int list"

definition valid_report :: "event_report \<Rightarrow> bool" where
  "valid_report r \<longleftrightarrow>
     valid_object_id (fst (r_object r)) (snd (r_object r)) \<and> is_unsigned (r_event_state r) \<and> is_unsigned (r_notify_type r) \<and>
     length (r_acked_transitions r) \<le> 24 \<and> length (r_event_enable r) \<le> 24 \<and>
     length (r_time_stamps r) = 3 \<and> list_all valid_stamp (r_time_stamps r) \<and> list_all is_unsigned (r_priorities r)"

text \<open>What happened, up to the time stamps, and how it is reported.\<close>

definition encode_occurrence :: "event_report \<Rightarrow> bytes result" where
  "encode_occurrence r =
     catR [context_object_id 0 (fst (r_object r)) (snd (r_object r)), context_enumerated 1 (r_event_state r),
           context_bit_string 2 (r_acked_transitions r),
           opening_tag 3, catR (map encode_stamp (r_time_stamps r)), closing_tag 3]"

definition encode_reporting :: "event_report \<Rightarrow> bytes result" where
  "encode_reporting r =
     catR [context_enumerated 4 (r_notify_type r), context_bit_string 5 (r_event_enable r),
           opening_tag 6, catR (map application_unsigned (r_priorities r)), closing_tag 6]"

definition encode_report :: "event_report \<Rightarrow> bytes result" where
  "encode_report r = catR [encode_occurrence r, encode_reporting r]"

definition encode_event_information :: "int \<Rightarrow> event_report list \<Rightarrow> bool \<Rightarrow> bytes result" where
  "encode_event_information iid rs further =
     catR [bytes_of [0x30, iid, SERVICE_GET_EVENT_INFORMATION], opening_tag 0, catR (map encode_report rs), closing_tag 0,
           context_boolean 1 further]"

text \<open>The summary the harness makes of it.\<close>

definition report_summary :: "event_report \<Rightarrow> event_summary" where
  "report_summary r =
     \<lparr>s_object = r_object r, s_event_state = Some (r_event_state r), s_acked_transitions = Some (r_acked_transitions r),
      s_time_stamps = Some (map stamp_read (r_time_stamps r)), s_notify_type = Some (r_notify_type r),
      s_event_enable = Some (r_event_enable r), s_priorities = Some (r_priorities r)\<rparr>"

section \<open>Crossing octets\<close>

definition crosses :: "(bytes \<Rightarrow> tag \<Rightarrow> 's \<Rightarrow> ('s \<times> nat) result) \<Rightarrow> bytes \<Rightarrow> 's \<Rightarrow> 's \<Rightarrow> bool" where
  "crosses step enc s s' \<longleftrightarrow> (\<forall>octets p post. drop p octets = enc @ post \<longrightarrow>
     scan_to (step octets) octets p s = scan_to (step octets) octets (p + length enc) s')"

lemma crossesD:
  "crosses step enc s s' \<Longrightarrow> drop p octets = enc @ post \<Longrightarrow>
     scan_to (step octets) octets p s = scan_to (step octets) octets (p + length enc) s'"
  unfolding crosses_def by blast

lemma crosses_Nil: "crosses step [] s s"
  by (simp add: crosses_def)

lemma crosses_append:
  assumes "crosses step e s s1" and "crosses step e' s1 s2"
  shows "crosses step (e @ e') s s2"
  unfolding crosses_def
proof (intro allI impI)
  fix octets p post
  assume "drop p octets = (e @ e') @ post"
  then have d: "drop p octets = e @ e' @ post"
    by simp
  show "scan_to (step octets) octets p s = scan_to (step octets) octets (p + length (e @ e')) s2"
    using crossesD [OF assms(1) d] crossesD [OF assms(2) drop_after [OF d]] by (simp add: add.assoc)
qed

lemma crosses_tag:
  assumes "encodes enc n c k b" and "\<And>octets q. step octets (n, c, k, b, q) s = Inr (s', q)"
  shows "crosses step enc s s'"
  unfolding crosses_def by (intro allI impI, rule scan_to_step [OF assms(1)], assumption) (simp_all add: assms(2))

text \<open>A body that goes on behind the tag it was given.\<close>

lemma crosses_constructed:
  assumes "encodes op n c k b"
    and "\<And>octets p post. drop p octets = inner @ post \<Longrightarrow> step octets (n, c, k, b, p) s = Inr (s', p + length inner)"
  shows "crosses step (op @ inner) s s'"
  unfolding crosses_def
proof (intro allI impI)
  fix octets p post
  assume "drop p octets = (op @ inner) @ post"
  then have d: "drop p octets = op @ inner @ post"
    by simp
  show "scan_to (step octets) octets p s = scan_to (step octets) octets (p + length (op @ inner)) s'"
    using scan_to_step [OF assms(1) d, of "step octets" s s' "p + length op + length inner"] assms(2) [OF drop_after [OF d]]
    by (simp add: add.assoc)
qed

section \<open>The parts of a summary\<close>

lemma stamp_reads:
  assumes "valid_stamp c"
  shows "\<exists>enc. encode_stamp c = Inr enc \<and> (\<forall>octets p post. drop p octets = enc @ post \<longrightarrow>
     read_time_stamp_choice octets p = Inr (stamp_read c, p + length enc))"
proof (cases c)
  case (DateTime s)
  obtain d t where s: "s = (d, t)" and l: "length d = 4" "length t = 4"
    using assms by (cases s) (simp add: DateTime is_stamp_def)
  obtain op cl where br: "opening_tag 2 = Inr op" "closing_tag 2 = Inr cl" "encodes op 2 True Open []" "encodes cl 2 True Close []"
    by (rule bracket_parameter [of 2]) auto
  have "read_time_stamp_choice octets p = Inr (Some (d, t), p + length (op @ (0xA4 # d) @ (0xB4 # t) @ cl))"
    if d0: "drop p octets = op @ (0xA4 # d) @ (0xB4 # t) @ cl @ post" for octets p post
  proof -
    note d1 = drop_after [OF d0]
    note d2 = drop_after [OF d1]
    note d3 = drop_after [OF d2]
    show ?thesis
      using encodes_read_at [OF br(3) d0] encodes_read_at [OF stamp_tags(1) [OF l(1)] d1]
        encodes_read_at [OF stamp_tags(2) [OF l(2)] d2] encodes_read_at [OF br(4) d3]
      by (simp add: read_time_stamp_choice_def)
  qed
  then show ?thesis
    using br(1,2) by (auto simp: DateTime s)
next
  case (SequenceNumber n)
  obtain enc where enc: "context_unsigned 1 n = Inr enc" "encodes enc 1 True Value (int_content n)"
    by (rule unsigned_parameter [of n 1]) (use assms SequenceNumber in auto)
  then show ?thesis
    using encodes_read_at [OF enc(2)] by (auto simp: SequenceNumber read_time_stamp_choice_def)
qed

lemma stamps_read:
  "list_all valid_stamp cs \<Longrightarrow> \<exists>enc. catR (map encode_stamp cs) = Inr enc \<and> (\<forall>octets p post. drop p octets = enc @ post \<longrightarrow>
     time_stamps_from (length cs) octets p = Inr (map stamp_read cs, p + length enc))"
proof (induction cs)
  case (Cons c cs)
  obtain e where e: "encode_stamp c = Inr e"
      "\<And>octets p post. drop p octets = e @ post \<Longrightarrow> read_time_stamp_choice octets p = Inr (stamp_read c, p + length e)"
    using stamp_reads [of c] Cons.prems by auto
  obtain es where es: "catR (map encode_stamp cs) = Inr es"
      "\<And>octets p post. drop p octets = es @ post \<Longrightarrow> time_stamps_from (length cs) octets p = Inr (map stamp_read cs, p + length es)"
    using Cons by auto
  have "time_stamps_from (length (c # cs)) octets p = Inr (map stamp_read (c # cs), p + length (e @ es))"
    if d: "drop p octets = e @ es @ post" for octets p post
    using e(2) [OF d] es(2) [OF drop_after [OF d]] by (simp add: add.assoc)
  then show ?case
    using e(1) es(1) by auto
qed simp

lemma priorities_read:
  "list_all is_unsigned ps \<Longrightarrow> \<exists>enc. catR (map application_unsigned ps) = Inr enc \<and>
     (\<forall>octets p post acc cl n c b. encodes cl n c Close b \<longrightarrow> drop p octets = enc @ cl @ post \<longrightarrow>
       priorities_from octets p acc = Inr (acc @ ps, p + length enc + length cl))"
proof (induction ps)
  case Nil
  then show ?case
    using encodes_read_at by (auto simp: priorities_from.simps)
next
  case (Cons v ps)
  have v: "0 \<le> v" "v < 2 ^ 32"
    using Cons.prems by (simp_all add: is_unsigned_def)
  obtain e where e: "application_unsigned v = Inr e" "encodes e TAG_UNSIGNED False Value (int_content v)"
    using application_unsigned_ok [OF v] by blast
  obtain es where es: "catR (map application_unsigned ps) = Inr es"
      "\<And>octets p post acc cl n c b. encodes cl n c Close b \<Longrightarrow> drop p octets = es @ cl @ post \<Longrightarrow>
         priorities_from octets p acc = Inr (acc @ ps, p + length es + length cl)"
    using Cons.IH Cons.prems by (metis list.pred_inject(2))
  have "priorities_from octets p acc = Inr (acc @ v # ps, p + length (e @ es) + length cl)"
    if cl: "encodes cl n c Close b" and d: "drop p octets = e @ es @ cl @ post" for octets p post acc cl n c b
    using encodes_read_at [OF e(2) d] es(2) [OF cl drop_after [OF d]] v
    by (subst priorities_from.simps) (simp add: add.assoc)
  then show ?case
    using e(1) es(1) by auto
qed

section \<open>A summary\<close>

lemma bits_parameter:
  assumes "length bits \<le> 24" and "0 \<le> t" and "t < 15"
  obtains enc body where "context_bit_string t bits = Inr enc" and "encodes enc t True Value body" and "alarm_bits body = Inr bits"
proof -
  obtain body where "bit_string_body bits = Inr body" "length body = 1 + (length bits + 7) div 8" "bits_of_body body = Inr bits"
    using bit_string_body_ok by blast
  moreover from this have "length body < 5"
    using assms(1) by simp
  ultimately show thesis
    using context_bit_string_ok [OF assms(2,3)] that by (metis alarm_bits_eq)
qed

abbreviation with_summary :: "summary_state \<Rightarrow> event_summary \<Rightarrow> summary_state" where
  "with_summary s c \<equiv> s\<lparr>summaries := summaries s @ [c]\<rparr>"

definition occurrence :: "event_report \<Rightarrow> event_summary" where
  "occurrence r = (new_summary (r_object r))
     \<lparr>s_event_state := Some (r_event_state r), s_acked_transitions := Some (r_acked_transitions r),
      s_time_stamps := Some (map stamp_read (r_time_stamps r))\<rparr>"

lemma occurrence_crossed:
  assumes "valid_report r" and "in_list s"
  shows "\<exists>enc. encode_occurrence r = Inr enc \<and> crosses summary_step enc s (with_summary s (occurrence r))"
proof -
  have v: "valid_object_id (fst (r_object r)) (snd (r_object r))" "is_unsigned (r_event_state r)"
      "length (r_acked_transitions r) \<le> 24" "length (r_time_stamps r) = 3" "list_all valid_stamp (r_time_stamps r)"
    using assms(1) by (simp_all add: valid_report_def)
  obtain e0 where e0: "context_object_id 0 (fst (r_object r)) (snd (r_object r)) = Inr e0"
      "encodes e0 0 True Value (object_id_content (fst (r_object r)) (snd (r_object r)))"
    using context_object_id_ok [of 0, OF _ _ v(1)] by auto
  obtain e1 where e1: "context_enumerated 1 (r_event_state r) = Inr e1" "encodes e1 1 True Value (int_content (r_event_state r))"
    by (rule unsigned_parameter [OF v(2), of 1]) (auto simp: context_enumerated_def)
  obtain e2 b2 where e2: "context_bit_string 2 (r_acked_transitions r) = Inr e2" "encodes e2 2 True Value b2"
      "alarm_bits b2 = Inr (r_acked_transitions r)"
    by (rule bits_parameter [OF v(3), of 2]) auto
  obtain op cl where br: "opening_tag 3 = Inr op" "closing_tag 3 = Inr cl" "encodes op 3 True Open []" "encodes cl 3 True Close []"
    by (rule bracket_parameter [of 3]) auto
  obtain e3 where e3: "catR (map encode_stamp (r_time_stamps r)) = Inr e3"
      "\<And>octets p post. drop p octets = e3 @ post \<Longrightarrow>
         time_stamps_from 3 octets p = Inr (map stamp_read (r_time_stamps r), p + length e3)"
    using stamps_read [OF v(5)] v(4) by auto
  define c0 where "c0 = new_summary (r_object r)"
  define c1 where "c1 = c0\<lparr>s_event_state := Some (r_event_state r)\<rparr>"
  define c2 where "c2 = c1\<lparr>s_acked_transitions := Some (r_acked_transitions r)\<rparr>"
  have x0: "crosses summary_step e0 s (with_summary s c0)"
    by (rule crosses_tag [OF e0(2)]) (simp add: summary_step_def assms(2) object_identifier_of_content [OF v(1)] c0_def)
  have x1: "crosses summary_step e1 (with_summary s c0) (with_summary s c1)"
    by (rule crosses_tag [OF e1(2)]) (simp add: summary_step_def assms(2) set_current_def is_unsigned_content [OF v(2)] c1_def)
  have x2: "crosses summary_step e2 (with_summary s c1) (with_summary s c2)"
    by (rule crosses_tag [OF e2(2)]) (simp add: summary_step_def assms(2) set_current_def e2(3) c2_def)
  have "summary_step octets (3, True, Open, [], p) (with_summary s c2) = Inr (with_summary s (occurrence r), p + length (e3 @ cl))"
    if d: "drop p octets = e3 @ cl @ post" for octets p post
    using e3(2) [OF d] encodes_read_at [OF br(4) drop_after [OF d]]
    by (simp add: summary_step_def assms(2) set_current_def occurrence_def c0_def c1_def c2_def)
  then have "crosses summary_step (op @ e3 @ cl) (with_summary s c2) (with_summary s (occurrence r))"
    by (intro crosses_constructed [OF br(3)]) simp
  from crosses_append [OF x0 crosses_append [OF x1 crosses_append [OF x2 this]]] show ?thesis
    using e0(1) e1(1) e2(1) br(1,2) e3(1) by (simp add: encode_occurrence_def)
qed

lemma reporting_crossed:
  assumes "valid_report r" and "in_list s"
  shows "\<exists>enc. encode_reporting r = Inr enc \<and>
     crosses summary_step enc (with_summary s (occurrence r)) (with_summary s (report_summary r))"
proof -
  have v: "is_unsigned (r_notify_type r)" "length (r_event_enable r) \<le> 24" "list_all is_unsigned (r_priorities r)"
    using assms(1) by (simp_all add: valid_report_def)
  obtain e4 where e4: "context_enumerated 4 (r_notify_type r) = Inr e4" "encodes e4 4 True Value (int_content (r_notify_type r))"
    by (rule unsigned_parameter [OF v(1), of 4]) (auto simp: context_enumerated_def)
  obtain e5 b5 where e5: "context_bit_string 5 (r_event_enable r) = Inr e5" "encodes e5 5 True Value b5"
      "alarm_bits b5 = Inr (r_event_enable r)"
    by (rule bits_parameter [OF v(2), of 5]) auto
  obtain op cl where br: "opening_tag 6 = Inr op" "closing_tag 6 = Inr cl" "encodes op 6 True Open []" "encodes cl 6 True Close []"
    by (rule bracket_parameter [of 6]) auto
  obtain e6 where e6: "catR (map application_unsigned (r_priorities r)) = Inr e6"
      "\<And>octets p post acc. drop p octets = e6 @ cl @ post \<Longrightarrow>
         priorities_from octets p acc = Inr (acc @ r_priorities r, p + length e6 + length cl)"
    using priorities_read [OF v(3)] br(4) by blast
  define c4 where "c4 = (occurrence r)\<lparr>s_notify_type := Some (r_notify_type r)\<rparr>"
  define c5 where "c5 = c4\<lparr>s_event_enable := Some (r_event_enable r)\<rparr>"
  have x4: "crosses summary_step e4 (with_summary s (occurrence r)) (with_summary s c4)"
    by (rule crosses_tag [OF e4(2)]) (simp add: summary_step_def assms(2) set_current_def is_unsigned_content [OF v(1)] c4_def)
  have x5: "crosses summary_step e5 (with_summary s c4) (with_summary s c5)"
    by (rule crosses_tag [OF e5(2)]) (simp add: summary_step_def assms(2) set_current_def e5(3) c5_def)
  have c: "c5\<lparr>s_priorities := Some (r_priorities r)\<rparr> = report_summary r"
    by (simp add: report_summary_def c5_def c4_def occurrence_def new_summary_def)
  have "summary_step octets (6, True, Open, [], p) (with_summary s c5) = Inr (with_summary s (report_summary r), p + length (e6 @ cl))"
    if d: "drop p octets = e6 @ cl @ post" for octets p post
    using e6(2) [OF d, of "[]"] by (simp add: summary_step_def assms(2) set_current_def add.assoc c)
  then have "crosses summary_step (op @ e6 @ cl) (with_summary s c5) (with_summary s (report_summary r))"
    by (intro crosses_constructed [OF br(3)]) simp
  from crosses_append [OF x4 crosses_append [OF x5 this]] show ?thesis
    using e4(1) e5(1) br(1,2) e6(1) by (simp add: encode_reporting_def)
qed

lemma report_crossed:
  assumes "valid_report r" and "in_list s"
  shows "\<exists>enc. encode_report r = Inr enc \<and> crosses summary_step enc s (with_summary s (report_summary r))"
  using occurrence_crossed [OF assms] reporting_crossed [OF assms] crosses_append by (fastforce simp: encode_report_def)

lemma reports_crossed:
  "list_all valid_report rs \<Longrightarrow> in_list s \<Longrightarrow>
     \<exists>enc. catR (map encode_report rs) = Inr enc \<and> crosses summary_step enc s (s\<lparr>summaries := summaries s @ map report_summary rs\<rparr>)"
proof (induction rs arbitrary: s)
  case Nil
  then show ?case
    by (simp add: crosses_Nil)
next
  case (Cons r rs)
  let ?s = "s\<lparr>summaries := summaries s @ [report_summary r]\<rparr>"
  obtain e where e: "encode_report r = Inr e" "crosses summary_step e s ?s"
    using report_crossed [of r s] Cons.prems by auto
  obtain es where es: "catR (map encode_report rs) = Inr es"
      "crosses summary_step es ?s (?s\<lparr>summaries := summaries ?s @ map report_summary rs\<rparr>)"
    using Cons.IH [of ?s] Cons.prems by auto
  show ?case
    using e(1) es(1) crosses_append [OF e(2) es(2)] by simp
qed

section \<open>The answer\<close>

lemma event_information_read:
  assumes "is_octet iid" and "list_all valid_report rs"
  shows "bindR (encode_event_information iid rs further) parse_event_summaries = Inr (map report_summary rs, Some further)"
proof -
  let ?s0 = "\<lparr>summaries = [], more_events = None, in_list = False\<rparr>"
  let ?s1 = "?s0\<lparr>in_list := True\<rparr>"
  let ?s2 = "?s1\<lparr>summaries := map report_summary rs\<rparr>"
  let ?s3 = "?s2\<lparr>in_list := False\<rparr>"
  obtain op cl where br: "opening_tag 0 = Inr op" "closing_tag 0 = Inr cl" "encodes op 0 True Open []" "encodes cl 0 True Close []"
    by (rule bracket_parameter [of 0]) auto
  obtain es where es: "catR (map encode_report rs) = Inr es" "crosses summary_step es ?s1 ?s2"
    using reports_crossed [OF assms(2), of ?s1] by auto
  obtain e where e: "context_boolean 1 further = Inr e" "encodes e 1 True Value [if further then 1 else 0]"
    using context_boolean_ok [of 1 further] by auto
  have head: "bytes_of [0x30, iid, 29] = Inr [0x30, word_of_int iid, 29]"
    using assms(1) by (simp add: bytes_of_def is_octet_def)
  have x1: "crosses summary_step op ?s0 ?s1"
    by (rule crosses_tag [OF br(3)]) (simp add: summary_step_def)
  have x2: "crosses summary_step cl ?s2 ?s3"
    by (rule crosses_tag [OF br(4)]) (simp add: summary_step_def)
  have x3: "crosses summary_step e ?s3 (?s3\<lparr>more_events := Some further\<rparr>)"
    by (rule crosses_tag [OF e(2)]) (simp add: summary_step_def int_from_bytes_Cons)
  from crosses_append [OF x1 crosses_append [OF es(2) crosses_append [OF x2 x3]]]
  have "crosses summary_step (op @ es @ cl @ e) ?s0 (?s3\<lparr>more_events := Some further\<rparr>)" .
  from crossesD [OF this, of 0 "op @ es @ cl @ e" "[]"]
  have "scan_to (summary_step (op @ es @ cl @ e)) (op @ es @ cl @ e) 0 ?s0 = Inr (?s3\<lparr>more_events := Some further\<rparr>)"
    by (simp add: scan_to_end)
  then show ?thesis
    using br(1,2) es(1) e(1) head by (simp add: encode_event_information_def parse_event_summaries_def)
qed

end
