(* ===== verification/Peer_Thread.thy ===== *)
theory Peer_Thread
  imports Peer_Device Endpoint
begin

text \<open>
  The serving thread of a simulated device and \<open>stop()\<close> (\<open>SimulatedDevice._serve\<close> and \<open>stop\<close> of \<open>wiretest/peer.py\<close>), as steps of two
  threads and the network. The thread waits in \<open>select\<close> on its own socket and, when there is one, on the broadcast socket, reads one
  datagram of each socket that is ready, and answers it from its own socket. Meanwhile datagrams arrive, and the test changes the data
  served (\<open>Adjusted\<close>) or stops the device. A step is what lies between two points where the test may act: the test of \<open>_running\<close>, the
  return of \<open>select\<close>, one \<open>recvfrom\<close> with the decoding and keeping of its frame, one answer with its reply.
  An arrival holds the octets \<open>recvfrom(2048)\<close> returns, so a longer datagram stands here as the operating system cuts it.
\<close>

section \<open>The system\<close>

datatype socket_name = Own | OnBroadcast

datatype thread_point =
    Polling
  | Selecting
  | Reading "socket_name list"
  | Answering frame "socket_name list"
  | Ended "py_error option"

datatype test_point = Active | Joining | ClosingOwn | ClosingBroadcast | Closed

record 'd device_system =
  dev_state :: 'd
  dev_queue :: "socket_name \<Rightarrow> arrival list"
  dev_sockets :: "socket_name list"
  dev_open :: "socket_name set"
  dev_running :: bool
  dev_thread :: thread_point
  dev_test :: test_point
  dev_sent :: "(bytes \<times> address) list"

datatype 'd dev_event =
    Arriving socket_name arrival
  | Taken socket_name arrival
  | Answered
  | Turned
  | Adjusted "'d \<Rightarrow> 'd"
  | Stopping

text \<open>The constructor: the sockets are bound and the thread is started.\<close>

definition dev_start :: "'d \<Rightarrow> bool \<Rightarrow> 'd device_system" where
  "dev_start d with_broadcast =
     (let sockets = Own # (if with_broadcast then [OnBroadcast] else []) in
      \<lparr>dev_state = d, dev_queue = \<lambda>_. [], dev_sockets = sockets, dev_open = set sockets, dev_running = True,
       dev_thread = Polling, dev_test = Active, dev_sent = []\<rparr>)"

text \<open>After \<open>recvfrom\<close>: the frame is decoded and kept; \<open>_answer\<close> is called for a decoded APDU.\<close>

definition keep_datagram ::
    "bytes \<Rightarrow> address \<Rightarrow> socket_name \<Rightarrow> socket_name list \<Rightarrow> 'a device_scheme device_system \<Rightarrow> 'a device_scheme device_system" where
  "keep_datagram data src sk rest s =
     (case Frame data src of
        Inl e \<Rightarrow> s\<lparr>dev_thread := Ended (Some e)\<rparr>
      | Inr f \<Rightarrow> s\<lparr>dev_state := keep_frame (sk = OnBroadcast) f (dev_state s),
                   dev_thread := (if ok f \<and> network_message f = None then Answering f rest else Reading rest)\<rparr>)"

text \<open>The answer and its reply, sent from the device's own socket; \<open>sendto\<close> on a closed socket raises.\<close>

definition send_answer ::
    "(frame \<Rightarrow> ('a device_scheme, bytes option) action) \<Rightarrow> frame \<Rightarrow> socket_name list \<Rightarrow>
     'a device_scheme device_system \<Rightarrow> 'a device_scheme device_system" where
  "send_answer answer f rest s =
     (case bindS (answer f) (\<lambda>apdu. case apdu of None \<Rightarrow> returnS None
          | Some octets \<Rightarrow> liftS (bindR (reply f octets) (\<lambda>r. Inr (Some r)))) (dev_state s) of
        (Inl e, d) \<Rightarrow> s\<lparr>dev_state := d, dev_thread := Ended (Some e)\<rparr>
      | (Inr None, d) \<Rightarrow> s\<lparr>dev_state := d, dev_thread := Reading rest\<rparr>
      | (Inr (Some datagram), d) \<Rightarrow>
          if Own \<in> dev_open s then s\<lparr>dev_state := d, dev_thread := Reading rest, dev_sent := dev_sent s @ [datagram]\<rparr>
          else s\<lparr>dev_state := d, dev_thread := Ended (Some OSError)\<rparr>)"

text \<open>What the test may change while the thread runs: anything but the lists of frames.\<close>

definition independent :: "('a device_scheme \<Rightarrow> 'a device_scheme) \<Rightarrow> bool" where
  "independent g \<longleftrightarrow> (\<forall>bc f d. g (keep_frame bc f d) = keep_frame bc f (g d)) \<and> (\<forall>d. kept_frames (g d) = kept_frames d)"

abbreviation ready_sockets :: "'d device_system \<Rightarrow> socket_name list" where
  "ready_sockets s \<equiv> filter (\<lambda>sk. dev_queue s sk \<noteq> []) (dev_sockets s)"

inductive dev_step ::
    "(frame \<Rightarrow> ('a device_scheme, bytes option) action) \<Rightarrow> 'a device_scheme device_system \<Rightarrow> 'a device_scheme dev_event \<Rightarrow>
     'a device_scheme device_system \<Rightarrow> bool" for answer where
  arrive: "sk \<in> dev_open s \<Longrightarrow>
    dev_step answer s (Arriving sk a) (s\<lparr>dev_queue := (dev_queue s)(sk := dev_queue s sk @ [a])\<rparr>)"
| adjust: "independent g \<Longrightarrow> dev_step answer s (Adjusted g) (s\<lparr>dev_state := g (dev_state s)\<rparr>)"
| loop: "dev_thread s = Polling \<Longrightarrow> dev_running s \<Longrightarrow> dev_step answer s Turned (s\<lparr>dev_thread := Selecting\<rparr>)"
| loop_ends: "dev_thread s = Polling \<Longrightarrow> \<not> dev_running s \<Longrightarrow> dev_step answer s Turned (s\<lparr>dev_thread := Ended None\<rparr>)"
| select: "dev_thread s = Selecting \<Longrightarrow> set (dev_sockets s) \<subseteq> dev_open s \<Longrightarrow>
    dev_step answer s Turned (s\<lparr>dev_thread := Reading (ready_sockets s)\<rparr>)"
| select_raises: "dev_thread s = Selecting \<Longrightarrow> \<not> set (dev_sockets s) \<subseteq> dev_open s \<Longrightarrow>
    dev_step answer s Turned (s\<lparr>dev_thread := Ended None\<rparr>)"
| turn_over: "dev_thread s = Reading [] \<Longrightarrow> dev_step answer s Turned (s\<lparr>dev_thread := Polling\<rparr>)"
| read_raises: "dev_thread s = Reading (sk # rest) \<Longrightarrow> sk \<notin> dev_open s \<Longrightarrow>
    dev_step answer s Turned (s\<lparr>dev_thread := Ended None\<rparr>)"
| reset: "dev_thread s = Reading (sk # rest) \<Longrightarrow> sk \<in> dev_open s \<Longrightarrow> dev_queue s sk = ConnectionReset # q \<Longrightarrow>
    dev_step answer s (Taken sk ConnectionReset) (s\<lparr>dev_queue := (dev_queue s)(sk := q), dev_thread := Reading rest\<rparr>)"
| read: "dev_thread s = Reading (sk # rest) \<Longrightarrow> sk \<in> dev_open s \<Longrightarrow> dev_queue s sk = Datagram data src # q \<Longrightarrow>
    dev_step answer s (Taken sk (Datagram data src)) (keep_datagram data src sk rest (s\<lparr>dev_queue := (dev_queue s)(sk := q)\<rparr>))"
| answer: "dev_thread s = Answering f rest \<Longrightarrow> dev_step answer s Answered (send_answer answer f rest s)"
| stop: "dev_test s = Active \<Longrightarrow> dev_step answer s Stopping (s\<lparr>dev_running := False, dev_test := Joining\<rparr>)"
| join: "dev_test s = Joining \<Longrightarrow> dev_step answer s Stopping (s\<lparr>dev_test := ClosingOwn\<rparr>)"
| close_own: "dev_test s = ClosingOwn \<Longrightarrow> dev_step answer s Stopping
    (s\<lparr>dev_open := dev_open s - {Own}, dev_test := (if OnBroadcast \<in> set (dev_sockets s) then ClosingBroadcast else Closed)\<rparr>)"
| close_broadcast: "dev_test s = ClosingBroadcast \<Longrightarrow> dev_step answer s Stopping
    (s\<lparr>dev_open := dev_open s - {OnBroadcast}, dev_test := Closed\<rparr>)"

inductive dev_run for answer where
  refl: "dev_run answer s [] s"
| step: "dev_run answer s es t \<Longrightarrow> dev_step answer t e u \<Longrightarrow> dev_run answer s (es @ [e]) u"

inductive_cases dev_stepE: "dev_step answer s e t"

section \<open>The sequential meaning\<close>

text \<open>A device that serves one datagram at a time, and the test changing its data between two of them.\<close>

datatype 'd dev_op = Serve "bytes \<times> address \<times> bool" | Change "'d \<Rightarrow> 'd"

definition perform ::
    "(frame \<Rightarrow> ('a device_scheme, bytes option) action) \<Rightarrow> 'a device_scheme dev_op \<Rightarrow>
     (bytes \<times> address) list \<times> py_error option \<times> 'a device_scheme \<Rightarrow> (bytes \<times> address) list \<times> py_error option \<times> 'a device_scheme" where
  "perform answer op st =
     (case st of (out, e, d) \<Rightarrow> (case op of
        Change g \<Rightarrow> (out, e, g d)
      | Serve dg \<Rightarrow> if e \<noteq> None then (out, e, d) else (case serve answer dg d of
            (Inl e', d') \<Rightarrow> (out, Some e', d')
          | (Inr r, d') \<Rightarrow> (out @ (case r of None \<Rightarrow> [] | Some datagram \<Rightarrow> [datagram]), None, d'))))"

lemma perform_simps [simp]:
  "perform answer (Change g) (out, e, d) = (out, e, g d)"
  "perform answer (Serve dg) (out, Some x, d) = (out, Some x, d)"
  "perform answer (Serve dg) (out, None, d) = (case serve answer dg d of
       (Inl e', d') \<Rightarrow> (out, Some e', d')
     | (Inr r, d') \<Rightarrow> (out @ (case r of None \<Rightarrow> [] | Some datagram \<Rightarrow> [datagram]), None, d'))"
  by (simp_all add: perform_def)

definition sequential where
  "sequential answer ops d = fold (perform answer) ops ([], None, d)"

lemma sequential_snoc [simp]: "sequential answer (ops @ [op]) d = perform answer op (sequential answer ops d)"
  by (simp add: sequential_def)

lemma sequential_Nil [simp]: "sequential answer [] d = ([], None, d)"
  by (simp add: sequential_def)

text \<open>Without changes it is \<open>serve_all\<close>.\<close>

lemma perform_ended: "fold (perform answer) (map Serve ds) (out, Some e, d) = (out, Some e, d)"
  by (induction ds) simp_all

lemma sequential_from:
  "fold (perform answer) (map Serve ds) (out, None, d) =
     (case serve_all answer ds d of (outs, e, d') \<Rightarrow> (out @ outs, e, d'))"
proof (induction ds arbitrary: out d)
  case (Cons dg ds)
  obtain r d1 where s: "serve answer dg d = (r, d1)"
    by (cases "serve answer dg d")
  show ?case
  proof (cases r)
    case (Inl e)
    then show ?thesis
      using s by (simp add: perform_ended)
  next
    case (Inr out')
    then show ?thesis
      using s by (cases "serve_all answer ds d1") (auto simp: Cons.IH split: option.split)
  qed
qed simp

lemma sequential_serve_all: "sequential answer (map Serve ds) d = serve_all answer ds d"
  by (simp add: sequential_def sequential_from split: prod.split)

end
