(* ===== verification/Peer_Thread_Laws.thy ===== *)
theory Peer_Thread_Laws
  imports Peer_Thread Peer_Laws
begin

text \<open>
  What every interleaving of a device's thread, its test and the network keeps: each socket is read in the order of arrival; the
  datagrams taken have been served one at a time, with every change of the test before or after each of them; after \<open>stop()\<close> the
  thread ends within a bounded number of its own steps, and once the sockets are closed nothing is sent or kept.
\<close>

section \<open>What a run has seen\<close>

fun arrived_on :: "socket_name \<Rightarrow> 'd dev_event list \<Rightarrow> arrival list" where
  "arrived_on sk [] = []"
| "arrived_on sk (Arriving sk' a # es) = (if sk' = sk then a # arrived_on sk es else arrived_on sk es)"
| "arrived_on sk (_ # es) = arrived_on sk es"

fun taken_from :: "socket_name \<Rightarrow> 'd dev_event list \<Rightarrow> arrival list" where
  "taken_from sk [] = []"
| "taken_from sk (Taken sk' a # es) = (if sk' = sk then a # taken_from sk es else taken_from sk es)"
| "taken_from sk (_ # es) = taken_from sk es"

fun taken :: "'d dev_event list \<Rightarrow> (bytes \<times> address \<times> bool) list" where
  "taken [] = []"
| "taken (Taken sk (Datagram data src) # es) = (data, src, sk = OnBroadcast) # taken es"
| "taken (_ # es) = taken es"

fun changes_made :: "'d dev_event list \<Rightarrow> ('d \<Rightarrow> 'd) list" where
  "changes_made [] = []"
| "changes_made (Adjusted g # es) = g # changes_made es"
| "changes_made (_ # es) = changes_made es"

fun served :: "'d dev_op list \<Rightarrow> (bytes \<times> address \<times> bool) list" where
  "served [] = []"
| "served (Serve dg # ops) = dg # served ops"
| "served (Change g # ops) = served ops"

fun changes :: "'d dev_op list \<Rightarrow> ('d \<Rightarrow> 'd) list" where
  "changes [] = []"
| "changes (Serve dg # ops) = changes ops"
| "changes (Change g # ops) = g # changes ops"

lemma arrived_on_append [simp]: "arrived_on sk (es @ es') = arrived_on sk es @ arrived_on sk es'"
  by (induction sk es rule: arrived_on.induct) simp_all

lemma taken_from_append [simp]: "taken_from sk (es @ es') = taken_from sk es @ taken_from sk es'"
  by (induction sk es rule: taken_from.induct) simp_all

lemma taken_append [simp]: "taken (es @ es') = taken es @ taken es'"
  by (induction es rule: taken.induct) simp_all

lemma changes_made_append [simp]: "changes_made (es @ es') = changes_made es @ changes_made es'"
  by (induction es rule: changes_made.induct) simp_all

lemma served_append [simp]: "served (ops @ ops') = served ops @ served ops'"
  by (induction ops rule: served.induct) simp_all

lemma changes_append [simp]: "changes (ops @ ops') = changes ops @ changes ops'"
  by (induction ops rule: changes.induct) simp_all

section \<open>The frame conditions of the two functions\<close>

lemma keep_datagram_frame [simp]:
  "dev_queue (keep_datagram data src sk rest s) = dev_queue s" "dev_open (keep_datagram data src sk rest s) = dev_open s"
  "dev_sockets (keep_datagram data src sk rest s) = dev_sockets s" "dev_running (keep_datagram data src sk rest s) = dev_running s"
  "dev_test (keep_datagram data src sk rest s) = dev_test s" "dev_sent (keep_datagram data src sk rest s) = dev_sent s"
  by (simp_all add: keep_datagram_def split: sum.split)

lemma send_answer_frame [simp]:
  "dev_queue (send_answer answer f rest s) = dev_queue s" "dev_open (send_answer answer f rest s) = dev_open s"
  "dev_sockets (send_answer answer f rest s) = dev_sockets s" "dev_running (send_answer answer f rest s) = dev_running s"
  "dev_test (send_answer answer f rest s) = dev_test s"
  by (simp_all add: send_answer_def split: prod.split sum.split option.split)

section \<open>Order of arrival\<close>

definition in_order :: "'d dev_event list \<Rightarrow> 'd device_system \<Rightarrow> bool" where
  "in_order es s \<longleftrightarrow> (\<forall>sk. arrived_on sk es = taken_from sk es @ dev_queue s sk)"

lemma in_order_step: "dev_step answer s e t \<Longrightarrow> in_order es s \<Longrightarrow> in_order (es @ [e]) t"
  by (cases rule: dev_step.cases) (auto simp: in_order_def)

lemma run_in_order: "dev_run answer s es t \<Longrightarrow> in_order [] s \<Longrightarrow> in_order es t"
  by (induction rule: dev_run.induct) (auto intro: in_order_step)

lemma dev_start_in_order: "in_order [] (dev_start d bc)"
  by (simp add: in_order_def dev_start_def Let_def)

section \<open>One datagram at a time\<close>

fun thread_error :: "thread_point \<Rightarrow> py_error option" where
  "thread_error (Ended e) = e"
| "thread_error _ = None"

text \<open>Where the thread stands after the operations performed: behind them all, in the middle of the last datagram, or ended
  because its own socket was closed under its reply.\<close>

definition performs ::
    "(frame \<Rightarrow> ('a device_scheme, bytes option) action) \<Rightarrow> 'a device_scheme \<Rightarrow> 'a device_scheme dev_op list \<Rightarrow>
     'a device_scheme device_system \<Rightarrow> bool" where
  "performs answer d0 ops s \<longleftrightarrow>
     (case dev_thread s of
        Answering f rest \<Rightarrow>
          (\<exists>ops' data src bc d. ops = ops' @ [Serve (data, src, bc)] \<and> Frame data src = Inr f \<and> ok f \<and> network_message f = None \<and>
             sequential answer ops' d0 = (dev_sent s, None, d) \<and> dev_state s = keep_frame bc f d)
      | point \<Rightarrow>
          sequential answer ops d0 = (dev_sent s, thread_error point, dev_state s) \<or>
          point = Ended (Some OSError) \<and> Own \<notin> dev_open s \<and>
            (\<exists>datagram. sequential answer ops d0 = (dev_sent s @ [datagram], None, dev_state s)))"

definition linear :: "(frame \<Rightarrow> ('a device_scheme, bytes option) action) \<Rightarrow> 'a device_scheme \<Rightarrow> 'a device_scheme dev_event list \<Rightarrow>
    'a device_scheme device_system \<Rightarrow> bool" where
  "linear answer d0 es s \<longleftrightarrow>
     (\<exists>ops. served ops = taken es \<and> changes ops = changes_made es \<and> performs answer d0 ops s)"

lemma performs_keeps:
  assumes "performs answer d0 ops s" and "dev_thread t = dev_thread s" and "dev_sent t = dev_sent s" and "dev_state t = dev_state s"
    and "dev_open t \<subseteq> dev_open s"
  shows "performs answer d0 ops t"
  using assms by (auto simp: performs_def split: thread_point.splits)

text \<open>A step of the thread between two datagrams.\<close>

fun between :: "thread_point \<Rightarrow> bool" where
  "between (Answering f rest) = False"
| "between (Ended e) = False"
| "between _ = True"

lemma performs_moves:
  assumes "performs answer d0 ops s" and "between (dev_thread s)" and "between (dev_thread t) \<or> dev_thread t = Ended None"
    and "dev_sent t = dev_sent s" and "dev_state t = dev_state s"
  shows "performs answer d0 ops t"
proof -
  have "sequential answer ops d0 = (dev_sent s, None, dev_state s)"
    using assms(1,2) by (auto simp: performs_def split: thread_point.splits)
  then show ?thesis
    using assms(3-5) by (cases "dev_thread t") (auto simp: performs_def)
qed

lemma performs_change:
  assumes "performs answer d0 ops s" and "independent g"
  shows "\<exists>ops'. served ops' = served ops \<and> changes ops' = changes ops @ [g] \<and> performs answer d0 ops' (s\<lparr>dev_state := g (dev_state s)\<rparr>)"
proof (cases "\<exists>f rest. dev_thread s = Answering f rest")
  case True
  then obtain f rest ops' data src bc d where s: "dev_thread s = Answering f rest" "ops = ops' @ [Serve (data, src, bc)]"
      "Frame data src = Inr f" "ok f" "network_message f = None" "sequential answer ops' d0 = (dev_sent s, None, d)"
      "dev_state s = keep_frame bc f d"
    using assms(1) by (auto simp: performs_def)
  then have "performs answer d0 ((ops' @ [Change g]) @ [Serve (data, src, bc)]) (s\<lparr>dev_state := g (dev_state s)\<rparr>)"
    unfolding performs_def using assms(2) by (fastforce simp: independent_def)
  then show ?thesis
    using s(2) by (intro exI [of _ "(ops' @ [Change g]) @ [Serve (data, src, bc)]"]) simp
next
  case False
  then have "performs answer d0 (ops @ [Change g]) (s\<lparr>dev_state := g (dev_state s)\<rparr>)"
    using assms(1) by (auto simp: performs_def split: thread_point.splits)
  then show ?thesis
    by (intro exI [of _ "ops @ [Change g]"]) simp
qed

lemma performs_read:
  assumes "performs answer d0 ops s" and "dev_thread s = Reading (sk # rest)"
  shows "performs answer d0 (ops @ [Serve (data, src, sk = OnBroadcast)]) (keep_datagram data src sk rest (s\<lparr>dev_queue := q\<rparr>))"
proof -
  have s: "sequential answer ops d0 = (dev_sent s, None, dev_state s)"
    using assms by (simp add: performs_def)
  show ?thesis
  proof (cases "Frame data src")
    case (Inl e)
    then show ?thesis
      using s by (simp add: performs_def keep_datagram_def serve_def bindS_def)
  next
    case (Inr f)
    then show ?thesis
      using s by (auto simp: performs_def keep_datagram_def serve_def)
  qed
qed

lemma performs_answer:
  assumes "performs answer d0 ops s" and "dev_thread s = Answering f rest"
  shows "performs answer d0 ops (send_answer answer f rest s)"
proof -
  obtain ops' data src bc d where s: "ops = ops' @ [Serve (data, src, bc)]" "Frame data src = Inr f" "ok f" "network_message f = None"
      "sequential answer ops' d0 = (dev_sent s, None, d)" "dev_state s = keep_frame bc f d"
    using assms by (auto simp: performs_def)
  let ?m = "bindS (answer f) (\<lambda>apdu. case apdu of None \<Rightarrow> returnS None
      | Some octets \<Rightarrow> liftS (bindR (reply f octets) (\<lambda>r. Inr (Some r))))"
  have "serve answer (data, src, bc) d = ?m (dev_state s)"
    using s by (simp add: serve_def)
  then have seq: "sequential answer ops d0 = perform answer (Serve (data, src, bc)) (dev_sent s, None, d)"
      "serve answer (data, src, bc) d = ?m (dev_state s)"
    using s by simp_all
  obtain r d' where m: "?m (dev_state s) = (r, d')"
    by (cases "?m (dev_state s)")
  show ?thesis
    using seq m by (cases r) (auto simp: performs_def send_answer_def split: option.splits)
qed

lemma linear_step:
  assumes "dev_step answer s e t" and "linear answer d0 es s"
  shows "linear answer d0 (es @ [e]) t"
proof -
  obtain ops where ops: "served ops = taken es" "changes ops = changes_made es" "performs answer d0 ops s"
    using assms(2) by (auto simp: linear_def)
  have same: "linear answer d0 (es @ [e']) t'" if "performs answer d0 ops t'" "taken [e'] = []" "changes_made [e'] = []" for e' t'
    using ops that by (auto simp: linear_def)
  from assms(1) show ?thesis
  proof cases
    case (adjust g)
    then show ?thesis
      using performs_change [OF ops(3), of g] ops(1,2) by (auto simp: linear_def)
  next
    case (read sk rest data src q)
    then show ?thesis
      using performs_read [OF ops(3) read(3), of data src "(dev_queue s)(sk := q)"] ops(1,2)
      by (auto simp: linear_def intro!: exI [of _ "ops @ [Serve (data, src, sk = OnBroadcast)]"])
  next
    case (answer f rest)
    then show ?thesis
      using performs_answer [OF ops(3)] by (intro same) auto
  qed (auto intro!: same intro: performs_keeps [OF ops(3)] performs_moves [OF ops(3)])
qed

lemma run_linear:
  assumes "dev_run answer (dev_start d0 bc) es s"
  shows "linear answer d0 es s"
  using assms
proof (induction "dev_start d0 bc" es s rule: dev_run.induct)
  case refl
  show ?case
    by (auto simp: linear_def performs_def dev_start_def Let_def intro!: exI [of _ "[]"])
next
  case (step es t e u)
  then show ?case
    using linear_step by blast
qed

text \<open>While the device's own socket is open no reply is lost.\<close>

lemma run_sequential:
  assumes "dev_run answer (dev_start d0 bc) es s" and "\<And>f rest. dev_thread s \<noteq> Answering f rest" and "Own \<in> dev_open s"
  shows "\<exists>ops. served ops = taken es \<and> changes ops = changes_made es \<and>
     sequential answer ops d0 = (dev_sent s, thread_error (dev_thread s), dev_state s)"
proof -
  obtain ops where "served ops = taken es" "changes ops = changes_made es" "performs answer d0 ops s"
    using run_linear [OF assms(1)] by (auto simp: linear_def)
  then show ?thesis
    using assms(2,3) by (intro exI [of _ ops]) (cases "dev_thread s"; auto simp: performs_def)
qed

section \<open>Stopping\<close>

text \<open>The sockets of \<open>select\<close> that are still to be read have something to read, for the thread is their only reader; the test has
  cleared \<open>_running\<close> before it closes, and closes all.\<close>

definition ready :: "'d device_system \<Rightarrow> socket_name list \<Rightarrow> bool" where
  "ready s socks \<longleftrightarrow> distinct socks \<and> set socks \<subseteq> set (dev_sockets s) \<and> list_all (\<lambda>sk. dev_queue s sk \<noteq> []) socks"

definition thread_inv :: "'d device_system \<Rightarrow> bool" where
  "thread_inv s \<longleftrightarrow> distinct (dev_sockets s) \<and>
     (case dev_thread s of Reading socks \<Rightarrow> ready s socks | Answering f socks \<Rightarrow> ready s socks | _ \<Rightarrow> True)"

definition stop_inv :: "'d device_system \<Rightarrow> bool" where
  "stop_inv s \<longleftrightarrow> (dev_test s \<noteq> Active \<longrightarrow> \<not> dev_running s) \<and> (dev_test s \<in> {ClosingBroadcast, Closed} \<longrightarrow> Own \<notin> dev_open s) \<and>
     (dev_test s = Closed \<longrightarrow> OnBroadcast \<notin> dev_open s \<inter> set (dev_sockets s)) \<and> Own \<in> set (dev_sockets s)"

lemma ready_rest:
  "ready s (sk # socks) \<Longrightarrow> dev_sockets t = dev_sockets s \<Longrightarrow> dev_queue t = (dev_queue s)(sk := q) \<Longrightarrow> ready t socks"
  by (auto simp: ready_def list_all_iff)

lemma ready_more:
  "ready s socks \<Longrightarrow> dev_sockets t = dev_sockets s \<Longrightarrow> (\<And>sk. dev_queue s sk \<noteq> [] \<Longrightarrow> dev_queue t sk \<noteq> []) \<Longrightarrow> ready t socks"
  by (auto simp: ready_def list_all_iff)

lemma thread_inv_same:
  assumes "thread_inv s" and "dev_thread t = dev_thread s" and "dev_sockets t = dev_sockets s"
    and "\<And>sk. dev_queue s sk \<noteq> [] \<Longrightarrow> dev_queue t sk \<noteq> []"
  shows "thread_inv t"
  using assms by (auto simp: thread_inv_def split: thread_point.splits intro: ready_more)

lemma keep_datagram_inv:
  assumes "ready (s\<lparr>dev_queue := q\<rparr>) rest" and "distinct (dev_sockets s)"
  shows "thread_inv (keep_datagram data src sk rest (s\<lparr>dev_queue := q\<rparr>))"
  using assms by (auto simp: thread_inv_def keep_datagram_def ready_def split: sum.split)

lemma send_answer_inv:
  assumes "ready s rest" and "distinct (dev_sockets s)"
  shows "thread_inv (send_answer answer f rest s)"
  using assms by (auto simp: thread_inv_def send_answer_def ready_def split: prod.split sum.split option.split)

lemma thread_inv_step:
  assumes "dev_step answer s e t" and "thread_inv s"
  shows "thread_inv t"
  using assms(1)
proof cases
  case (reset sk rest q)
  then show ?thesis
    using assms(2) ready_rest [of s sk rest t q] by (simp add: thread_inv_def)
next
  case (read sk rest data src q)
  then have "ready s (sk # rest)" "distinct (dev_sockets s)"
    using assms(2) by (simp_all add: thread_inv_def)
  then show ?thesis
    unfolding read(2) by (intro keep_datagram_inv ready_rest [of s sk rest _ q]) simp_all
next
  case (answer f rest)
  then show ?thesis
    using assms(2) send_answer_inv [of s rest] by (simp add: thread_inv_def)
next
  case select
  then show ?thesis
    using assms(2) by (auto simp: thread_inv_def ready_def list_all_iff)
next
  case (arrive sk a)
  then show ?thesis
    using thread_inv_same [OF assms(2), of t] by simp
qed (use assms(2) thread_inv_same [OF assms(2), of t] in \<open>simp_all add: thread_inv_def ready_def\<close>)

lemma stop_inv_step:
  assumes "dev_step answer s e t" and "stop_inv s"
  shows "stop_inv t"
  using assms(1) by cases (use assms(2) in \<open>auto simp: stop_inv_def\<close>)

lemma dev_start_inv: "thread_inv (dev_start d bc)" "stop_inv (dev_start d bc)"
  by (simp_all add: thread_inv_def stop_inv_def dev_start_def Let_def)

lemma run_inv: "dev_run answer s es t \<Longrightarrow> thread_inv s \<and> stop_inv s \<Longrightarrow> thread_inv t \<and> stop_inv t"
  by (induction rule: dev_run.induct) (auto intro: thread_inv_step stop_inv_step)

text \<open>After \<open>_running\<close> is cleared, every step of the thread brings it nearer to its end.\<close>

fun of_thread :: "'d dev_event \<Rightarrow> bool" where
  "of_thread (Taken sk a) = True"
| "of_thread Answered = True"
| "of_thread Turned = True"
| "of_thread _ = False"

fun steps_left :: "nat \<Rightarrow> thread_point \<Rightarrow> nat" where
  "steps_left n Polling = 1"
| "steps_left n Selecting = 3 + 2 * n"
| "steps_left n (Reading socks) = 2 + 2 * length socks"
| "steps_left n (Answering f socks) = 3 + 2 * length socks"
| "steps_left n (Ended e) = 0"

abbreviation left_of :: "'d device_system \<Rightarrow> nat" where
  "left_of s \<equiv> steps_left (length (dev_sockets s)) (dev_thread s)"

lemma stopping_step:
  assumes "dev_step answer s e t" and "\<not> dev_running s"
  shows "\<not> dev_running t \<and> (if of_thread e then left_of t < left_of s else left_of t = left_of s)"
  using assms(1)
proof cases
  case select
  then show ?thesis
    using assms(2) length_filter_le [of "\<lambda>sk. dev_queue s sk \<noteq> []" "dev_sockets s"] by (simp add: less_Suc_eq_le)
next
  case (read sk rest data src q)
  then show ?thesis
    using assms(2) by (simp add: keep_datagram_def split: sum.split)
next
  case (answer f rest)
  then show ?thesis
    using assms(2) by (simp add: send_answer_def split: prod.split sum.split option.split)
qed (use assms(2) in auto)

lemma stopping_run:
  "dev_run answer s es t \<Longrightarrow> \<not> dev_running s \<Longrightarrow> \<not> dev_running t \<and> length (filter of_thread es) + left_of t \<le> left_of s"
proof (induction rule: dev_run.induct)
  case (step s es t e u)
  then show ?case
    using stopping_step [OF step.hyps(2)] by (auto split: if_splits)
qed simp

lemma left_bound: "thread_inv s \<Longrightarrow> length (dev_sockets s) \<le> 2 \<Longrightarrow> left_of s \<le> 7"
proof -
  assume inv: "thread_inv s" and n: "length (dev_sockets s) \<le> 2"
  have "length socks \<le> 2" if "ready s socks" for socks
    using that n distinct_card [of socks] card_mono [of "set (dev_sockets s)" "set socks"] card_length [of "dev_sockets s"]
    by (simp add: ready_def)
  note two = this
  show ?thesis
    using inv n two by (cases "dev_thread s") (fastforce simp: thread_inv_def)+
qed

text \<open>The thread is never stuck before its end.\<close>

lemma thread_moves:
  assumes "thread_inv s" and "\<And>e. dev_thread s \<noteq> Ended e"
  shows "\<exists>e t. dev_step answer s e t \<and> of_thread e"
proof (cases "dev_thread s")
  case Polling
  then show ?thesis
    using dev_step.loop dev_step.loop_ends of_thread.simps(3) by metis
next
  case Selecting
  then show ?thesis
    using dev_step.select dev_step.select_raises of_thread.simps(3) by metis
next
  case (Reading socks)
  show ?thesis
  proof (cases socks)
    case Nil
    then show ?thesis
      using Reading dev_step.turn_over of_thread.simps(3) by metis
  next
    case (Cons sk rest)
    then obtain a q where q: "dev_queue s sk = a # q"
      using assms(1) Reading by (cases "dev_queue s sk") (auto simp: thread_inv_def ready_def)
    show ?thesis
    proof (cases "sk \<in> dev_open s")
      case True
      then show ?thesis
        using dev_step.read [OF Reading [unfolded Cons] True, of _ _ q answer]
          dev_step.reset [OF Reading [unfolded Cons] True, of q answer] q
        by (cases a) (auto intro: exI [of _ "Taken sk a"])
    next
      case False
      then show ?thesis
        using Reading Cons dev_step.read_raises of_thread.simps(3) by metis
    qed
  qed
next
  case (Answering f rest)
  then show ?thesis
    using dev_step.answer of_thread.simps(2) by metis
qed (use assms in auto)

text \<open>Once the sockets are closed nothing is read or sent.\<close>

lemma closed_socket: "stop_inv s \<Longrightarrow> dev_test s = Closed \<Longrightarrow> sk \<in> set (dev_sockets s) \<Longrightarrow> sk \<notin> dev_open s"
  by (cases sk) (auto simp: stop_inv_def)

context answering_device begin

lemma send_answer_keeps: "kept_frames (dev_state (send_answer answer f rest s)) = kept_frames (dev_state s)"
proof -
  have "keeps kept_frames (bindS (answer f) (\<lambda>apdu. case apdu of None \<Rightarrow> returnS None
      | Some octets \<Rightarrow> liftS (bindR (reply f octets) (\<lambda>r. Inr (Some r)))))"
    by (intro keeps_bind answer_keeps) (auto split: option.split)
  from keepsD [OF this, of "dev_state s"] show ?thesis
    by (auto simp: send_answer_def split: prod.split sum.split option.split)
qed

lemma closed_step:
  assumes "dev_step answer s e t" and "thread_inv s" and "stop_inv s" and "dev_test s = Closed"
  shows "dev_test t = Closed \<and> dev_sent t = dev_sent s \<and> taken_from sk [e] = [] \<and>
     kept_frames (dev_state t) = kept_frames (dev_state s)"
  using assms(1)
proof cases
  case (answer f rest)
  then show ?thesis
    using assms(3,4) send_answer_keeps by (simp add: stop_inv_def send_answer_def split: prod.split sum.split option.split)
next
  case (adjust g)
  then show ?thesis
    using assms(4) by (simp add: independent_def)
next
  case (reset sk' rest q)
  then have "sk' \<in> set (dev_sockets s)" "sk' \<in> dev_open s"
    using assms(2) by (auto simp: thread_inv_def ready_def)
  then show ?thesis
    using closed_socket [OF assms(3,4)] by blast
next
  case (read sk' rest data src q)
  then have "sk' \<in> set (dev_sockets s)" "sk' \<in> dev_open s"
    using assms(2) by (auto simp: thread_inv_def ready_def)
  then show ?thesis
    using closed_socket [OF assms(3,4)] by blast
qed (use assms in \<open>auto simp: stop_inv_def\<close>)

lemma closed_run:
  "dev_run answer s es t \<Longrightarrow> thread_inv s \<and> stop_inv s \<and> dev_test s = Closed \<Longrightarrow>
     dev_test t = Closed \<and> dev_sent t = dev_sent s \<and> taken_from sk es = [] \<and> kept_frames (dev_state t) = kept_frames (dev_state s)"
proof (induction rule: dev_run.induct)
  case (step s es t e u)
  then show ?case
    using closed_step [OF step.hyps(2), of sk] run_inv [OF step.hyps(1)] by simp
qed simp

text \<open>Every reply of a run goes to where a datagram of the run came from.\<close>

lemma perform_destinations:
  assumes "snd ` set (fst st) \<subseteq> A"
  shows "snd ` set (fst (perform answer op st)) \<subseteq> A \<union> (case op of Serve (data, src, bc) \<Rightarrow> {src} | Change g \<Rightarrow> {})"
proof -
  obtain out e d where st: "st = (out, e, d)"
    by (cases st)
  show ?thesis
  proof (cases "\<exists>data src bc. op = Serve (data, src, bc) \<and> e = None")
    case True
    then obtain data src bc where op: "op = Serve (data, src, bc)" "e = None"
      by blast
    obtain r d' where sv: "serve answer (data, src, bc) d = (r, d')"
      by (cases "serve answer (data, src, bc) d")
    have "snd datagram = src" if "r = Inr (Some datagram)" for datagram
      using serve_destination [of data src bc d] sv that by (metis prod.collapse)
    then have "snd ` set (fst (perform answer op st)) \<subseteq> snd ` set out \<union> {src}"
      using sv by (auto simp: st op split: sum.split option.split)
    then show ?thesis
      using assms op(1) by (auto simp: st)
  next
    case False
    then have "fst (perform answer op st) = out"
      by (cases op; cases e) (auto simp: st)
    then show ?thesis
      using assms by (auto simp: st)
  qed
qed

lemma sequential_destinations: "snd ` set (fst (sequential answer ops d)) \<subseteq> (\<lambda>(data, src, bc). src) ` set (served ops)"
proof (induction ops rule: rev_induct)
  case (snoc op ops)
  then show ?case
    using perform_destinations [OF snoc, of op] by (cases op) (auto split: prod.splits)
qed simp

lemma run_destinations:
  assumes "dev_run answer (dev_start d bc) es s"
  shows "snd ` set (dev_sent s) \<subseteq> (\<lambda>(data, src, bc). src) ` set (taken es)"
proof -
  obtain ops where ops: "served ops = taken es" "performs answer d ops s"
    using run_linear [OF assms] by (auto simp: linear_def)
  have "set (dev_sent s) \<subseteq> set (fst (sequential answer ops' d)) \<and> set (served ops') \<subseteq> set (served ops)"
    if "ops' = ops \<or> (\<exists>op. ops = ops' @ [op])" "sequential answer ops' d = (dev_sent s @ more, e, d')" for ops' more e d'
    using that by auto
  moreover have "\<exists>ops' more e d'. (ops' = ops \<or> (\<exists>op. ops = ops' @ [op])) \<and> sequential answer ops' d = (dev_sent s @ more, e, d')"
    using ops(2) unfolding performs_def by (cases "dev_thread s") fastforce+
  ultimately obtain ops' where "set (dev_sent s) \<subseteq> set (fst (sequential answer ops' d))" "set (served ops') \<subseteq> set (taken es)"
    using ops(1) by metis
  then show ?thesis
    using sequential_destinations [of ops' d] by blast
qed

end

section \<open>Summaries of a run\<close>

lemma run_sockets: "dev_run answer s es t \<Longrightarrow> dev_sockets t = dev_sockets s"
proof (induction rule: dev_run.induct)
  case (step s es t e u)
  from step.hyps(2) step.IH show ?case
    by cases simp_all
qed simp

lemma dev_start_sockets: "length (dev_sockets (dev_start d bc)) \<le> 2"
  by (simp add: dev_start_def Let_def)

lemma taken_arrived: "(data, src, bc) \<in> set (taken es) \<Longrightarrow> \<exists>sk. Datagram data src \<in> set (taken_from sk es)"
  by (induction es rule: taken.induct) auto

lemma arrived_event: "a \<in> set (arrived_on sk es) \<Longrightarrow> Arriving sk a \<in> set es"
  by (induction sk es rule: arrived_on.induct) (auto split: if_splits)

lemma taken_came:
  assumes "dev_run answer (dev_start d bc) es s" and "(data, src, heard) \<in> set (taken es)"
  shows "\<exists>sk. Arriving sk (Datagram data src) \<in> set es"
proof -
  obtain sk where "Datagram data src \<in> set (taken_from sk es)"
    using taken_arrived [OF assms(2)] by blast
  moreover have "arrived_on sk es = taken_from sk es @ dev_queue s sk"
    using run_in_order [OF assms(1) dev_start_in_order] by (simp add: in_order_def)
  ultimately show ?thesis
    using arrived_event [of "Datagram data src" sk es] by auto
qed

text \<open>After \<open>stop\<close> has cleared \<open>_running\<close>: how many steps are left, and that the next one can be taken.\<close>

lemma stopped_run:
  assumes "dev_run answer (dev_start d bc) es s" and "\<not> dev_running s" and "dev_run answer s es' t"
  shows "length (filter of_thread es') \<le> 7"
    and "(\<And>e. dev_thread t \<noteq> Ended e) \<Longrightarrow> \<exists>e u. dev_step answer t e u \<and> of_thread e"
proof -
  have s: "thread_inv s"
    using run_inv [OF assms(1)] dev_start_inv [of d bc] by simp
  have "left_of s \<le> 7"
    using left_bound [OF s] run_sockets [OF assms(1)] dev_start_sockets [of d bc] by simp
  then show "length (filter of_thread es') \<le> 7"
    using stopping_run [OF assms(3,2)] by simp
  have "thread_inv t"
    using run_inv [OF assms(3)] run_inv [OF assms(1)] dev_start_inv [of d bc] by simp
  then show "(\<And>e. dev_thread t \<noteq> Ended e) \<Longrightarrow> \<exists>e u. dev_step answer t e u \<and> of_thread e"
    by (rule thread_moves)
qed

text \<open>A device that is asked answers.\<close>

lemma one_reply_run:
  assumes "Frame data src = Inr f" and "ok f" and "network_message f = None"
    and "answer f (keep_frame False f d) = (Inr (Some apdu), d')" and "reply f apdu = Inr datagram"
  shows "\<exists>s. dev_run answer (dev_start d bc) [Arriving Own (Datagram data src), Turned, Turned, Taken Own (Datagram data src), Answered] s \<and>
     dev_sent s = [datagram] \<and> dev_state s = d' \<and> dev_thread s = Reading [] \<and> dev_open s = set (dev_sockets s) \<and> dev_running s"
proof -
  let ?a = "Datagram data src"
  let ?s0 = "dev_start d bc"
  let ?s1 = "?s0\<lparr>dev_queue := (dev_queue ?s0)(Own := dev_queue ?s0 Own @ [?a])\<rparr>"
  let ?s2 = "?s1\<lparr>dev_thread := Selecting\<rparr>"
  let ?s3 = "?s2\<lparr>dev_thread := Reading (ready_sockets ?s2)\<rparr>"
  let ?s4 = "keep_datagram data src Own [] (?s3\<lparr>dev_queue := (dev_queue ?s3)(Own := [])\<rparr>)"
  let ?s5 = "send_answer answer f [] ?s4"
  note start = dev_start_def Let_def
  have "dev_step answer ?s0 (Arriving Own ?a) ?s1"
    by (rule dev_step.arrive) (simp add: start)
  moreover have "dev_step answer ?s1 Turned ?s2"
    by (rule dev_step.loop) (simp_all add: start)
  moreover have "dev_step answer ?s2 Turned ?s3"
    by (rule dev_step.select) (simp_all add: start)
  moreover have "dev_step answer ?s3 (Taken Own ?a) ?s4"
    by (rule dev_step.read) (simp_all add: start)
  moreover have s4: "dev_thread ?s4 = Answering f []" "dev_state ?s4 = keep_frame False f d"
    using assms(1-3) by (simp_all add: keep_datagram_def start)
  then have "dev_step answer ?s4 Answered ?s5"
    by (intro dev_step.answer) simp
  ultimately have "dev_run answer ?s0 ((((([] @ [Arriving Own ?a]) @ [Turned]) @ [Turned]) @ [Taken Own ?a]) @ [Answered]) ?s5"
    by (intro dev_run.step) (rule dev_run.refl)
  moreover have "dev_sent ?s5 = [datagram] \<and> dev_state ?s5 = d' \<and> dev_thread ?s5 = Reading []"
    using assms(4,5) s4 by (simp add: send_answer_def bindS_def start)
  ultimately show ?thesis
    by (intro exI [of _ ?s5]) (simp add: start)
qed

section \<open>The invariant of a server in every interleaving\<close>

lemma send_answer_server_inv:
  assumes "server_inv (dev_state s)" and "\<And>e. dev_thread (send_answer (server_answer env) f rest s) \<noteq> Ended (Some e)"
  shows "server_inv (dev_state (send_answer (server_answer env) f rest s))"
proof -
  obtain r d where a: "server_answer env f (dev_state s) = (r, d)"
    by (cases "server_answer env f (dev_state s)")
  have "r = Inr x \<Longrightarrow> server_inv d" for x
    using server_answer_keeps_inv [of env f] assms(1) a unfolding keeps_inv_def by blast
  then show ?thesis
    using assms(2) a by (cases r) (auto simp: send_answer_def bindS_def split: prod.splits sum.splits option.splits if_splits)
qed

text \<open>Switching a server off line, on line or to refusing respects the invariant and is independent of the frames.\<close>

lemma server_inv_mode [simp]: "server_inv (d\<lparr>mode := m\<rparr>) = server_inv d"
  by (auto simp: server_inv_def object_inv_def stored_property_def split: option.splits)

lemma independent_mode: "independent (\<lambda>d. d\<lparr>mode := m\<rparr>)"
  by (simp add: independent_def keep_frame_def kept_frames_def)

lemma server_run_inv:
  assumes "dev_run (server_answer env) s es t" and "server_inv (dev_state s)"
    and "\<And>g d. g \<in> set (changes_made es) \<Longrightarrow> server_inv d \<Longrightarrow> server_inv (g d)"
    and "\<And>e. dev_thread t \<noteq> Ended (Some e)"
  shows "server_inv (dev_state t)"
  using assms
proof (induction rule: dev_run.induct)
  case (step s es t e u)
  have alive: "dev_thread t \<noteq> Ended (Some x)" for x
    using step.hyps(2) step.prems(3) by cases auto
  have t: "server_inv (dev_state t)"
    by (rule step.IH [OF step.prems(1) _ alive]) (use step.prems(2) in auto)
  from step.hyps(2) show ?case
  proof cases
    case (read sk rest data src q)
    then show ?thesis
      using t by (simp add: keep_datagram_def server_inv_keep_frame split: sum.split)
  next
    case (answer f rest)
    then show ?thesis
      using send_answer_server_inv [OF t] step.prems(3) by simp
  next
    case (adjust g)
    then show ?thesis
      using t step.prems(2) by simp
  qed (use t in simp_all)
qed

end
