(* ===== verification/Harness.thy ===== *)
theory Harness
  imports Endpoint Py_Text
begin

text \<open>
  The parts of the harness around the tests: polling and sampling (\<open>wiretest/wait.py\<close>), the bookkeeping of results
  (\<open>wiretest/results.py\<close>), the control channels of an example (\<open>wiretest/control.py\<close>) and the waits on its console
  (\<open>wiretest/process.py\<close>). The clock is the argument \<open>clock\<close>: what the successive calls of \<open>time.monotonic()\<close> return, in
  ticks; what the tested program does is an argument too (\<open>check\<close>, \<open>read\<close>, \<open>console\<close>). A loop that need not end is a
  \<open>partial_function\<close>: \<open>None\<close> is a loop that runs for ever, and the theorems show that it does not when sleeping advances
  the clock.
\<close>

section \<open>Waiting and sampling\<close>

text \<open>\<open>wait_until\<close>: reading 0 gives the deadline, reading \<open>k + 1\<close> follows check \<open>k\<close>. The result is the last check and how
  many came before it.\<close>

partial_function (option) wait_until_from ::
    "(nat \<Rightarrow> 'a) \<Rightarrow> ('a \<Rightarrow> bool) \<Rightarrow> (nat \<Rightarrow> int) \<Rightarrow> int \<Rightarrow> nat \<Rightarrow> ('a \<times> nat) option" where
  "wait_until_from check truthy clock deadline k =
     (if truthy (check k) \<or> clock (Suc k) \<ge> deadline then Some (check k, k)
      else wait_until_from check truthy clock deadline (Suc k))"

definition wait_until :: "(nat \<Rightarrow> 'a) \<Rightarrow> ('a \<Rightarrow> bool) \<Rightarrow> (nat \<Rightarrow> int) \<Rightarrow> int \<Rightarrow> ('a \<times> nat) option" where
  "wait_until check truthy clock seconds = wait_until_from check truthy clock (clock 0 + seconds) 0"

definition sleep_until :: "int \<Rightarrow> int \<Rightarrow> int \<Rightarrow> int option" where
  "sleep_until start seconds now = (let remaining = start + seconds - now in if remaining > 0 then Some remaining else None)"

text \<open>\<open>sample\<close>: turn \<open>k\<close> reads the clock three times, for the condition, for \<open>sent\<close> and in \<open>sleep_until\<close>. The sleeps are
  recorded beside the samples.\<close>

partial_function (option) sample_from ::
    "(nat \<Rightarrow> 'a) \<Rightarrow> (nat \<Rightarrow> int) \<Rightarrow> int \<Rightarrow> int \<Rightarrow> int \<Rightarrow> nat \<Rightarrow> ('a \<times> int option) list \<Rightarrow> ('a \<times> int option) list option" where
  "sample_from read clock start seconds interval k samples =
     (if clock (3 * k + 1) - start < seconds
      then sample_from read clock start seconds interval (Suc k)
        (samples @ [(read k, sleep_until (clock (3 * k + 2)) interval (clock (3 * k + 3)))])
      else Some samples)"

definition sample :: "(nat \<Rightarrow> 'a) \<Rightarrow> (nat \<Rightarrow> int) \<Rightarrow> int \<Rightarrow> int \<Rightarrow> 'a list option" where
  "sample read clock seconds interval =
     map_option (map fst) (sample_from read clock (clock 0) seconds interval 0 [])"

text \<open>The order of Python's floats, on their bit patterns: a NaN is not below or above anything, the zeros are equal.\<close>

definition float_magnitude :: "pyfloat \<Rightarrow> nat" where
  "float_magnitude x = unat x mod 2 ^ 63"

definition float_is_nan :: "pyfloat \<Rightarrow> bool" where
  "float_is_nan x \<longleftrightarrow> float_magnitude x > 2047 * 2 ^ 52"

definition float_rank :: "pyfloat \<Rightarrow> int" where
  "float_rank x = (if unat x < 2 ^ 63 then int (float_magnitude x) else - int (float_magnitude x))"

definition float_le :: "pyfloat \<Rightarrow> pyfloat \<Rightarrow> bool" where
  "float_le x y \<longleftrightarrow> \<not> float_is_nan x \<and> \<not> float_is_nan y \<and> float_rank x \<le> float_rank y"

fun is_float :: "py_value \<Rightarrow> bool" where
  "is_float (PyFloat x) = True"
| "is_float _ = False"

fun float_of :: "py_value \<Rightarrow> pyfloat" where
  "float_of (PyFloat x) = x"
| "float_of _ = 0"

definition monotonic :: "py_value list \<Rightarrow> bool \<Rightarrow> bool" where
  "monotonic values rising =
     (if values = [] \<or> \<not> list_all is_float values then False
      else let pairs = zip (map float_of values) (tl (map float_of values)) in
        if rising then list_all (\<lambda>(earlier, later). float_le earlier later) pairs
        else list_all (\<lambda>(earlier, later). float_le later earlier) pairs)"

section \<open>Results\<close>

record results_state =
  RESULTS :: "bool list"
  GAPS :: "string list"
  printed :: "string list"

definition result_line :: "bool \<Rightarrow> string \<Rightarrow> string \<Rightarrow> string" where
  "result_line passed name detail =
     ''['' @ (if passed then ''PASS'' else ''FAIL'') @ ''] '' @ name @ (if detail \<noteq> [] then '' - '' @ detail else [])"

definition record_result :: "string \<Rightarrow> bool \<Rightarrow> string \<Rightarrow> ('a results_state_scheme, bool) action" where
  "record_result name passed detail =
     thenS (modifyS (\<lambda>s. s\<lparr>RESULTS := RESULTS s @ [passed], printed := printed s @ [result_line passed name detail]\<rparr>))
       (returnS passed)"

definition known_gap :: "string \<Rightarrow> bool \<Rightarrow> string \<Rightarrow> ('a results_state_scheme, bool) action" where
  "known_gap name passed cause =
     thenS (modifyS (\<lambda>s.
       if passed then s\<lparr>printed := printed s @
         [''[GAP CLOSED] '' @ name @ '' - now passes; make it a checked requirement ('' @ cause @ '')'']\<rparr>
       else s\<lparr>GAPS := GAPS s @ [name], printed := printed s @ [''[KNOWN GAP] '' @ name @ '' - '' @ cause]\<rparr>))
       (returnS passed)"

text \<open>The exit code; the printed totals are the two counts and the number of gaps.\<close>

definition totals :: "'a results_state_scheme \<Rightarrow> nat \<times> nat \<times> nat" where
  "totals s = (length (filter id (RESULTS s)), length (RESULTS s), length (GAPS s))"

definition results_summary :: "'a results_state_scheme \<Rightarrow> int" where
  "results_summary s = (if RESULTS s \<noteq> [] \<and> list_all id (RESULTS s) then 0 else 1)"

section \<open>Control channels\<close>

text \<open>\<open>class SimulationControl\<close>: what its socket has received and not yet read, the commands it sent and its \<open>[RETRY]\<close>
  lines. A receive takes at most 512 octets of a datagram.\<close>

record control =
  control_retries :: nat
  queued :: "arrival list"
  commands_sent :: "bytes list"
  control_retry_lines :: nat

text \<open>\<open>str.encode("ascii")\<close> and \<open>bytes.decode("ascii", errors="replace")\<close>.\<close>

definition ascii_encode :: "pystr \<Rightarrow> bytes result" where
  "ascii_encode t = (if list_all (\<lambda>c. c < 128) t then Inr (map of_nat t) else Inl UnicodeEncodeError)"

definition ascii_decode_replace :: "bytes \<Rightarrow> pystr" where
  "ascii_decode_replace bs = map (\<lambda>b. if unat b < 128 then unat b else REPLACEMENT_CHARACTER) bs"

text \<open>\<open>_drain\<close> reads until a receive raises: the queue is empty, or it reports a \<open>ConnectionResetError\<close>, which is then used
  up. What is queued behind such an event stays.\<close>

fun drained :: "arrival list \<Rightarrow> arrival list" where
  "drained [] = []"
| "drained (Datagram d src # q) = drained q"
| "drained (ConnectionReset # q) = q"

definition drain :: "('a control_scheme, unit) action" where
  "drain = modifyS (\<lambda>c. c\<lparr>queued := drained (queued c)\<rparr>)"

text \<open>One receive of \<open>ask\<close>, with what reaches the socket before its timeout; \<open>None\<close> is a timeout or a
  \<open>ConnectionResetError\<close>, after which the loop continues.\<close>

definition receive_answer :: "arrival list \<Rightarrow> ('a control_scheme, bytes option) action" where
  "receive_answer arriving =
     bindS (getS (\<lambda>c. queued c @ arriving)) (\<lambda>q. case q of
       [] \<Rightarrow> returnS None
     | a # rest \<Rightarrow> thenS (modifyS (\<lambda>c. c\<lparr>queued := rest\<rparr>))
         (returnS (case a of Datagram d src \<Rightarrow> Some (take 512 d) | ConnectionReset \<Rightarrow> None)))"

fun ask_from :: "pystr \<Rightarrow> (nat \<Rightarrow> arrival list) \<Rightarrow> nat \<Rightarrow> nat \<Rightarrow> ('a control_scheme, pystr option) action" where
  "ask_from command arriving k 0 = returnS None"
| "ask_from command arriving k (Suc n) =
     thenS (modifyS (\<lambda>c. if k \<noteq> 0 then c\<lparr>control_retry_lines := control_retry_lines c + 1\<rparr> else c))
     (bindS (liftS (ascii_encode command)) (\<lambda>octets.
      thenS (modifyS (\<lambda>c. c\<lparr>commands_sent := commands_sent c @ [octets]\<rparr>))
      (bindS (receive_answer (arriving k)) (\<lambda>answer.
       case answer of None \<Rightarrow> ask_from command arriving (Suc k) n | Some d \<Rightarrow> returnS (Some (ascii_decode_replace d))))))"

definition ask :: "pystr \<Rightarrow> (nat \<Rightarrow> arrival list) \<Rightarrow> ('a control_scheme, pystr option) action" where
  "ask command arriving =
     thenS drain (bindS (getS control_retries) (\<lambda>n. ask_from command arriving 0 (1 + n)))"

abbreviation error_text :: pystr where
  "error_text \<equiv> [101, 114, 114, 111, 114]"

definition control_send :: "pystr \<Rightarrow> (nat \<Rightarrow> arrival list) \<Rightarrow> ('a control_scheme, pystr) action" where
  "control_send command arriving =
     bindS (ask command arriving) (\<lambda>reply. case reply of
       None \<Rightarrow> liftS (Inl RuntimeError)
     | Some t \<Rightarrow> if take 5 t = error_text then liftS (Inl RuntimeError) else returnS t)"

text \<open>\<open>class CommandFile\<close>. The state is the files of the machine; \<open>pick\<close> is the name \<open>NamedTemporaryFile\<close> chooses, of a file
  that does not exist. \<open>open(..., "a")\<close> creates a missing file, and does so before the command is encoded.\<close>

type_synonym files = "string \<rightharpoonup> bytes"

definition CommandFile :: "(files \<Rightarrow> string) \<Rightarrow> (files, string) action" where
  "CommandFile pick = bindS (getS pick) (\<lambda>path. thenS (modifyS (\<lambda>fs. fs(path \<mapsto> []))) (returnS path))"

definition file_content :: "string \<Rightarrow> files \<Rightarrow> bytes" where
  "file_content path fs = (case fs path of None \<Rightarrow> [] | Some content \<Rightarrow> content)"

definition command_file_send :: "string \<Rightarrow> pystr \<Rightarrow> (files, unit) action" where
  "command_file_send path command =
     thenS (modifyS (\<lambda>fs. fs(path \<mapsto> file_content path fs)))
       (bindS (liftS (ascii_encode (command @ [10]))) (\<lambda>octets. modifyS (\<lambda>fs. fs(path \<mapsto> file_content path fs @ octets))))"

definition command_file_close :: "string \<Rightarrow> (files, unit) action" where
  "command_file_close path = modifyS (\<lambda>fs. fs(path := None))"

section \<open>The console of an example\<close>

text \<open>\<open>str.find(text, after)\<close>: the first occurrence at or after an index.\<close>

definition find_text :: "string \<Rightarrow> string \<Rightarrow> nat \<Rightarrow> nat option" where
  "find_text s t after = find (\<lambda>p. take (length t) (drop p s) = t) [after..<Suc (length s)]"

text \<open>\<open>wait_for_output\<close>: turn \<open>k\<close> reads the clock, the console and whether the program still runs; an example that has
  exited has its console read once more.\<close>

definition contains_text :: "string \<Rightarrow> string \<Rightarrow> bool" where
  "contains_text s t \<longleftrightarrow> find_text s t 0 \<noteq> None"

partial_function (option) wait_for_output_from ::
    "string \<Rightarrow> (nat \<Rightarrow> string) \<Rightarrow> (nat \<Rightarrow> string) \<Rightarrow> (nat \<Rightarrow> int) \<Rightarrow> (nat \<Rightarrow> bool) \<Rightarrow> int \<Rightarrow> nat \<Rightarrow> bool option" where
  "wait_for_output_from t console last_console clock exited deadline k =
     (if clock (Suc k) < deadline
      then if contains_text (console k) t then Some True
        else if exited k then Some (contains_text (last_console k) t)
        else wait_for_output_from t console last_console clock exited deadline (Suc k)
      else Some False)"

definition wait_for_output ::
    "string \<Rightarrow> (nat \<Rightarrow> string) \<Rightarrow> (nat \<Rightarrow> string) \<Rightarrow> (nat \<Rightarrow> int) \<Rightarrow> (nat \<Rightarrow> bool) \<Rightarrow> int \<Rightarrow> bool option" where
  "wait_for_output t console last_console clock exited seconds =
     wait_for_output_from t console last_console clock exited (clock 0 + seconds) 0"

text \<open>\<open>wait_for_text\<close>: turn \<open>k\<close> reads the console, then the clock and whether the program still runs.\<close>

partial_function (option) wait_for_text_from ::
    "string \<Rightarrow> nat \<Rightarrow> (nat \<Rightarrow> string) \<Rightarrow> (nat \<Rightarrow> int) \<Rightarrow> (nat \<Rightarrow> bool) \<Rightarrow> int \<Rightarrow> nat \<Rightarrow> nat option option" where
  "wait_for_text_from t after console clock exited deadline k =
     (case find_text (console k) t after of
        Some found \<Rightarrow> Some (Some (found + length t))
      | None \<Rightarrow>
          if clock (Suc k) \<ge> deadline \<or> exited k then Some None
          else wait_for_text_from t after console clock exited deadline (Suc k))"

definition wait_for_text :: "string \<Rightarrow> nat \<Rightarrow> (nat \<Rightarrow> string) \<Rightarrow> (nat \<Rightarrow> int) \<Rightarrow> (nat \<Rightarrow> bool) \<Rightarrow> int \<Rightarrow> nat option option" where
  "wait_for_text t after console clock exited seconds =
     wait_for_text_from t after console clock exited (clock 0 + seconds) 0"

end
