(* ===== verification/Address.thy ===== *)
theory Address
  imports Codec_Frame
begin

text \<open>
  \<open>mac\<close> of \<open>codec.py\<close>: a 6-octet B/IP address from the text of an IPv4 address and a port. \<open>socket.inet_aton\<close> reads
  the numbers-and-dots notation: one to four numbers, decimal, octal (a leading 0) or hexadecimal (a leading 0x), of which
  the last fills the octets that are left, and whatever follows a white space is ignored. It raises \<open>OSError\<close> on any other
  text. The laws: it reads back what \<open>inet_ntoa\<close> writes, so \<open>mac\<close> and \<open>mac_text\<close> are inverse to each other.
\<close>

section \<open>Reading numbers\<close>

definition is_digit :: "char \<Rightarrow> bool" where
  "is_digit c \<longleftrightarrow> 48 \<le> (of_char c :: nat) \<and> of_char c \<le> (57 :: nat)"

definition digit_of :: "char \<Rightarrow> nat" where
  "digit_of c =
     (let code = of_char c in
      if is_digit c then code - 48
      else if 97 \<le> code \<and> code \<le> 102 then code - 87
      else if 65 \<le> code \<and> code \<le> 70 then code - 55
      else 36)"

fun read_digits :: "nat \<Rightarrow> nat \<Rightarrow> string \<Rightarrow> nat \<times> string" where
  "read_digits base acc [] = (acc, [])"
| "read_digits base acc (c # s) = (if digit_of c < base then read_digits base (acc * base + digit_of c) s else (acc, c # s))"

text \<open>\<open>strtoul\<close> with base 0: a prefix 0x counts only when a hexadecimal digit follows it.\<close>

definition read_number :: "string \<Rightarrow> (nat \<times> string) option" where
  "read_number s =
     (case s of
        [] \<Rightarrow> None
      | c # rest \<Rightarrow>
          if \<not> is_digit c then None
          else if c = CHR ''0'' \<and> take 1 rest \<in> {''x'', ''X''} \<and> drop 1 rest \<noteq> [] \<and> digit_of (rest ! 1) < 16
          then Some (read_digits 16 0 (drop 1 rest))
          else if c = CHR ''0'' then Some (read_digits 8 0 s)
          else Some (read_digits 10 0 s))"

section \<open>Numbers and dots\<close>

definition is_space :: "char \<Rightarrow> bool" where
  "is_space c \<longleftrightarrow> of_char c \<in> {9, 10, 11, 12, 13, 32 :: nat}"

text \<open>The numbers before the last are octets; \<open>room\<close> is how many octets the last one has to fill.\<close>

fun aton_from :: "nat \<Rightarrow> bytes \<Rightarrow> string \<Rightarrow> bytes option" where
  "aton_from room octets s =
     (case read_number s of
        None \<Rightarrow> None
      | Some (v, rest) \<Rightarrow>
          if rest \<noteq> [] \<and> hd rest = CHR ''.''
          then if room \<le> 1 \<or> v > 255 then None
               else aton_from (room - 1) (octets @ [of_nat v]) (tl rest)
          else if (rest = [] \<or> is_space (hd rest)) \<and> v < 256 ^ room
               then Some (octets @ be_octets room (int v)) else None)"

declare aton_from.simps [simp del]

definition inet_aton :: "string \<Rightarrow> bytes result" where
  "inet_aton s =
     (if CHR 0x00 \<in> set s then Inl ValueError
      else case aton_from 4 [] s of None \<Rightarrow> Inl OSError | Some octets \<Rightarrow> Inr octets)"

definition mac :: "string \<Rightarrow> int \<Rightarrow> bytes result" where
  "mac ip port = bindR (inet_aton ip) (\<lambda>octets. bindR (pack_be 2 port) (\<lambda>p. Inr (octets @ p)))"

section \<open>What \<open>inet_ntoa\<close> writes\<close>

lemma of_char_digit: "n < 10 \<Longrightarrow> of_char (char_of (48 + n) :: char) = (48 + n :: nat)"
  by simp

lemma digit_char: "n < 10 \<Longrightarrow> is_digit (char_of (48 + n)) \<and> digit_of (char_of (48 + n)) = n"
  unfolding digit_of_def is_digit_def Let_def of_char_digit by simp

lemma decimal_nonempty [simp]: "decimal n \<noteq> []"
  by (subst decimal.simps) simp

lemma decimal_digits: "\<forall>c \<in> set (decimal n). is_digit c"
proof (induction n rule: decimal.induct)
  case (1 n)
  then show ?case
    using digit_char [of n] digit_char [of "n mod 10"] by (subst decimal.simps) auto
qed

lemma read_decimal: "read_digits 10 acc (decimal n @ rest) = read_digits 10 (acc * 10 ^ length (decimal n) + n) rest"
proof (induction n arbitrary: acc rest rule: decimal.induct)
  case (1 n)
  show ?case
  proof (cases "n < 10")
    case True
    then show ?thesis
      using digit_char [of n] by (simp add: decimal.simps [of n])
  next
    case False
    then have "read_digits 10 acc (decimal n @ rest) =
        read_digits 10 (acc * 10 ^ length (decimal (n div 10)) + n div 10) (char_of (48 + n mod 10) # rest)"
      using 1 by (simp add: decimal.simps [of n])
    then show ?thesis
      using digit_char [of "n mod 10"] False by (simp add: decimal.simps [of n] algebra_simps)
  qed
qed

lemma decimal_hd: "0 < n \<Longrightarrow> hd (decimal n) \<noteq> CHR ''0''"
proof (induction n rule: decimal.induct)
  case (1 n)
  show ?case
  proof (cases "n < 10")
    case True
    then have "of_char (char_of (48 + n) :: char) \<noteq> (of_char (CHR ''0'') :: nat)"
      using "1.prems" by simp
    then have "char_of (48 + n) \<noteq> CHR ''0''"
      by metis
    then show ?thesis
      using True by (simp add: decimal.simps [of n])
  next
    case False
    then show ?thesis
      using 1 by (simp add: decimal.simps [of n])
  qed
qed

lemma read_number_decimal:
  assumes "rest = [] \<or> hd rest = CHR ''.''"
  shows "read_number (decimal n @ rest) = Some (n, rest)"
proof -
  have stop: "read_digits base acc rest = (acc, rest)" if "base \<le> 16" for base acc
    using assms that by (cases rest) (auto simp: digit_of_def is_digit_def)
  show ?thesis
  proof (cases "n = 0")
    case True
    have "char_of (48 :: nat) = CHR ''0''"
      by code_simp
    then have "decimal n = ''0''"
      using True by (simp add: decimal.simps [of 0])
    then show ?thesis
      using assms stop True by (cases rest) (auto simp: read_number_def is_digit_def digit_of_def)
  next
    case False
    obtain c s where c: "decimal n = c # s"
      by (cases "decimal n") auto
    then have "is_digit c" and "c \<noteq> CHR ''0''"
      using decimal_digits [of n] decimal_hd [of n] False by auto
    then have "read_number (decimal n @ rest) = Some (read_digits 10 0 (decimal n @ rest))"
      using c by (simp add: read_number_def)
    then show ?thesis
      using read_decimal [of 0 n rest] stop by simp
  qed
qed

lemma aton_octet:
  assumes "1 < room"
  shows "aton_from room octets (decimal (unat (b :: octet)) @ ''.'' @ s) = aton_from (room - 1) (octets @ [b]) s"
  using assms unat_octet_bound [of b] by (subst aton_from.simps) (simp add: read_number_decimal)

lemma aton_last: "aton_from 1 octets (decimal (unat (b :: octet))) = Some (octets @ [b])"
  using unat_octet_bound [of b] read_number_decimal [of "[]" "unat b"] by (subst aton_from.simps) simp

lemma inet_aton_ntoa:
  assumes "length octets = 4"
  shows "inet_aton (inet_ntoa octets) = Inr octets"
proof -
  obtain a b c d where o: "octets = [a, b, c, d]"
    using assms by (auto simp: numeral_eq_Suc length_Suc_conv)
  have "CHR 0x00 \<notin> set (decimal n)" for n
    using decimal_digits [of n] by (force simp: is_digit_def)
  then have "CHR 0x00 \<notin> set (inet_ntoa octets)"
    by (simp add: inet_ntoa_def)
  moreover have "aton_from 4 [] (inet_ntoa octets) = Some octets"
    using aton_octet [of 4 "[]" a] aton_octet [of 3 "[a]" b] aton_octet [of 2 "[a, b]" c] aton_last [of "[a, b, c]" d]
    by (simp add: o inet_ntoa_def)
  ultimately show ?thesis
    by (simp add: inet_aton_def)
qed

text \<open>\<open>mac_text\<close> writes the address and the port that \<open>mac\<close> was given.\<close>

lemma mac_text_mac:
  assumes "length octets = 4" and "0 \<le> port" and "port < 65536"
  shows "bindR (mac (inet_ntoa octets) port) (\<lambda>m. Inr (mac_text m)) = Inr (inet_ntoa octets @ '':'' @ decimal (nat port))"
proof -
  have "mac (inet_ntoa octets) port = Inr (octets @ be_octets 2 port)"
    using assms by (simp add: mac_def inet_aton_ntoa pack_be_def)
  moreover have "int_from_bytes (be_octets 2 port) = port"
    using assms by (intro int_from_be_octets) simp_all
  ultimately show ?thesis
    using assms(1) by (simp add: mac_text_def)
qed

end
