(* ===== verification/Console.thy ===== *)
theory Console
  imports Harness Address "HOL-Library.Sublist"
begin

text \<open>
  The console and the heartbeats of an example (\<open>wiretest/process.py\<close>): the two regular expressions over its \<open>TX\<close> lines,
  \<open>broadcast_address\<close>, and class \<open>IAmBroadcasts\<close>, which counts a device's I-Am broadcasts on the wire and in the console. A
  regular expression is a function from the text at a position to the groups and the text behind the match. In both
  expressions a repetition is followed by a character it does not match, so the greedy run is the only one that can
  succeed, except for \<open>[^\<close>newline\<open>]*I-Am\<close>, which ends at the last \<open>I-Am\<close> of the line.
\<close>

section \<open>Matching\<close>

type_synonym 'a matcher = "string \<Rightarrow> ('a \<times> string) option"

definition literal :: "string \<Rightarrow> unit matcher" where
  "literal w s = (if take (length w) s = w then Some ((), drop (length w) s) else None)"

text \<open>A character class repeated at least once, and the group it captures.\<close>

definition run_of :: "(char \<Rightarrow> bool) \<Rightarrow> string matcher" where
  "run_of P s = (if takeWhile P s = [] then None else Some (takeWhile P s, dropWhile P s))"

definition seqM :: "'a matcher \<Rightarrow> ('a \<Rightarrow> 'b matcher) \<Rightarrow> 'b matcher" where
  "seqM m f s = (case m s of None \<Rightarrow> None | Some (x, rest) \<Rightarrow> f x rest)"

definition returnM :: "'a \<Rightarrow> 'a matcher" where
  "returnM x s = Some (x, s)"

definition newline :: char where
  "newline = CHR 0x0A"

text \<open>\<open>[^\<close>newline\<open>]*\<close> followed by a text: the last occurrence in the line.\<close>

fun last_in_line :: "string \<Rightarrow> unit matcher" where
  "last_in_line w [] = literal w []"
| "last_in_line w (c # s) =
     (if c = newline then literal w (c # s)
      else case last_in_line w s of Some r \<Rightarrow> Some r | None \<Rightarrow> literal w (c # s))"

text \<open>\<open>re.finditer\<close>: from the left, each search starts where the last match ended. A match is never empty here.\<close>

function finditer :: "'a matcher \<Rightarrow> string \<Rightarrow> 'a list" where
  "finditer m [] = []"
| "finditer m (c # s) =
     (case m (c # s) of
        None \<Rightarrow> finditer m s
      | Some (x, rest) \<Rightarrow> x # finditer m (if length rest \<le> length s then rest else s))"
  by pat_completeness auto
termination
  by (relation "measure (\<lambda>(m, s). length s)") auto

section \<open>The TX lines\<close>

definition dotted :: "string matcher" where
  "dotted = seqM (run_of is_digit) (\<lambda>a. seqM (literal ''.'') (\<lambda>_. seqM (run_of is_digit) (\<lambda>b. seqM (literal ''.'') (\<lambda>_.
     seqM (run_of is_digit) (\<lambda>c. seqM (literal ''.'') (\<lambda>_. seqM (run_of is_digit) (\<lambda>d.
     returnM (a @ ''.'' @ b @ ''.'' @ c @ ''.'' @ d))))))))"

definition tx_bytes :: "unit matcher" where
  "tx_bytes = seqM (literal ''TX '') (\<lambda>_. seqM (run_of is_digit) (\<lambda>_. literal '' bytes to ''))"

definition TX_BROADCAST :: "(string \<times> string) matcher" where
  "TX_BROADCAST = seqM tx_bytes (\<lambda>_. seqM dotted (\<lambda>ip. seqM (literal '':'') (\<lambda>_. seqM (run_of is_digit) (\<lambda>port.
     seqM (literal '' (broadcast)'') (\<lambda>_. returnM (ip, port))))))"

definition decimal_value :: "string \<Rightarrow> int" where
  "decimal_value s = foldl (\<lambda>n c. 10 * n + int (digit_of c)) 0 s"

definition broadcast_address :: "string \<Rightarrow> int \<Rightarrow> string option" where
  "broadcast_address console port =
     map_option fst (find (\<lambda>(ip, digits). decimal_value digits = port) (finditer TX_BROADCAST console))"

definition console_line :: "nat \<Rightarrow> unit matcher" where
  "console_line port = seqM tx_bytes (\<lambda>_. seqM (run_of (\<lambda>c. is_digit c \<or> c = CHR ''.'')) (\<lambda>_.
     seqM (literal ('':'' @ decimal port @ '' (broadcast)'')) (\<lambda>_. last_in_line ''I-Am'')))"

section \<open>Counting I-Am broadcasts\<close>

record i_am_broadcasts =
  iam_port :: nat
  iam_instance :: int
  iam_listener :: "endpoint option"
  console_offset :: nat

text \<open>\<open>mark\<close> reads the console and clears the listener, which first collects what is queued.\<close>

definition iam_mark :: "string \<Rightarrow> arrival list \<Rightarrow> (i_am_broadcasts, unit) action" where
  "iam_mark console arrivals b =
     (let b = b\<lparr>console_offset := length console\<rparr> in
      case iam_listener b of
        None \<Rightarrow> (Inr (), b)
      | Some e \<Rightarrow> (case clear arrivals e of (r, e') \<Rightarrow> (r, b\<lparr>iam_listener := Some e'\<rparr>)))"

text \<open>\<open>sum(1 for frame in ... if i_am_device_instance(frame.payload) == ...)\<close>.\<close>

fun count_i_am :: "int \<Rightarrow> frame list \<Rightarrow> nat result" where
  "count_i_am inst [] = Inr 0"
| "count_i_am inst (f # fs) =
     bindR (i_am_device_instance (payload f)) (\<lambda>i. bindR (count_i_am inst fs) (\<lambda>n. Inr (if i = Some inst then n + 1 else n)))"

definition iam_counts :: "string \<Rightarrow> arrival list \<Rightarrow> (i_am_broadcasts, nat option \<times> nat) action" where
  "iam_counts console arrivals b =
     (let in_console = length (finditer (console_line (iam_port b)) (drop (console_offset b) console)) in
      case iam_listener b of
        None \<Rightarrow> (Inr (None, in_console), b)
      | Some e \<Rightarrow> (case collect arrivals e of (r, e') \<Rightarrow>
          (bindR r (\<lambda>fs. bindR (count_i_am (iam_instance b) fs) (\<lambda>wire. Inr (Some wire, in_console))), b\<lparr>iam_listener := Some e'\<rparr>)))"

definition iam_watch :: "string \<Rightarrow> arrival list \<Rightarrow> string \<Rightarrow> arrival list \<Rightarrow> (i_am_broadcasts, nat option \<times> nat) action" where
  "iam_watch before queued_before later arriving =
     thenS (iam_mark before queued_before) (iam_counts later arriving)"

definition IAmBroadcasts :: "string \<Rightarrow> nat \<Rightarrow> int \<Rightarrow> bool \<Rightarrow> arrival list \<Rightarrow> i_am_broadcasts result \<times> i_am_broadcasts" where
  "IAmBroadcasts console port inst windows arrivals =
     (let listener = (if \<not> windows \<and> broadcast_address console (int port) \<noteq> None
                      then Some Endpoint else None);
          b = \<lparr>iam_port = port, iam_instance = inst, iam_listener = listener, console_offset = 0\<rparr> in
      bindS (iam_mark console arrivals) (\<lambda>_. getS id) b)"

end
