(* ===== verification/Console_Laws.thy ===== *)
theory Console_Laws
  imports Console
begin

text \<open>
  Counting matches is counting lines: a match of \<open>console_line\<close> stays within one line and reaches to the last \<open>I-Am\<close> of it,
  so every line has at most one. The locale \<open>line_matcher\<close> states that of a matcher; its lemmas turn \<open>finditer\<close> into a filter
  on lines.
\<close>

section \<open>Matchers that stay in a line\<close>

text \<open>A matcher that does not look past a newline, and one that leaves a suffix of the text.\<close>

definition in_line :: "'a matcher \<Rightarrow> bool" where
  "in_line m \<longleftrightarrow> (\<forall>xs ys. newline \<notin> set xs \<longrightarrow>
     m (xs @ newline # ys) = map_option (\<lambda>(x, rest). (x, rest @ newline # ys)) (m xs))"

definition leaves_suffix :: "'a matcher \<Rightarrow> bool" where
  "leaves_suffix m \<longleftrightarrow> (\<forall>s x rest. m s = Some (x, rest) \<longrightarrow> suffix rest s)"

named_theorems matcher_rules \<open>matchers that stay in a line and leave a suffix\<close>

lemma in_lineD:
  "in_line m \<Longrightarrow> newline \<notin> set xs \<Longrightarrow> m (xs @ newline # ys) = map_option (\<lambda>(x, rest). (x, rest @ newline # ys)) (m xs)"
  by (simp add: in_line_def)

lemma leaves_suffixD: "leaves_suffix m \<Longrightarrow> m s = Some (x, rest) \<Longrightarrow> suffix rest s"
  by (simp add: leaves_suffix_def)

lemma suffix_no_newline: "suffix rest s \<Longrightarrow> newline \<notin> set s \<Longrightarrow> newline \<notin> set rest"
  using set_mono_suffix by fastforce

lemma literal_in_line [matcher_rules]: "newline \<notin> set w \<Longrightarrow> in_line (literal w)"
proof -
  assume w: "newline \<notin> set w"
  have "take (length w) (xs @ newline # ys) = w \<longleftrightarrow> take (length w) xs = w" for xs ys
  proof (cases "length w \<le> length xs")
    case False
    then have "newline \<in> set (take (length w) (xs @ newline # ys))"
      by (cases "length w - length xs") auto
    moreover have "length (take (length w) xs) \<noteq> length w"
      using False by simp
    ultimately show ?thesis
      using w by metis
  qed simp
  moreover have "length w \<le> length xs" if "take (length w) xs = w" for xs :: string
    using arg_cong [OF that, of length] by simp
  ultimately show ?thesis
    by (auto simp: in_line_def literal_def)
qed

lemma literal_suffix [matcher_rules]: "leaves_suffix (literal w)"
  by (auto simp: leaves_suffix_def literal_def suffix_drop split: if_splits)

lemma run_of_in_line [matcher_rules]: "\<not> P newline \<Longrightarrow> in_line (run_of P)"
  by (auto simp: in_line_def run_of_def takeWhile_append dropWhile_append takeWhile_eq_all_conv [THEN iffD2])

lemma run_of_suffix [matcher_rules]: "leaves_suffix (run_of P)"
  by (auto simp: leaves_suffix_def run_of_def suffix_dropWhile split: if_splits)

lemma seqM_in_line [matcher_rules]:
  "in_line m \<Longrightarrow> leaves_suffix m \<Longrightarrow> (\<And>x. in_line (f x)) \<Longrightarrow> in_line (seqM m f)"
  unfolding in_line_def [of "seqM m f"] seqM_def
  by (auto simp: in_lineD split: option.split) (metis in_lineD leaves_suffixD suffix_no_newline)

lemma seqM_suffix [matcher_rules]:
  "leaves_suffix m \<Longrightarrow> (\<And>x. leaves_suffix (f x)) \<Longrightarrow> leaves_suffix (seqM m f)"
  unfolding leaves_suffix_def [of "seqM m f"] seqM_def
  by (auto dest!: leaves_suffixD intro: suffix_order.order_trans split: option.splits)

lemma last_in_line_in_line [matcher_rules]:
  assumes "newline \<notin> set w"
  shows "in_line (last_in_line w)"
proof -
  have "last_in_line w (xs @ newline # ys) = map_option (\<lambda>(x, rest). (x, rest @ newline # ys)) (last_in_line w xs)"
    if "newline \<notin> set xs" for xs ys
    using that
  proof (induction xs)
    case Nil
    then show ?case
      using in_lineD [OF literal_in_line [OF assms], of "[]" ys] by simp
  next
    case (Cons c xs)
    then show ?case
      using in_lineD [OF literal_in_line [OF assms], of "c # xs" ys] by (auto split: option.split)
  qed
  then show ?thesis
    by (simp add: in_line_def)
qed

lemma last_in_line_suffix [matcher_rules]: "leaves_suffix (last_in_line w)"
proof -
  have "suffix rest s" if "last_in_line w s = Some (x, rest)" for s x rest
    using that
  proof (induction s)
    case (Cons c s)
    then show ?case
      using leaves_suffixD [OF literal_suffix, of w "c # s"] by (auto intro: suffix_ConsI split: if_splits option.splits)
  qed (auto dest: leaves_suffixD [OF literal_suffix])
  then show ?thesis
    by (simp add: leaves_suffix_def)
qed

section \<open>Counting lines\<close>

function lines_of :: "string \<Rightarrow> string list" where
  "lines_of s =
     (if newline \<in> set s then takeWhile (\<lambda>c. c \<noteq> newline) s # lines_of (tl (dropWhile (\<lambda>c. c \<noteq> newline) s)) else [s])"
  by pat_completeness auto
termination
  by (relation "measure length") (auto simp: length_dropWhile_le less_le_trans [OF diff_less] dest: length_pos_if_in_set)

declare lines_of.simps [simp del]

definition line_matches :: "'a matcher \<Rightarrow> string \<Rightarrow> bool" where
  "line_matches m line \<longleftrightarrow> list_ex (\<lambda>t. m t \<noteq> None) (suffixes line)"

lemma line_matches_iff: "line_matches m line \<longleftrightarrow> (\<exists>t. suffix t line \<and> m t \<noteq> None)"
  by (simp add: line_matches_def list_ex_iff Bex_def del: not_None_eq)

lemma lines_of_line [simp]: "newline \<notin> set xs \<Longrightarrow> lines_of xs = [xs]"
  by (simp add: lines_of.simps)

lemma lines_of_break [simp]: "newline \<notin> set xs \<Longrightarrow> lines_of (xs @ newline # ys) = xs # lines_of ys"
  by (subst lines_of.simps) (auto simp: takeWhile_append dropWhile_append takeWhile_eq_all_conv [THEN iffD2])

lemma lines_induct [case_names line break]:
  assumes "\<And>xs. newline \<notin> set xs \<Longrightarrow> P xs" and "\<And>xs ys. newline \<notin> set xs \<Longrightarrow> P ys \<Longrightarrow> P (xs @ newline # ys)"
  shows "P s"
proof (induction s rule: measure_induct_rule [of length])
  case (less s)
  show ?case
  proof (cases "newline \<in> set s")
    case True
    then obtain xs ys where "s = xs @ newline # ys" "newline \<notin> set xs"
      by (metis split_list_first)
    then show ?thesis
      using assms(2) less [of ys] by simp
  qed (rule assms(1))
qed

locale line_matcher =
  fixes m :: "'a matcher"
  assumes stays: "in_line m"
    and leaves: "leaves_suffix m"
    and consumes: "m s = Some (x, rest) \<Longrightarrow> rest \<noteq> s"
    and once: "newline \<notin> set s \<Longrightarrow> m s = Some (x, rest) \<Longrightarrow> suffix t rest \<Longrightarrow> m t = None"
begin

lemma shorter: "m s = Some (x, rest) \<Longrightarrow> length rest < length s"
  using leaves_suffixD [OF leaves, of s x rest] consumes [of s x rest] by (auto simp: suffix_def)

lemma no_match_empty [simp]: "m [] = None"
  using shorter [of "[]"] by (cases "m []") auto

lemma finditer_none: "(\<And>t. suffix t s \<Longrightarrow> m t = None) \<Longrightarrow> finditer m s = []"
proof (induction s)
  case (Cons c s)
  have "m (c # s) = None"
    by (rule Cons.prems) simp
  moreover have "finditer m s = []"
    by (rule Cons.IH) (simp add: Cons.prems suffix_ConsI)
  ultimately show ?case
    by simp
qed simp

lemma finditer_line: "newline \<notin> set xs \<Longrightarrow> length (finditer m xs) = (if line_matches m xs then 1 else 0)"
proof (induction xs)
  case Nil
  show ?case
    by (simp add: line_matches_iff)
next
  case (Cons c xs)
  show ?case
  proof (cases "m (c # xs)")
    case None
    then have "line_matches m (c # xs) \<longleftrightarrow> line_matches m xs"
      by (auto simp: line_matches_iff suffix_Cons)
    then show ?thesis
      using None Cons by simp
  next
    case (Some r)
    obtain x rest where r: "r = (x, rest)"
      by (cases r)
    have "finditer m rest = []"
      using once [OF Cons.prems] Some r by (intro finditer_none) blast
    moreover have "line_matches m (c # xs)"
      using Some by (auto simp: line_matches_iff)
    moreover have "length rest \<le> length xs"
      using shorter [of "c # xs" x rest] Some r by simp
    ultimately show ?thesis
      using Some r by simp
  qed
qed

lemma finditer_break: "newline \<notin> set xs \<Longrightarrow> finditer m (xs @ newline # ys) = finditer m xs @ finditer m ys"
proof (induction xs rule: measure_induct_rule [of length])
  case (less xs)
  show ?case
  proof (cases xs)
    case Nil
    then show ?thesis
      using in_lineD [OF stays, of "[]" ys] by simp
  next
    case (Cons c zs)
    note step = in_lineD [OF stays less.prems, of ys]
    show ?thesis
    proof (cases "m xs")
      case None
      then show ?thesis
        using step less Cons by simp
    next
      case (Some r)
      obtain x rest where r: "r = (x, rest)"
        by (cases r)
      then have "length rest < length xs" and "newline \<notin> set rest"
        using shorter Some suffix_no_newline [OF leaves_suffixD [OF leaves]] less.prems by blast+
      then show ?thesis
        using step less.IH [of rest] Some r Cons by simp
    qed
  qed
qed

theorem finditer_counts_lines: "length (finditer m s) = length (filter (line_matches m) (lines_of s))"
  by (induction s rule: lines_induct) (simp_all add: finditer_line finditer_break)

end

section \<open>The lines that announce an I-Am\<close>

definition consumes_some :: "'a matcher \<Rightarrow> bool" where
  "consumes_some m \<longleftrightarrow> (\<forall>s x rest. m s = Some (x, rest) \<longrightarrow> length rest < length s)"

lemma literal_consumes [matcher_rules]: "w \<noteq> [] \<Longrightarrow> consumes_some (literal w)"
  by (auto simp: consumes_some_def literal_def split: if_splits) (metis diff_less length_greater_0_conv take_Nil)

lemma seqM_consumes [matcher_rules]: "consumes_some m \<Longrightarrow> (\<And>x. leaves_suffix (f x)) \<Longrightarrow> consumes_some (seqM m f)"
  unfolding consumes_some_def seqM_def
  by (auto split: option.splits) (metis leaves_suffixD suffix_length_le le_less_trans)

lemma seqM_Some: "seqM m f s = Some r \<Longrightarrow> \<exists>x rest. m s = Some (x, rest) \<and> f x rest = Some r"
  by (auto simp: seqM_def split: option.splits)

lemma last_in_line_None:
  "last_in_line w s = None \<Longrightarrow> newline \<notin> set s \<Longrightarrow> suffix t s \<Longrightarrow> literal w t = None"
  by (induction s) (auto simp: suffix_Cons split: option.splits)

lemma last_in_line_occurs: "last_in_line w s = Some r \<Longrightarrow> \<exists>t. suffix t s \<and> literal w t \<noteq> None"
proof (induction s)
  case (Cons c s)
  show ?case
  proof (cases "literal w (c # s)")
    case None
    then obtain t where "suffix t s" "literal w t \<noteq> None"
      using Cons by (auto split: if_splits option.splits)
    then show ?thesis
      by (blast intro: suffix_ConsI)
  next
    case (Some r)
    then show ?thesis
      by (intro exI [of _ "c # s"]) simp
  qed
qed (auto simp: literal_def split: if_splits)

lemma last_in_line_last:
  assumes "last_in_line w s = Some (x, rest)" and "newline \<notin> set s" and "w \<noteq> []" and "suffix t rest"
  shows "literal w t = None"
  using assms(1,2)
proof (induction s)
  case Nil
  then show ?case
    using assms(3) by (simp add: literal_def)
next
  case (Cons c s)
  show ?case
  proof (cases "last_in_line w s")
    case None
    then have "rest = drop (length w) (c # s)"
      using Cons.prems by (auto simp: literal_def split: if_splits)
    then have "suffix rest s"
      using assms(3) by (cases w) (simp_all add: suffix_drop)
    then show ?thesis
      using last_in_line_None [OF None] Cons.prems(2) assms(4) suffix_order.order_trans by auto
  next
    case (Some r)
    then show ?thesis
      using Cons by (simp split: if_splits)
  qed
qed

lemma decimal_no_newline: "newline \<notin> set (decimal n)"
  using decimal_digits [of n] by (force simp: is_digit_def newline_def)

interpretation cl: line_matcher "console_line port" for port
proof
  note texts = newline_def is_digit_def decimal_no_newline [unfolded newline_def]
  show "in_line (console_line port)"
    unfolding console_line_def tx_bytes_def by (intro matcher_rules; simp add: texts)
  show "leaves_suffix (console_line port)"
    unfolding console_line_def tx_bytes_def by (intro matcher_rules)
  have shrink: "consumes_some (console_line port)"
    unfolding console_line_def tx_bytes_def by (intro matcher_rules; simp)
  then show "rest \<noteq> s" if "console_line port s = Some (x, rest)" for s x rest
    using that by (auto simp: consumes_some_def)
  have announces: "\<exists>u. suffix u s \<and> last_in_line ''I-Am'' u = Some r" if "console_line port s = Some r" for s r
  proof -
    have "leaves_suffix tx_bytes"
      unfolding tx_bytes_def by (intro matcher_rules)
    then show ?thesis
      using that unfolding console_line_def
      by (auto dest!: seqM_Some leaves_suffixD [OF literal_suffix] leaves_suffixD [OF run_of_suffix]
          leaves_suffixD [of tx_bytes]) (meson suffix_order.order_trans)
  qed
  show "console_line port t = None" if line: "newline \<notin> set s" and match: "console_line port s = Some (x, rest)"
      and t: "suffix t rest" for s x rest t
  proof (rule ccontr)
    assume "console_line port t \<noteq> None"
    then obtain u v where u: "suffix u t" "last_in_line ''I-Am'' u = Some v"
      using announces by blast
    obtain q where q: "suffix q s" "last_in_line ''I-Am'' q = Some (x, rest)"
      using announces [OF match] by blast
    obtain y where y: "suffix y u" "literal ''I-Am'' y \<noteq> None"
      using last_in_line_occurs [OF u(2)] by blast
    have "suffix y rest"
      using y(1) u(1) t suffix_order.order_trans by blast
    then show False
      using last_in_line_last [OF q(2) suffix_no_newline [OF q(1) line]] y(2) by simp
  qed
qed

section \<open>Watching the heartbeats\<close>

lemma collect_decoded:
  "decoded arrivals = Inr fs \<Longrightarrow> collect arrivals e = (Inr (frames e @ fs), e\<lparr>frames := frames e @ fs\<rparr>)"
  by (induction arrivals arbitrary: fs e rule: decoded.induct) (auto simp: receive_def bindS_def bindR_Inr_iff)

text \<open>\<open>watch\<close>: what was printed or received before it does not count, and every line that announces an I-Am counts once.\<close>

lemma iam_watch_counts:
  assumes "decoded queued_before = Inr gs" and "decoded arriving = Inr fs" and "count_i_am (iam_instance b) fs = Inr n"
  shows "fst (iam_watch before queued_before (before @ later) arriving b) =
     Inr (map_option (\<lambda>_. n) (iam_listener b),
       length (filter (line_matches (console_line (iam_port b))) (lines_of later)))"
  using assms
  by (auto simp: iam_watch_def iam_mark_def iam_counts_def Let_def bindS_def clear_def collect_decoded
      cl.finditer_counts_lines split: option.split)

end
