(* ===== verification/Harness_Laws.thy ===== *)
theory Harness_Laws
  imports Harness
begin

text \<open>
  Laws of the helpers around the tests. The polling loops are one shape, the locale \<open>polling\<close>: a turn either ends the
  loop or sleeps and goes on. It is interpreted on \<open>wait_until\<close>, \<open>sample\<close>, \<open>wait_for_text\<close> and \<open>wait_for_output\<close>; that
  they return at all rests on the clock, which sleeping advances.
\<close>

section \<open>Polling\<close>

locale polling =
  fixes loop :: "'s \<Rightarrow> 'r option" and stop :: "'s \<Rightarrow> bool" and advance :: "'s \<Rightarrow> 's" and outcome :: "'s \<Rightarrow> 'r"
  assumes loop_turn: "loop s = (if stop s then Some (outcome s) else loop (advance s))"
begin

lemma loop_ends:
  "stop ((advance ^^ m) s) \<Longrightarrow>
     \<exists>n \<le> m. loop s = Some (outcome ((advance ^^ n) s)) \<and> stop ((advance ^^ n) s) \<and> (\<forall>j < n. \<not> stop ((advance ^^ j) s))"
proof (induction m arbitrary: s)
  case 0
  then show ?case
    by (simp add: loop_turn)
next
  case (Suc m)
  show ?case
  proof (cases "stop s")
    case True
    then show ?thesis
      by (intro exI [of _ 0]) (simp add: loop_turn)
  next
    case False
    have "stop ((advance ^^ m) (advance s))"
      using Suc.prems by (simp add: funpow_swap1)
    from Suc.IH [OF this] obtain n where n: "n \<le> m" "loop (advance s) = Some (outcome ((advance ^^ n) (advance s)))"
        "stop ((advance ^^ n) (advance s))" "\<forall>j < n. \<not> stop ((advance ^^ j) (advance s))"
      by blast
    have "\<not> stop ((advance ^^ j) s)" if "j < Suc n" for j
      using that n(4) False by (cases j) (simp_all add: funpow_swap1)
    then show ?thesis
      using n False by (intro exI [of _ "Suc n"]) (simp add: loop_turn [of s] funpow_swap1)
  qed
qed

end

lemma funpow_Suc_eq [simp]: "(Suc ^^ n) k = k + n"
  by (induction n) simp_all

interpretation wu: polling "wait_until_from check truthy clock deadline"
    "\<lambda>k. truthy (check k) \<or> clock (Suc k) \<ge> deadline" Suc "\<lambda>k. (check k, k)" for check truthy clock deadline
  by unfold_locales (rule wait_until_from.simps)

interpretation sm: polling "\<lambda>(k, samples). sample_from read clock start seconds interval k samples"
    "\<lambda>(k, samples). \<not> clock (3 * k + 1) - start < seconds"
    "\<lambda>(k, samples). (Suc k, samples @ [(read k, sleep_until (clock (3 * k + 2)) interval (clock (3 * k + 3)))])"
    snd for read clock start seconds interval
  by unfold_locales (auto simp: sample_from.simps split: prod.splits)

interpretation wt: polling "wait_for_text_from t after console clock exited deadline"
    "\<lambda>k. find_text (console k) t after \<noteq> None \<or> clock (Suc k) \<ge> deadline \<or> exited k" Suc
    "\<lambda>k. map_option (\<lambda>found. found + length t) (find_text (console k) t after)" for t after console clock exited deadline
  by unfold_locales (subst wait_for_text_from.simps, auto split: option.split)

interpretation wo: polling "wait_for_output_from t console last_console clock exited deadline"
    "\<lambda>k. \<not> clock (Suc k) < deadline \<or> contains_text (console k) t \<or> exited k" Suc
    "\<lambda>k. clock (Suc k) < deadline \<and> (contains_text (console k) t \<or> contains_text (last_console k) t)"
    for t console last_console clock exited deadline
  by unfold_locales (subst wait_for_output_from.simps, auto)

text \<open>How many turns a wait can take: as many intervals as fit in its seconds, rounded up.\<close>

definition turns :: "int \<Rightarrow> int \<Rightarrow> nat" where
  "turns seconds interval = nat ((seconds + interval - 1) div interval)"

lemma turns_cover: "0 < interval \<Longrightarrow> seconds \<le> int (turns seconds interval) * interval"
proof -
  assume pos: "0 < interval"
  have "seconds + interval - 1 = (seconds + interval - 1) div interval * interval + (seconds + interval - 1) mod interval"
    by simp
  moreover have "(seconds + interval - 1) mod interval < interval"
    using pos by simp
  ultimately have "seconds \<le> (seconds + interval - 1) div interval * interval"
    by linarith
  also have "\<dots> \<le> int (turns seconds interval) * interval"
    using pos by (intro mult_right_mono) (auto simp: turns_def)
  finally show ?thesis .
qed

text \<open>A clock that every turn advances by at least the interval.\<close>

lemma ticks: "(\<And>k. reading k + interval \<le> reading (Suc k)) \<Longrightarrow> reading 0 + int k * interval \<le> (reading k :: int)"
proof (induction k)
  case (Suc k)
  have "reading 0 + int k * interval \<le> reading k"
    by (rule Suc.IH) (rule Suc.prems)
  then show ?case
    using Suc.prems [of k] by (simp add: distrib_right)
qed simp

lemma deadline_reached:
  assumes "0 < interval" and "\<And>k. reading k + interval \<le> reading (Suc k)" and "start \<le> reading 0"
  shows "start + seconds \<le> (reading (turns seconds interval) :: int)"
  using ticks [of reading interval "turns seconds interval", OF assms(2)] turns_cover [OF assms(1), of seconds] assms(3)
  by linarith

lemma wait_until_ends:
  assumes "0 < interval" and "clock 0 \<le> clock 1" and "\<And>k. clock (Suc k) + interval \<le> clock (Suc (Suc k))"
  shows "\<exists>n \<le> turns seconds interval. wait_until check truthy clock seconds = Some (check n, n) \<and>
     (truthy (check n) \<or> clock 0 + seconds \<le> clock (Suc n)) \<and>
     (\<forall>j < n. \<not> truthy (check j) \<and> clock (Suc j) < clock 0 + seconds)"
proof -
  have "clock 0 + seconds \<le> clock (Suc (turns seconds interval))"
    using deadline_reached [of interval "\<lambda>k. clock (Suc k)", OF assms(1,3)] assms(2) by simp
  then show ?thesis
    using wu.loop_ends [where truthy = truthy and check = check and clock = clock and deadline = "clock 0 + seconds"
        and m = "turns seconds interval" and s = 0]
    by (auto simp: wait_until_def not_le)
qed

lemma sample_steps:
  "((\<lambda>(k, samples). (Suc k, samples @ [(read k, g k)])) ^^ n) (0, []) = (n, map (\<lambda>k. (read k, g k)) [0..<n])"
  by (induction n) simp_all

text \<open>\<open>sleep_until\<close> sleeps up to the interval since \<open>sent\<close>, so the next turn is at least one interval later.\<close>

lemma sleep_until_reaches:
  "now + (case sleep_until start seconds now of Some r \<Rightarrow> r | None \<Rightarrow> 0) \<ge> start + seconds"
  by (simp add: sleep_until_def Let_def)

lemma sample_ends:
  assumes "0 < interval" and "clock 0 \<le> clock 1" and "\<And>k. clock (3 * k + 1) \<le> clock (3 * k + 2)"
    and "\<And>k. clock (3 * k + 3) +
       (case sleep_until (clock (3 * k + 2)) interval (clock (3 * k + 3)) of Some r \<Rightarrow> r | None \<Rightarrow> 0) \<le> clock (3 * Suc k + 1)"
  shows "\<exists>n \<le> turns seconds interval. sample read clock seconds interval = Some (map read [0..<n]) \<and>
     clock 0 + seconds \<le> clock (3 * n + 1) \<and> (\<forall>j < n. clock (3 * j + 1) < clock 0 + seconds)"
proof -
  let ?reading = "\<lambda>k. clock (3 * k + 1)"
  have "?reading k + interval \<le> ?reading (Suc k)" for k
    using assms(3) [of k] assms(4) [of k] sleep_until_reaches [of "clock (3 * k + 2)" interval "clock (3 * k + 3)"]
    by linarith
  then have "clock 0 + seconds \<le> ?reading (turns seconds interval)"
    by (rule deadline_reached [OF assms(1)]) (use assms(2) in simp)
  then obtain n where n: "n \<le> turns seconds interval"
      "sample_from read clock (clock 0) seconds interval 0 [] =
         Some (map (\<lambda>k. (read k, sleep_until (clock (3 * k + 2)) interval (clock (3 * k + 3)))) [0..<n])"
      "\<not> clock (3 * n + 1) - clock 0 < seconds" "\<forall>j < n. clock (3 * j + 1) - clock 0 < seconds"
    using sm.loop_ends [where m = "turns seconds interval" and s = "(0, [])" and read = read and clock = clock
        and start = "clock 0" and seconds = seconds and interval = interval]
    by (auto simp: sample_steps)
  then show ?thesis
    by (intro exI [of _ n]) (auto simp: sample_def comp_def)
qed

section \<open>Finding text\<close>

lemma find_text_Some:
  assumes "find_text s t after = Some p"
  shows "after \<le> p" and "p + length t \<le> length s" and "take (length t) (drop p s) = t"
    and "after \<le> q \<Longrightarrow> q < p \<Longrightarrow> take (length t) (drop q s) \<noteq> t"
proof -
  obtain i where i: "i < length [after..<Suc (length s)]" "take (length t) (drop ([after..<Suc (length s)] ! i) s) = t"
      "p = [after..<Suc (length s)] ! i" "\<forall>j < i. take (length t) (drop ([after..<Suc (length s)] ! j) s) \<noteq> t"
    using assms unfolding find_text_def find_Some_iff by blast
  then have p: "p = after + i" "after + i \<le> length s"
    by (simp_all del: upt.simps)
  then show "after \<le> p"
    by simp
  show at_p: "take (length t) (drop p s) = t"
    using i(2,3) by simp
  have "min (length t) (length s - p) = length t"
    using arg_cong [OF at_p, of length] by simp
  then show "p + length t \<le> length s"
    using p by linarith
  show "take (length t) (drop q s) \<noteq> t" if "after \<le> q" "q < p"
    using i(4) [rule_format, of "q - after"] that p by (simp del: upt.simps)
qed

lemma find_text_None:
  "find_text s t after = None \<Longrightarrow> after \<le> q \<Longrightarrow> q \<le> length s \<Longrightarrow> take (length t) (drop q s) \<noteq> t"
  by (auto simp: find_text_def find_None_iff)

text \<open>A wait for text returns, and what it returns is the offset just past the first occurrence at or after \<open>after\<close> in
  the console it read last, or nothing when there is none.\<close>

lemma wait_for_text_ends:
  assumes "0 < interval" and "clock 0 \<le> clock 1" and "\<And>k. clock (Suc k) + interval \<le> clock (Suc (Suc k))"
  shows "\<exists>n \<le> turns seconds interval.
     wait_for_text t after console clock exited seconds =
       Some (map_option (\<lambda>found. found + length t) (find_text (console n) t after)) \<and>
     (find_text (console n) t after = None \<longrightarrow> exited n \<or> clock 0 + seconds \<le> clock (Suc n)) \<and>
     (\<forall>j < n. find_text (console j) t after = None)"
proof -
  have "clock 0 + seconds \<le> clock (Suc (turns seconds interval))"
    using deadline_reached [of interval "\<lambda>k. clock (Suc k)", OF assms(1,3)] assms(2) by simp
  then show ?thesis
    using wt.loop_ends [where t = t and after = after and console = console and clock = clock and exited = exited
        and deadline = "clock 0 + seconds" and m = "turns seconds interval" and s = 0]
    by (auto simp: wait_for_text_def)
qed

lemma wait_for_output_ends:
  assumes "0 < interval" and "clock 0 \<le> clock 1" and "\<And>k. clock (Suc k) + interval \<le> clock (Suc (Suc k))"
  shows "\<exists>n \<le> turns seconds interval.
     wait_for_output t console last_console clock exited seconds =
       Some (clock (Suc n) < clock 0 + seconds \<and> (contains_text (console n) t \<or> contains_text (last_console n) t)) \<and>
     (clock 0 + seconds \<le> clock (Suc n) \<or> contains_text (console n) t \<or> exited n) \<and>
     (\<forall>j < n. \<not> contains_text (console j) t \<and> \<not> exited j)"
proof -
  have "clock 0 + seconds \<le> clock (Suc (turns seconds interval))"
    using deadline_reached [of interval "\<lambda>k. clock (Suc k)", OF assms(1,3)] assms(2) by simp
  then show ?thesis
    using wo.loop_ends [where t = t and console = console and last_console = last_console and clock = clock
        and exited = exited and deadline = "clock 0 + seconds" and m = "turns seconds interval" and s = 0]
    by (auto simp: wait_for_output_def not_less)
qed

section \<open>Monotonic samples\<close>

lemma float_le_trans: "transp float_le"
  by (auto simp: transp_def float_le_def)

lemma list_all_neighbours: "list_all (\<lambda>(x, y). P x y) (zip xs (tl xs)) \<longleftrightarrow> (\<forall>i. Suc i < length xs \<longrightarrow> P (xs ! i) (xs ! Suc i))"
  by (auto simp: list_all_length nth_tl less_diff_conv)

text \<open>Comparing neighbours orders every pair of samples, because the order is transitive.\<close>

lemma monotonic_sorted:
  "monotonic values rising \<longleftrightarrow> values \<noteq> [] \<and> list_all is_float values \<and>
     sorted_wrt (if rising then float_le else (\<lambda>x y. float_le y x)) (map float_of values)"
proof -
  have "transp (\<lambda>x y. float_le y x)"
    using float_le_trans by (auto simp: transp_def)
  then show ?thesis
    using float_le_trans
    by (auto simp: monotonic_def Let_def list_all_neighbours sorted_wrt_iff_nth_Suc_transp)
qed

section \<open>Results\<close>

text \<open>A test is a sequence of calls of \<open>record\<close> and \<open>known_gap\<close>.\<close>

datatype results_call = Record string bool string | Known_Gap string bool string

fun results_run :: "results_call list \<Rightarrow> ('a results_state_scheme, unit) action" where
  "results_run [] = returnS ()"
| "results_run (Record name passed detail # calls) = bindS (record_result name passed detail) (\<lambda>_. results_run calls)"
| "results_run (Known_Gap name passed cause # calls) = bindS (known_gap name passed cause) (\<lambda>_. results_run calls)"

fun recorded :: "results_call list \<Rightarrow> bool list" where
  "recorded [] = []"
| "recorded (Record name passed detail # calls) = passed # recorded calls"
| "recorded (Known_Gap name passed cause # calls) = recorded calls"

fun open_gaps :: "results_call list \<Rightarrow> string list" where
  "open_gaps [] = []"
| "open_gaps (Record name passed detail # calls) = open_gaps calls"
| "open_gaps (Known_Gap name passed cause # calls) = (if passed then open_gaps calls else name # open_gaps calls)"

lemma results_run_spec:
  "\<exists>t. results_run calls s = (Inr (), t) \<and> RESULTS t = RESULTS s @ recorded calls \<and> GAPS t = GAPS s @ open_gaps calls \<and>
     length (printed t) = length (printed s) + length calls"
proof (induction calls arbitrary: s)
  case (Cons call calls)
  show ?case
  proof (cases call)
    case (Record name passed detail)
    let ?s = "s\<lparr>RESULTS := RESULTS s @ [passed], printed := printed s @ [result_line passed name detail]\<rparr>"
    show ?thesis
      using Cons.IH [of ?s] Record by (auto simp: record_result_def bindS_def)
  next
    case (Known_Gap name passed cause)
    obtain s' where "known_gap name passed cause s = (Inr passed, s')" "RESULTS s' = RESULTS s"
        "GAPS s' = GAPS s @ (if passed then [] else [name])" "length (printed s') = Suc (length (printed s))"
      by (simp add: known_gap_def)
    then show ?thesis
      using Cons.IH [of s'] Known_Gap by (auto simp: bindS_def)
  qed
qed simp

section \<open>Asking the simulation\<close>

text \<open>The texts of the datagrams among some arrivals.\<close>

fun heard :: "arrival list \<Rightarrow> pystr set" where
  "heard [] = {}"
| "heard (Datagram d src # q) = insert (ascii_decode_replace (take 512 d)) (heard q)"
| "heard (ConnectionReset # q) = heard q"

lemma heard_append [simp]: "heard (p @ q) = heard p \<union> heard q"
  by (induction p rule: heard.induct) auto

lemma heard_Cons: "heard q \<subseteq> heard (a # q)"
  by (cases a) auto

lemma drained_all: "ConnectionReset \<notin> set q \<Longrightarrow> drained q = []"
  by (induction q rule: drained.induct) auto

text \<open>One receive: a datagram ends the attempts, anything else leaves no more to hear than before.\<close>

lemma receive_answer_cases:
  obtains d q where "receive_answer arriving c = (Inr (Some d), c\<lparr>queued := q\<rparr>)"
      "ascii_decode_replace d \<in> heard (queued c) \<union> heard arriving"
  | q where "receive_answer arriving c = (Inr None, c\<lparr>queued := q\<rparr>)" "heard q \<subseteq> heard (queued c) \<union> heard arriving"
proof (cases "queued c @ arriving")
  case Nil
  then show thesis
    using that(2) [of "[]"] by (simp add: receive_answer_def)
next
  case (Cons a rest)
  then have rest: "heard (a # rest) = heard (queued c) \<union> heard arriving"
    by (metis heard_append)
  show thesis
  proof (cases a)
    case (Datagram d src)
    then show ?thesis
      using that(1) [of "take 512 d" rest] Cons rest by (auto simp: receive_answer_def)
  next
    case ConnectionReset
    then show ?thesis
      using that(2) [of rest] Cons rest by (auto simp: receive_answer_def)
  qed
qed

text \<open>A run of the attempts: how often the command is sent and where the answer comes from.\<close>

lemma ask_from_spec:
  assumes "ascii_encode command = Inr octets"
  shows "\<exists>m r t. ask_from command arriving k n c = (Inr r, t) \<and> m \<le> n \<and> (0 < n \<longrightarrow> 0 < m) \<and>
     commands_sent t = commands_sent c @ replicate m octets \<and>
     control_retry_lines t = control_retry_lines c + (if k = 0 then m - 1 else m) \<and> (r = None \<longrightarrow> m = n) \<and>
     set_option r \<subseteq> heard (queued c) \<union> (\<Union>j < m. heard (arriving (k + j)))"
proof (induction n arbitrary: k c)
  case 0
  show ?case
    by simp
next
  case (Suc n)
  let ?c1 = "(if k \<noteq> 0 then c\<lparr>control_retry_lines := control_retry_lines c + 1\<rparr> else c)\<lparr>commands_sent := commands_sent c @ [octets]\<rparr>"
  have turn: "ask_from command arriving k (Suc n) c = bindS (receive_answer (arriving k)) (\<lambda>answer.
       case answer of None \<Rightarrow> ask_from command arriving (Suc k) n | Some d \<Rightarrow> returnS (Some (ascii_decode_replace d))) ?c1"
    using assms by (auto simp: bindS_lift)
  have c1: "queued ?c1 = queued c" "commands_sent ?c1 = commands_sent c @ [octets]"
      "control_retry_lines ?c1 = control_retry_lines c + (if k = 0 then 0 else 1)"
    by simp_all
  show ?case
  proof (cases rule: receive_answer_cases [of "arriving k" ?c1])
    case (1 d q)
    then show ?thesis
      unfolding turn using c1
      by (intro exI [of _ 1] exI [of _ "Some (ascii_decode_replace d)"] exI [of _ "?c1\<lparr>queued := q\<rparr>"]) (auto simp: bindS_def)
  next
    case (2 q)
    obtain m r t where ih: "ask_from command arriving (Suc k) n (?c1\<lparr>queued := q\<rparr>) = (Inr r, t)" "m \<le> n"
        "commands_sent t = (commands_sent c @ [octets]) @ replicate m octets" "r = None \<longrightarrow> m = n"
        "control_retry_lines t = control_retry_lines c + (if k = 0 then 0 else 1) + m"
        "set_option r \<subseteq> heard q \<union> (\<Union>j < m. heard (arriving (Suc k + j)))"
      using Suc.IH [of "Suc k" "?c1\<lparr>queued := q\<rparr>"] c1 by auto
    have "(\<Union>j < Suc m. heard (arriving (k + j))) = heard (arriving k) \<union> (\<Union>j < m. heard (arriving (Suc k + j)))"
      by (simp only: lessThan_Suc_eq_insert_0) auto
    then have "set_option r \<subseteq> heard (queued c) \<union> (\<Union>j < Suc m. heard (arriving (k + j)))"
      using ih(6) 2(2) c1(1) by auto
    then show ?thesis
      unfolding turn using 2(1) ih(1-5)
      by (intro exI [of _ "Suc m"] exI [of _ r] exI [of _ t]) (auto simp: bindS_def)
  qed
qed

text \<open>\<open>ask\<close>: when no reset is queued, the answer is one that arrived after the command was first sent.\<close>

lemma ask_spec:
  assumes "ascii_encode command = Inr octets"
  shows "\<exists>m r t. ask command arriving c = (Inr r, t) \<and> 0 < m \<and> m \<le> 1 + control_retries c \<and>
     commands_sent t = commands_sent c @ replicate m octets \<and>
     control_retry_lines t = control_retry_lines c + (m - 1) \<and> (r = None \<longrightarrow> m = 1 + control_retries c) \<and>
     set_option r \<subseteq> heard (drained (queued c)) \<union> (\<Union>j < m. heard (arriving j))"
  using ask_from_spec [OF assms, of arriving 0 "1 + control_retries c" "c\<lparr>queued := drained (queued c)\<rparr>"]
  by (auto simp: ask_def drain_def)

lemma ask_not_ascii: "ascii_encode command = Inl e \<Longrightarrow> ask command arriving c = (Inl e, c\<lparr>queued := drained (queued c)\<rparr>)"
  by (simp add: ask_def drain_def bindS_def)

text \<open>Behind a queued reset, the answer to an earlier command is taken for the answer to this one.\<close>

lemma drain_stops_at_a_reset:
  "ascii_encode command = Inr octets \<Longrightarrow> queued c = ConnectionReset # Datagram late src # q \<Longrightarrow>
     fst (ask command arriving c) = Inr (Some (ascii_decode_replace (take 512 late)))"
  by (simp add: ask_def drain_def receive_answer_def bindS_def)

lemma control_send_result:
  "fst (control_send command arriving c) =
     (case fst (ask command arriving c) of
        Inl e \<Rightarrow> Inl e
      | Inr None \<Rightarrow> Inl RuntimeError
      | Inr (Some t) \<Rightarrow> if take 5 t = error_text then Inl RuntimeError else Inr t)"
  by (auto simp: control_send_def bindS_def split: prod.split sum.split option.split)

end
