(* ===== verification/Process.thy ===== *)
theory Process
  imports Harness_Laws
begin

text \<open>
  Starting and stopping an example (\<open>class Program\<close>, \<open>start\<close> and \<open>default_exe\<close> of \<open>wiretest/process.py\<close>). What the operating
  system and the example do are arguments: which programs can be started, whether the pipe to the child takes what is
  written, whether the child exits in the time \<open>stop\<close> gives it. A child that is killed has exited when \<open>wait()\<close> returns.
\<close>

section \<open>The program\<close>

datatype child = Running | Exited

datatype argument = TextArgument string | NumberArgument nat

record program =
  program_label :: string
  command_line :: "string list"
  variables :: "string \<rightharpoonup> string"
  keyboard :: bytes
  child_process :: child
  was_killed :: bool

record child_behaviour =
  pipe_takes :: "bytes \<Rightarrow> bytes \<Rightarrow> bool"
  exits_in_time :: "bytes \<Rightarrow> bool"

fun str_argument :: "argument \<Rightarrow> string" where
  "str_argument (TextArgument t) = t"
| "str_argument (NumberArgument n) = decimal n"

text \<open>The constructor: \<open>dict(os.environ, **...)\<close> lets the extra variables win; \<open>Popen\<close> raises when the program cannot be
  started.\<close>

definition Program ::
    "(string \<Rightarrow> string) \<Rightarrow> (string list \<Rightarrow> bool) \<Rightarrow> (string \<rightharpoonup> string) \<Rightarrow> string \<Rightarrow> argument list \<Rightarrow> string \<Rightarrow>
     (string \<times> argument) list \<Rightarrow> program result" where
  "Program resolve starts environ exe arguments label extra =
     (let argv = resolve exe # map str_argument arguments in
      if starts argv
      then Inr \<lparr>program_label = label, command_line = argv,
                variables = foldl (\<lambda>vs (name, value). vs(name \<mapsto> str_argument value)) environ extra,
                keyboard = [], child_process = Running, was_killed = False\<rparr>
      else Inl OSError)"

text \<open>Writing to the pipe and flushing it, waiting for the child, killing it.\<close>

definition write_keys :: "child_behaviour \<Rightarrow> bytes \<Rightarrow> (program, unit) action" where
  "write_keys os octets =
     bindS (getS keyboard) (\<lambda>before.
       if pipe_takes os before octets then modifyS (\<lambda>p. p\<lparr>keyboard := before @ octets\<rparr>) else liftS (Inl OSError))"

definition wait_exit :: "child_behaviour \<Rightarrow> (program, unit) action" where
  "wait_exit os =
     bindS (getS keyboard) (\<lambda>keys.
       if exits_in_time os keys then modifyS (\<lambda>p. p\<lparr>child_process := Exited\<rparr>) else liftS (Inl TimeoutExpired))"

definition kill_child :: "(program, unit) action" where
  "kill_child = modifyS (\<lambda>p. p\<lparr>child_process := Exited, was_killed := True\<rparr>)"

definition press :: "child_behaviour \<Rightarrow> pystr \<Rightarrow> (program, unit) action" where
  "press os keys = bindS (liftS (ascii_encode keys)) (write_keys os)"

definition stop :: "child_behaviour \<Rightarrow> (program, unit) action" where
  "stop os p =
     (if child_process p = Exited then (Inr (), p)
      else case thenS (write_keys os [0x71]) (wait_exit os) p of
             (Inl e, p') \<Rightarrow> if e = OSError \<or> e = TimeoutExpired then kill_child p' else (Inl e, p')
           | (Inr _, p') \<Rightarrow> (Inr (), p'))"

text \<open>\<open>output\<close>: the log is opened as text, so the platform's encoding is decoded (the argument \<open>decode\<close>) and line ends become one
  character. \<open>keep_log\<close> prints where the log is.\<close>

fun universal_newlines :: "string \<Rightarrow> string" where
  "universal_newlines [] = []"
| "universal_newlines (c # s) =
     (if c = CHR 0x0D then CHR 0x0A # (case s of [] \<Rightarrow> [] | d # s' \<Rightarrow> universal_newlines (if d = CHR 0x0A then s' else s))
      else c # universal_newlines s)"

definition program_output :: "(bytes \<Rightarrow> string) \<Rightarrow> bytes \<Rightarrow> string" where
  "program_output decode log = universal_newlines (decode log)"

definition keep_log :: "program \<Rightarrow> string \<Rightarrow> string" where
  "keep_log p log_name = ''      ('' @ program_label p @ '' console: '' @ log_name @ '')''"

lemma universal_newlines_no_return: "CHR 0x0D \<notin> set (universal_newlines s)"
  by (induction s rule: universal_newlines.induct) (auto split: list.split)

lemma universal_newlines_plain: "CHR 0x0D \<notin> set s \<Longrightarrow> universal_newlines s = s"
  by (induction s rule: universal_newlines.induct) auto

abbreviation ready_text :: string where
  "ready_text \<equiv> ''ready''"

definition wait_ready :: "(nat \<Rightarrow> string) \<Rightarrow> (nat \<Rightarrow> string) \<Rightarrow> (nat \<Rightarrow> int) \<Rightarrow> (nat \<Rightarrow> bool) \<Rightarrow> int \<Rightarrow> bool option" where
  "wait_ready console last_console clock exited seconds = wait_for_output ready_text console last_console clock exited seconds"

text \<open>\<open>start\<close>: the result, what is printed, and the program that was started. \<open>final\<close> is the console when the wait has ended,
  \<open>gone\<close> whether the child has exited by then.\<close>

definition start ::
    "program result \<Rightarrow> child_behaviour \<Rightarrow> (nat \<Rightarrow> string) \<Rightarrow> (nat \<Rightarrow> string) \<Rightarrow> (nat \<Rightarrow> int) \<Rightarrow> (nat \<Rightarrow> bool) \<Rightarrow> int \<Rightarrow> string \<Rightarrow> bool \<Rightarrow>
     (program result \<times> string list \<times> program option) option" where
  "start created os console last_console clock exited seconds final gone =
     (case created of
        Inl e \<Rightarrow> Some (Inl e, [], None)
      | Inr p \<Rightarrow> (case wait_ready console last_console clock exited seconds of
          None \<Rightarrow> None
        | Some is_ready \<Rightarrow>
            let p = (if gone then p\<lparr>child_process := Exited\<rparr> else p) in
            if is_ready then Some (Inr p, [], Some p)
            else (case stop os p of (r, p') \<Rightarrow> Some (bindR r (\<lambda>_. Inl SystemExit), [final], Some p'))))"

text \<open>A path is the list of its components.\<close>

definition default_exe :: "(string list \<Rightarrow> bool) \<Rightarrow> string list \<Rightarrow> string \<Rightarrow> string list" where
  "default_exe exists repository name =
     (case find exists [repository @ [''build'', name], repository @ [''build'', ''Release'', name @ ''.exe''],
                        repository @ [''build'', name @ ''.exe'']] of
        Some candidate \<Rightarrow> candidate
      | None \<Rightarrow> repository @ [''build'', name])"

section \<open>Stopping\<close>

lemma stop_running:
  assumes "child_process p = Running"
  shows "stop os p =
    (Inr (), if pipe_takes os (keyboard p) [0x71] then
       p\<lparr>keyboard := keyboard p @ [0x71], child_process := Exited,
         was_killed := was_killed p \<or> \<not> exits_in_time os (keyboard p @ [0x71])\<rparr>
     else p\<lparr>child_process := Exited, was_killed := True\<rparr>)"
  using assms
  by (simp add: stop_def write_keys_def wait_exit_def kill_child_def bindS_def)

lemma stop_exited: "child_process p = Exited \<Longrightarrow> stop os p = (Inr (), p)"
  by (simp add: stop_def)

lemma stop_ends:
  "\<exists>p'. stop os p = (Inr (), p') \<and> child_process p' = Exited \<and> stop os' p' = (Inr (), p')"
  by (cases "child_process p") (simp_all add: stop_running stop_exited)

text \<open>Keys reach the child in the order they were pressed, and only those the pipe took.\<close>

lemma press_result:
  "press os keys p =
     (case ascii_encode keys of
        Inl e \<Rightarrow> (Inl e, p)
      | Inr octets \<Rightarrow> if pipe_takes os (keyboard p) octets then (Inr (), p\<lparr>keyboard := keyboard p @ octets\<rparr>) else (Inl OSError, p))"
  by (simp add: press_def write_keys_def bindS_def split: sum.split)

section \<open>Starting\<close>

text \<open>Whether turn \<open>n\<close> of the wait found the text: the deadline had not come, and the console had it.\<close>

definition found_ready :: "(nat \<Rightarrow> string) \<Rightarrow> (nat \<Rightarrow> string) \<Rightarrow> (nat \<Rightarrow> int) \<Rightarrow> int \<Rightarrow> nat \<Rightarrow> bool" where
  "found_ready console last_console clock seconds n \<longleftrightarrow>
     clock (Suc n) < clock 0 + seconds \<and> (contains_text (console n) ready_text \<or> contains_text (last_console n) ready_text)"

lemma start_not_created: "start (Inl e) os console last_console clock exited seconds final gone = Some (Inl e, [], None)"
  by (simp add: start_def)

lemma start_created:
  fixes p gone
  defines "q \<equiv> if gone then p\<lparr>child_process := Exited\<rparr> else p"
  assumes "0 < interval" and "clock 0 \<le> clock 1" and "\<And>k. clock (Suc k) + interval \<le> clock (Suc (Suc k))"
  shows "\<exists>n \<le> turns seconds interval.
     start (Inr p) os console last_console clock exited seconds final gone =
       Some (if found_ready console last_console clock seconds n then (Inr q, [], Some q)
             else (Inl SystemExit, [final], Some (snd (stop os q)))) \<and>
     (\<forall>j < n. \<not> contains_text (console j) ready_text \<and> \<not> exited j)"
proof -
  obtain n where n: "n \<le> turns seconds interval"
      "wait_for_output ready_text console last_console clock exited seconds = Some (found_ready console last_console clock seconds n)"
      "\<forall>j < n. \<not> contains_text (console j) ready_text \<and> \<not> exited j"
    using wait_for_output_ends [OF assms(2-4), of seconds ready_text console last_console exited]
    unfolding found_ready_def by blast
  moreover obtain q' where "stop os q = (Inr (), q')"
    using stop_ends by blast
  ultimately show ?thesis
    by (intro exI [of _ n]) (simp add: start_def wait_ready_def Let_def flip: q_def)
qed

text \<open>The executable found exists whenever one of the three places has it; the single-configuration build is preferred.\<close>

lemma default_exe_exists:
  "exists (repository @ [''build'', name]) \<or> exists (repository @ [''build'', ''Release'', name @ ''.exe'']) \<or>
     exists (repository @ [''build'', name @ ''.exe'']) \<longleftrightarrow> exists (default_exe exists repository name)"
  "exists (repository @ [''build'', name]) \<Longrightarrow> default_exe exists repository name = repository @ [''build'', name]"
  by (auto simp: default_exe_def)

section \<open>The command file\<close>

definition command_lines :: "pystr list \<Rightarrow> bytes" where
  "command_lines commands = concat (map (\<lambda>command. map of_nat command @ [10]) commands)"

text \<open>Commands sent one after the other; the first that raises ends the test.\<close>

fun send_commands :: "string \<Rightarrow> pystr list \<Rightarrow> (files, unit) action" where
  "send_commands path [] = returnS ()"
| "send_commands path (command # commands) = thenS (command_file_send path command) (send_commands path commands)"

lemma command_file_send_result:
  "command_file_send path command fs =
     (if list_all (\<lambda>c. c < 128) command then (Inr (), fs(path \<mapsto> file_content path fs @ map of_nat command @ [10]))
      else (Inl UnicodeEncodeError, fs(path \<mapsto> file_content path fs)))"
  by (simp add: command_file_send_def bindS_def ascii_encode_def file_content_def)

lemma send_commands_result:
  "list_all (list_all (\<lambda>c. c < 128)) commands \<Longrightarrow>
     \<exists>fs'. send_commands path commands fs = (Inr (), fs') \<and> file_content path fs' = file_content path fs @ command_lines commands \<and>
       (\<forall>other. other \<noteq> path \<longrightarrow> fs' other = fs other)"
proof (induction commands arbitrary: fs)
  case Nil
  show ?case
    by (simp add: command_lines_def)
next
  case (Cons c cs)
  let ?fs = "fs(path \<mapsto> file_content path fs @ map of_nat c @ [10])"
  obtain fs' where "send_commands path cs ?fs = (Inr (), fs')" "file_content path fs' = file_content path ?fs @ command_lines cs"
      "\<forall>other. other \<noteq> path \<longrightarrow> fs' other = ?fs other"
    using Cons.IH [of ?fs] Cons.prems by (auto simp del: fun_upd_apply)
  moreover have "command_file_send path c fs = (Inr (), ?fs)"
    using Cons.prems by (simp add: command_file_send_result)
  ultimately show ?case
    by (auto simp: bindS_def command_lines_def file_content_def)
qed

text \<open>What an example reads: the lines of the file, each a command.\<close>

fun read_lines :: "bytes \<Rightarrow> bytes \<Rightarrow> bytes list" where
  "read_lines line [] = []"
| "read_lines line (b # bs) = (if b = 10 then line # read_lines [] bs else read_lines (line @ [b]) bs)"

lemma read_lines_line: "10 \<notin> set bs \<Longrightarrow> read_lines line (bs @ 10 # rest) = (line @ bs) # read_lines [] rest"
  by (induction bs arbitrary: line) auto

lemma of_nat_no_newline: "list_all (\<lambda>c. c < 128) command \<Longrightarrow> 10 \<notin> set command \<Longrightarrow> (10 :: 8 word) \<notin> of_nat ` set command"
proof
  assume ascii: "list_all (\<lambda>c. c < 128) command" and no: "10 \<notin> set command" and "(10 :: 8 word) \<in> of_nat ` set command"
  then obtain c where c: "c \<in> set command" "(of_nat c :: 8 word) = 10"
    by auto
  then have "unat (of_nat c :: 8 word) = 10"
    by simp
  moreover have "c < 128"
    using ascii c(1) by (simp add: list_all_iff)
  ultimately show False
    using c(1) no by (simp add: unat_of_nat)
qed

lemma command_lines_read:
  "list_all (\<lambda>command. list_all (\<lambda>c. c < 128) command \<and> 10 \<notin> set command) commands \<Longrightarrow>
     read_lines [] (command_lines commands) = map (map of_nat) commands"
  by (induction commands) (simp_all add: command_lines_def read_lines_line of_nat_no_newline)

end
