(* ===== verification/Codec_Constants.thy ===== *)
theory Codec_Constants
  imports Alarm
begin

text \<open>
  The constants of \<open>wiretest/codec.py\<close> that only the tests of the examples use; those its own code uses stand beside that code, in
  \<open>Codec_Encode\<close>. The names of one group stand for different values, so no test can mistake one for another.
\<close>

section \<open>Property identifiers\<close>

abbreviation (input) PROPERTY_DESCRIPTION :: int where "PROPERTY_DESCRIPTION \<equiv> 28"
abbreviation (input) PROPERTY_DEVICE_ADDRESS_BINDING :: int where "PROPERTY_DEVICE_ADDRESS_BINDING \<equiv> 30"
abbreviation (input) PROPERTY_EVENT_STATE :: int where "PROPERTY_EVENT_STATE \<equiv> 36"
abbreviation (input) PROPERTY_LIST_OF_GROUP_MEMBERS :: int where "PROPERTY_LIST_OF_GROUP_MEMBERS \<equiv> 53"
abbreviation (input) PROPERTY_LIST_OF_OBJECT_PROPERTY_REFERENCES :: int where "PROPERTY_LIST_OF_OBJECT_PROPERTY_REFERENCES \<equiv> 54"
abbreviation (input) PROPERTY_NUMBER_OF_APDU_RETRIES :: int where "PROPERTY_NUMBER_OF_APDU_RETRIES \<equiv> 73"
abbreviation (input) PROPERTY_OUT_OF_SERVICE :: int where "PROPERTY_OUT_OF_SERVICE \<equiv> 81"
abbreviation (input) PROPERTY_PRIORITY_ARRAY :: int where "PROPERTY_PRIORITY_ARRAY \<equiv> 87"
abbreviation (input) PROPERTY_RELIABILITY :: int where "PROPERTY_RELIABILITY \<equiv> 103"
abbreviation (input) PROPERTY_RELINQUISH_DEFAULT :: int where "PROPERTY_RELINQUISH_DEFAULT \<equiv> 104"
abbreviation (input) PROPERTY_STATE_TEXT :: int where "PROPERTY_STATE_TEXT \<equiv> 110"
abbreviation (input) PROPERTY_STATUS_FLAGS :: int where "PROPERTY_STATUS_FLAGS \<equiv> 111"
abbreviation (input) PROPERTY_SYSTEM_STATUS :: int where "PROPERTY_SYSTEM_STATUS \<equiv> 112"
abbreviation (input) PROPERTY_UNITS :: int where "PROPERTY_UNITS \<equiv> 117"
abbreviation (input) PROPERTY_LOG_BUFFER :: int where "PROPERTY_LOG_BUFFER \<equiv> 131"
abbreviation (input) PROPERTY_ENABLE :: int where "PROPERTY_ENABLE \<equiv> 133"
abbreviation (input) PROPERTY_RECORD_COUNT :: int where "PROPERTY_RECORD_COUNT \<equiv> 141"
abbreviation (input) PROPERTY_TOTAL_RECORD_COUNT :: int where "PROPERTY_TOTAL_RECORD_COUNT \<equiv> 145"
abbreviation (input) PROPERTY_MODE :: int where "PROPERTY_MODE \<equiv> 160"
abbreviation (input) PROPERTY_OPERATION_EXPECTED :: int where "PROPERTY_OPERATION_EXPECTED \<equiv> 161"
abbreviation (input) PROPERTY_SILENCED :: int where "PROPERTY_SILENCED \<equiv> 163"
abbreviation (input) PROPERTY_TRACKING_VALUE :: int where "PROPERTY_TRACKING_VALUE \<equiv> 164"
abbreviation (input) PROPERTY_ZONE_MEMBERS :: int where "PROPERTY_ZONE_MEMBERS \<equiv> 165"
abbreviation (input) PROPERTY_PROPERTY_LIST :: int where "PROPERTY_PROPERTY_LIST \<equiv> 371"
abbreviation (input) PROPERTY_LIGHTING_COMMAND :: int where "PROPERTY_LIGHTING_COMMAND \<equiv> 380"
abbreviation (input) PROPERTY_NETWORK_NUMBER :: int where "PROPERTY_NETWORK_NUMBER \<equiv> 425"
abbreviation (input) PROPERTY_NETWORK_NUMBER_QUALITY :: int where "PROPERTY_NETWORK_NUMBER_QUALITY \<equiv> 426"
abbreviation (input) PROPERTY_CURRENT_COMMAND_PRIORITY :: int where "PROPERTY_CURRENT_COMMAND_PRIORITY \<equiv> 431"
abbreviation (input) PROPERTY_ASSIGNED_LANDING_CALLS :: int where "PROPERTY_ASSIGNED_LANDING_CALLS \<equiv> 447"
abbreviation (input) PROPERTY_LANDING_CALLS :: int where "PROPERTY_LANDING_CALLS \<equiv> 470"
abbreviation (input) PROPERTY_LANDING_CALL_CONTROL :: int where "PROPERTY_LANDING_CALL_CONTROL \<equiv> 471"

section \<open>Object types\<close>

abbreviation (input) OBJECT_TYPE_ANALOG_VALUE :: int where "OBJECT_TYPE_ANALOG_VALUE \<equiv> 2"
abbreviation (input) OBJECT_TYPE_BINARY_INPUT :: int where "OBJECT_TYPE_BINARY_INPUT \<equiv> 3"
abbreviation (input) OBJECT_TYPE_BINARY_OUTPUT :: int where "OBJECT_TYPE_BINARY_OUTPUT \<equiv> 4"
abbreviation (input) OBJECT_TYPE_BINARY_VALUE :: int where "OBJECT_TYPE_BINARY_VALUE \<equiv> 5"
abbreviation (input) OBJECT_TYPE_CALENDAR :: int where "OBJECT_TYPE_CALENDAR \<equiv> 6"
abbreviation (input) OBJECT_TYPE_GROUP :: int where "OBJECT_TYPE_GROUP \<equiv> 11"
abbreviation (input) OBJECT_TYPE_MULTI_STATE_INPUT :: int where "OBJECT_TYPE_MULTI_STATE_INPUT \<equiv> 13"
abbreviation (input) OBJECT_TYPE_MULTI_STATE_OUTPUT :: int where "OBJECT_TYPE_MULTI_STATE_OUTPUT \<equiv> 14"
abbreviation (input) OBJECT_TYPE_NOTIFICATION_CLASS :: int where "OBJECT_TYPE_NOTIFICATION_CLASS \<equiv> 15"
abbreviation (input) OBJECT_TYPE_SCHEDULE :: int where "OBJECT_TYPE_SCHEDULE \<equiv> 17"
abbreviation (input) OBJECT_TYPE_MULTI_STATE_VALUE :: int where "OBJECT_TYPE_MULTI_STATE_VALUE \<equiv> 19"
abbreviation (input) OBJECT_TYPE_LIFE_SAFETY_POINT :: int where "OBJECT_TYPE_LIFE_SAFETY_POINT \<equiv> 21"
abbreviation (input) OBJECT_TYPE_LIFE_SAFETY_ZONE :: int where "OBJECT_TYPE_LIFE_SAFETY_ZONE \<equiv> 22"
abbreviation (input) OBJECT_TYPE_EVENT_LOG :: int where "OBJECT_TYPE_EVENT_LOG \<equiv> 25"
abbreviation (input) OBJECT_TYPE_LIGHTING_OUTPUT :: int where "OBJECT_TYPE_LIGHTING_OUTPUT \<equiv> 54"
abbreviation (input) OBJECT_TYPE_NETWORK_PORT :: int where "OBJECT_TYPE_NETWORK_PORT \<equiv> 56"
abbreviation (input) OBJECT_TYPE_ELEVATOR_GROUP :: int where "OBJECT_TYPE_ELEVATOR_GROUP \<equiv> 57"
abbreviation (input) OBJECT_TYPE_ESCALATOR :: int where "OBJECT_TYPE_ESCALATOR \<equiv> 58"
abbreviation (input) OBJECT_TYPE_LIFT :: int where "OBJECT_TYPE_LIFT \<equiv> 59"

section \<open>Error classes\<close>

abbreviation (input) ERROR_CLASS_DEVICE :: int where "ERROR_CLASS_DEVICE \<equiv> 0"
abbreviation (input) ERROR_CLASS_RESOURCES :: int where "ERROR_CLASS_RESOURCES \<equiv> 3"
abbreviation (input) ERROR_CLASS_SECURITY :: int where "ERROR_CLASS_SECURITY \<equiv> 4"
abbreviation (input) ERROR_CLASS_SERVICES :: int where "ERROR_CLASS_SERVICES \<equiv> 5"

section \<open>Error codes\<close>

abbreviation (input) ERROR_CODE_DYNAMIC_CREATION_NOT_SUPPORTED :: int where "ERROR_CODE_DYNAMIC_CREATION_NOT_SUPPORTED \<equiv> 4"
abbreviation (input) ERROR_CODE_NO_SPACE_FOR_OBJECT :: int where "ERROR_CODE_NO_SPACE_FOR_OBJECT \<equiv> 18"
abbreviation (input) ERROR_CODE_OBJECT_DELETION_NOT_PERMITTED :: int where "ERROR_CODE_OBJECT_DELETION_NOT_PERMITTED \<equiv> 23"
abbreviation (input) ERROR_CODE_OBJECT_IDENTIFIER_ALREADY_EXISTS :: int where "ERROR_CODE_OBJECT_IDENTIFIER_ALREADY_EXISTS \<equiv> 24"
abbreviation (input) ERROR_CODE_PASSWORD_FAILURE :: int where "ERROR_CODE_PASSWORD_FAILURE \<equiv> 26"
abbreviation (input) ERROR_CODE_SERVICE_REQUEST_DENIED :: int where "ERROR_CODE_SERVICE_REQUEST_DENIED \<equiv> 29"
abbreviation (input) ERROR_CODE_UNSUPPORTED_OBJECT_TYPE :: int where "ERROR_CODE_UNSUPPORTED_OBJECT_TYPE \<equiv> 36"
abbreviation (input) ERROR_CODE_VALUE_OUT_OF_RANGE :: int where "ERROR_CODE_VALUE_OUT_OF_RANGE \<equiv> 37"
abbreviation (input) ERROR_CODE_LIST_ELEMENT_NOT_FOUND :: int where "ERROR_CODE_LIST_ELEMENT_NOT_FOUND \<equiv> 81"
abbreviation (input) ERROR_CODE_BUSY :: int where "ERROR_CODE_BUSY \<equiv> 82"
abbreviation (input) ERROR_CODE_INVALID_OPERATION_IN_THIS_STATE :: int where "ERROR_CODE_INVALID_OPERATION_IN_THIS_STATE \<equiv> 139"

section \<open>BVLC result codes\<close>

abbreviation (input) BVLC_RESULT_SUCCESSFUL_COMPLETION :: int where "BVLC_RESULT_SUCCESSFUL_COMPLETION \<equiv> 0x0000"
abbreviation (input) BVLC_RESULT_WRITE_BDT_NAK :: int where "BVLC_RESULT_WRITE_BDT_NAK \<equiv> 0x0010"
abbreviation (input) BVLC_RESULT_READ_BDT_NAK :: int where "BVLC_RESULT_READ_BDT_NAK \<equiv> 0x0020"
abbreviation (input) BVLC_RESULT_REGISTER_FOREIGN_DEVICE_NAK :: int where "BVLC_RESULT_REGISTER_FOREIGN_DEVICE_NAK \<equiv> 0x0030"
abbreviation (input) BVLC_RESULT_READ_FDT_NAK :: int where "BVLC_RESULT_READ_FDT_NAK \<equiv> 0x0040"
abbreviation (input) BVLC_RESULT_DELETE_FDT_ENTRY_NAK :: int where "BVLC_RESULT_DELETE_FDT_ENTRY_NAK \<equiv> 0x0050"
abbreviation (input) BVLC_RESULT_DISTRIBUTE_BROADCAST_TO_NETWORK_NAK :: int where "BVLC_RESULT_DISTRIBUTE_BROADCAST_TO_NETWORK_NAK \<equiv> 0x0060"

section \<open>Network layer messages\<close>

abbreviation (input) NL_WHO_IS_ROUTER_TO_NETWORK :: int where "NL_WHO_IS_ROUTER_TO_NETWORK \<equiv> 0x00"
abbreviation (input) NL_I_AM_ROUTER_TO_NETWORK :: int where "NL_I_AM_ROUTER_TO_NETWORK \<equiv> 0x01"
abbreviation (input) NL_REJECT_MESSAGE_TO_NETWORK :: int where "NL_REJECT_MESSAGE_TO_NETWORK \<equiv> 0x03"
abbreviation (input) NL_WHAT_IS_NETWORK_NUMBER :: int where "NL_WHAT_IS_NETWORK_NUMBER \<equiv> 0x12"
abbreviation (input) NL_NETWORK_NUMBER_IS :: int where "NL_NETWORK_NUMBER_IS \<equiv> 0x13"

section \<open>States of a device to reinitialize\<close>

abbreviation (input) REINITIALIZE_COLDSTART :: int where "REINITIALIZE_COLDSTART \<equiv> 0"
abbreviation (input) REINITIALIZE_WARMSTART :: int where "REINITIALIZE_WARMSTART \<equiv> 1"
abbreviation (input) REINITIALIZE_START_BACKUP :: int where "REINITIALIZE_START_BACKUP \<equiv> 2"
abbreviation (input) REINITIALIZE_END_BACKUP :: int where "REINITIALIZE_END_BACKUP \<equiv> 3"
abbreviation (input) REINITIALIZE_START_RESTORE :: int where "REINITIALIZE_START_RESTORE \<equiv> 4"
abbreviation (input) REINITIALIZE_END_RESTORE :: int where "REINITIALIZE_END_RESTORE \<equiv> 5"
abbreviation (input) REINITIALIZE_ABORT_RESTORE :: int where "REINITIALIZE_ABORT_RESTORE \<equiv> 6"
abbreviation (input) REINITIALIZE_ACTIVATE_CHANGES :: int where "REINITIALIZE_ACTIVATE_CHANGES \<equiv> 7"

section \<open>Reliabilities\<close>

abbreviation (input) RELIABILITY_NO_FAULT_DETECTED :: int where "RELIABILITY_NO_FAULT_DETECTED \<equiv> 0"
abbreviation (input) RELIABILITY_UNRELIABLE_OTHER :: int where "RELIABILITY_UNRELIABLE_OTHER \<equiv> 7"
abbreviation (input) RELIABILITY_MULTI_STATE_FAULT :: int where "RELIABILITY_MULTI_STATE_FAULT \<equiv> 9"
abbreviation (input) RELIABILITY_COMMUNICATION_FAILURE :: int where "RELIABILITY_COMMUNICATION_FAILURE \<equiv> 12"

section \<open>Device statuses\<close>

abbreviation (input) DEVICE_STATUS_OPERATIONAL :: int where "DEVICE_STATUS_OPERATIONAL \<equiv> 0"
abbreviation (input) DEVICE_STATUS_BACKUP_IN_PROGRESS :: int where "DEVICE_STATUS_BACKUP_IN_PROGRESS \<equiv> 5"

section \<open>Status flags\<close>

abbreviation (input) STATUS_FLAG_IN_ALARM :: int where "STATUS_FLAG_IN_ALARM \<equiv> 0"
abbreviation (input) STATUS_FLAG_FAULT :: int where "STATUS_FLAG_FAULT \<equiv> 1"
abbreviation (input) STATUS_FLAG_OVERRIDDEN :: int where "STATUS_FLAG_OVERRIDDEN \<equiv> 2"
abbreviation (input) STATUS_FLAG_OUT_OF_SERVICE :: int where "STATUS_FLAG_OUT_OF_SERVICE \<equiv> 3"

section \<open>Networks\<close>

abbreviation (input) GLOBAL_BROADCAST_NETWORK :: int where "GLOBAL_BROADCAST_NETWORK \<equiv> 0xFFFF"

section \<open>No two alike\<close>

lemma constants_distinct:
  "distinct [PROPERTY_DESCRIPTION, PROPERTY_DEVICE_ADDRESS_BINDING, PROPERTY_EVENT_STATE, 
      PROPERTY_LIST_OF_GROUP_MEMBERS, PROPERTY_LIST_OF_OBJECT_PROPERTY_REFERENCES, 
      PROPERTY_NUMBER_OF_APDU_RETRIES, PROPERTY_OBJECT_IDENTIFIER, PROPERTY_OBJECT_LIST, 
      PROPERTY_OBJECT_NAME, PROPERTY_OUT_OF_SERVICE, PROPERTY_PRESENT_VALUE, PROPERTY_PRIORITY_ARRAY, 
      PROPERTY_RELIABILITY, PROPERTY_RELINQUISH_DEFAULT, PROPERTY_STATE_TEXT, PROPERTY_STATUS_FLAGS, 
      PROPERTY_SYSTEM_STATUS, PROPERTY_UNITS, PROPERTY_LOG_BUFFER, PROPERTY_ENABLE, PROPERTY_RECORD_COUNT, 
      PROPERTY_TOTAL_RECORD_COUNT, PROPERTY_MODE, PROPERTY_OPERATION_EXPECTED, PROPERTY_SILENCED, 
      PROPERTY_TRACKING_VALUE, PROPERTY_ZONE_MEMBERS, PROPERTY_PROPERTY_LIST, PROPERTY_LIGHTING_COMMAND, 
      PROPERTY_NETWORK_NUMBER, PROPERTY_NETWORK_NUMBER_QUALITY, PROPERTY_CURRENT_COMMAND_PRIORITY, 
      PROPERTY_ASSIGNED_LANDING_CALLS, PROPERTY_LANDING_CALLS, PROPERTY_LANDING_CALL_CONTROL :: int]"
  "distinct [OBJECT_TYPE_ANALOG_INPUT, OBJECT_TYPE_ANALOG_OUTPUT, OBJECT_TYPE_ANALOG_VALUE, 
      OBJECT_TYPE_BINARY_INPUT, OBJECT_TYPE_BINARY_OUTPUT, OBJECT_TYPE_BINARY_VALUE, OBJECT_TYPE_CALENDAR, 
      OBJECT_TYPE_DEVICE, OBJECT_TYPE_FILE, OBJECT_TYPE_GROUP, OBJECT_TYPE_MULTI_STATE_INPUT, 
      OBJECT_TYPE_MULTI_STATE_OUTPUT, OBJECT_TYPE_NOTIFICATION_CLASS, OBJECT_TYPE_SCHEDULE, 
      OBJECT_TYPE_MULTI_STATE_VALUE, OBJECT_TYPE_LIFE_SAFETY_POINT, OBJECT_TYPE_LIFE_SAFETY_ZONE, 
      OBJECT_TYPE_EVENT_LOG, OBJECT_TYPE_LIGHTING_OUTPUT, OBJECT_TYPE_NETWORK_PORT, 
      OBJECT_TYPE_ELEVATOR_GROUP, OBJECT_TYPE_ESCALATOR, OBJECT_TYPE_LIFT :: int]"
  "distinct [ERROR_CLASS_DEVICE, ERROR_CLASS_OBJECT, ERROR_CLASS_PROPERTY, ERROR_CLASS_RESOURCES, 
      ERROR_CLASS_SECURITY, ERROR_CLASS_SERVICES :: int]"
  "distinct [ERROR_CODE_DYNAMIC_CREATION_NOT_SUPPORTED, ERROR_CODE_NO_SPACE_FOR_OBJECT, 
      ERROR_CODE_OBJECT_DELETION_NOT_PERMITTED, ERROR_CODE_OBJECT_IDENTIFIER_ALREADY_EXISTS, 
      ERROR_CODE_PASSWORD_FAILURE, ERROR_CODE_SERVICE_REQUEST_DENIED, ERROR_CODE_UNKNOWN_OBJECT, 
      ERROR_CODE_UNKNOWN_PROPERTY, ERROR_CODE_UNSUPPORTED_OBJECT_TYPE, ERROR_CODE_VALUE_OUT_OF_RANGE, 
      ERROR_CODE_WRITE_ACCESS_DENIED, ERROR_CODE_INVALID_ARRAY_INDEX, ERROR_CODE_LIST_ELEMENT_NOT_FOUND, 
      ERROR_CODE_BUSY, ERROR_CODE_INVALID_OPERATION_IN_THIS_STATE :: int]"
  "distinct [BVLC_RESULT_SUCCESSFUL_COMPLETION, BVLC_RESULT_WRITE_BDT_NAK, BVLC_RESULT_READ_BDT_NAK, 
      BVLC_RESULT_REGISTER_FOREIGN_DEVICE_NAK, BVLC_RESULT_READ_FDT_NAK, BVLC_RESULT_DELETE_FDT_ENTRY_NAK, 
      BVLC_RESULT_DISTRIBUTE_BROADCAST_TO_NETWORK_NAK :: int]"
  "distinct [NL_WHO_IS_ROUTER_TO_NETWORK, NL_I_AM_ROUTER_TO_NETWORK, NL_REJECT_MESSAGE_TO_NETWORK, 
      NL_WHAT_IS_NETWORK_NUMBER, NL_NETWORK_NUMBER_IS :: int]"
  "distinct [REINITIALIZE_COLDSTART, REINITIALIZE_WARMSTART, REINITIALIZE_START_BACKUP, REINITIALIZE_END_BACKUP, 
      REINITIALIZE_START_RESTORE, REINITIALIZE_END_RESTORE, REINITIALIZE_ABORT_RESTORE, 
      REINITIALIZE_ACTIVATE_CHANGES :: int]"
  "distinct [RELIABILITY_NO_FAULT_DETECTED, RELIABILITY_UNRELIABLE_OTHER, RELIABILITY_MULTI_STATE_FAULT, 
      RELIABILITY_COMMUNICATION_FAILURE :: int]"
  "distinct [DEVICE_STATUS_OPERATIONAL, DEVICE_STATUS_BACKUP_IN_PROGRESS :: int]"
  "distinct [STATUS_FLAG_IN_ALARM, STATUS_FLAG_FAULT, STATUS_FLAG_OVERRIDDEN, STATUS_FLAG_OUT_OF_SERVICE :: int]"
  by simp_all

end
