(* ===== verification/Sockets.thy ===== *)
theory Sockets
  imports Address Endpoint
begin

text \<open>
  The sockets the classes of the harness open: their options, the address they report, and closing them (\<open>wiretest/endpoint.py\<close>,
  \<open>peer.py\<close>, \<open>workstation.py\<close>, \<open>control.py\<close>, \<open>process.py\<close>). The operating system is the argument \<open>binds\<close>: for an address that is
  asked for, with or without \<open>SO_REUSEADDR\<close>, the address \<open>getsockname\<close> gives after \<open>bind\<close> (port 0 asks for any port), or \<open>None\<close> when
  \<open>bind\<close> raises.
\<close>

section \<open>Opening and closing\<close>

record udp_socket =
  sock_ip :: string
  sock_port :: int
  reuse_address :: bool
  may_broadcast :: bool
  sock_open :: bool

type_synonym binds = "bool \<Rightarrow> address \<Rightarrow> address option"

definition bound_socket :: "binds \<Rightarrow> bool \<Rightarrow> bool \<Rightarrow> string \<Rightarrow> int \<Rightarrow> udp_socket result" where
  "bound_socket binds reuse broadcast ip port =
     (case binds reuse (ip, port) of
        None \<Rightarrow> Inl OSError
      | Some (ip', port') \<Rightarrow> Inr \<lparr>sock_ip = ip', sock_port = port', reuse_address = reuse, may_broadcast = broadcast, sock_open = True\<rparr>)"

definition endpoint_socket :: "binds \<Rightarrow> int \<Rightarrow> string \<Rightarrow> bool \<Rightarrow> udp_socket result" where
  "endpoint_socket binds port ip reuse = bound_socket binds reuse True ip port"

definition broadcast_listener :: "binds \<Rightarrow> string \<Rightarrow> int \<Rightarrow> udp_socket result" where
  "broadcast_listener binds broadcast_ip port = endpoint_socket binds port broadcast_ip True"

text \<open>A device binds its own socket, then the broadcast socket if it is given an address.\<close>

definition device_sockets :: "binds \<Rightarrow> int \<Rightarrow> string \<Rightarrow> address option \<Rightarrow> (udp_socket \<times> udp_socket option) result" where
  "device_sockets binds port ip broadcast =
     bindR (bound_socket binds False False ip port) (\<lambda>own.
       case broadcast of
         None \<Rightarrow> Inr (own, None)
       | Some (bip, bport) \<Rightarrow> bindR (bound_socket binds True False bip bport) (\<lambda>heard. Inr (own, Some heard)))"

definition workstation_socket :: "binds \<Rightarrow> string \<Rightarrow> int \<Rightarrow> udp_socket result" where
  "workstation_socket binds ip port = bound_socket binds False False ip port"

definition control_socket :: "binds \<Rightarrow> udp_socket result" where
  "control_socket binds = bound_socket binds False False ''127.0.0.1'' 0"

definition close_socket :: "udp_socket \<Rightarrow> udp_socket" where
  "close_socket s = s\<lparr>sock_open := False\<rparr>"

definition close_device_sockets :: "udp_socket \<times> udp_socket option \<Rightarrow> udp_socket \<times> udp_socket option" where
  "close_device_sockets socks = (case socks of (own, heard) \<Rightarrow> (close_socket own, map_option close_socket heard))"

definition close_listener :: "udp_socket option \<Rightarrow> udp_socket option" where
  "close_listener listener = map_option close_socket listener"

abbreviation control_close :: "udp_socket \<Rightarrow> udp_socket" where
  "control_close \<equiv> close_socket"

section \<open>The address of a socket\<close>

text \<open>The property \<open>mac\<close> of \<open>Endpoint\<close>, \<open>SimulatedDevice\<close> and \<open>Workstation\<close>.\<close>

definition socket_mac :: "udp_socket \<Rightarrow> bytes result" where
  "socket_mac s = mac (sock_ip s) (sock_port s)"

abbreviation device_mac :: "udp_socket \<Rightarrow> bytes result" where
  "device_mac \<equiv> socket_mac"

abbreviation workstation_mac :: "udp_socket \<Rightarrow> bytes result" where
  "workstation_mac \<equiv> socket_mac"

text \<open>What \<open>getsockname\<close> reports is dotted decimal and a port; then \<open>mac\<close> gives six octets, the text of which is that address.\<close>

definition reports_addresses :: "binds \<Rightarrow> bool" where
  "reports_addresses binds \<longleftrightarrow> (\<forall>reuse asked ip port. binds reuse asked = Some (ip, port) \<longrightarrow>
     0 \<le> port \<and> port < 65536 \<and> (\<exists>octets. length octets = 4 \<and> ip = inet_ntoa octets))"

lemma bound_socket_mac:
  assumes "reports_addresses binds" and "bound_socket binds reuse broadcast ip port = Inr s"
  shows "\<exists>m. socket_mac s = Inr m \<and> length m = 6 \<and> mac_text m = sock_ip s @ '':'' @ decimal (nat (sock_port s)) \<and> sock_open s"
proof -
  have b: "binds reuse (ip, port) = Some (sock_ip s, sock_port s)" "sock_open s"
    using assms(2) by (auto simp: bound_socket_def split: option.splits)
  then obtain octets where o: "length octets = 4" "sock_ip s = inet_ntoa octets" and p: "0 \<le> sock_port s" "sock_port s < 65536"
    using assms(1) unfolding reports_addresses_def by blast
  have "socket_mac s = Inr (octets @ be_octets 2 (sock_port s))"
    using o p by (simp add: socket_mac_def mac_def inet_aton_ntoa pack_be_def)
  then show ?thesis
    using mac_text_mac [OF o(1) p] o b(2) by (simp add: socket_mac_def)
qed

lemma endpoint_socket_mac:
  "reports_addresses binds \<Longrightarrow> endpoint_socket binds port ip reuse = Inr s \<Longrightarrow>
     \<exists>m. socket_mac s = Inr m \<and> length m = 6 \<and> mac_text m = sock_ip s @ '':'' @ decimal (nat (sock_port s)) \<and> sock_open s"
  unfolding endpoint_socket_def by (rule bound_socket_mac)

text \<open>A device that cannot bind its broadcast address is not made; one that is made has both sockets open until \<open>stop\<close> closes both.\<close>

lemma device_sockets_open:
  assumes "device_sockets binds port ip broadcast = Inr (own, heard)"
  shows "sock_open own \<and> pred_option sock_open heard \<and> (heard = None \<longleftrightarrow> broadcast = None) \<and>
     (case close_device_sockets (own, heard) of (own', heard') \<Rightarrow> \<not> sock_open own' \<and> pred_option (\<lambda>s. \<not> sock_open s) heard')"
proof -
  have opened: "sock_open s" if "bound_socket binds reuse bc i p = Inr s" for reuse bc i p s
    using that by (auto simp: bound_socket_def split: option.splits)
  have own: "bound_socket binds False False ip port = Inr own"
    using assms by (auto simp: device_sockets_def bindR_Inr_iff split: option.splits)
  have heard: "case broadcast of None \<Rightarrow> heard = None
      | Some (bip, bport) \<Rightarrow> \<exists>b. heard = Some b \<and> bound_socket binds True False bip bport = Inr b"
    using assms by (auto simp: device_sockets_def bindR_Inr_iff split: option.splits prod.splits)
  show ?thesis
    using opened [OF own] heard opened
    by (auto simp: close_device_sockets_def close_socket_def split: option.splits)
qed

end
