(* ===== verification/Component_Facts.thy ===== *)
theory Component_Facts
  imports Exchange Workstation_Laws Sockets Process
begin

text \<open>
  Theorems about single components that the properties of the development do not repeat: round trips of the
  remaining requests, answers and values, addresses and command files, the notifications a workstation keeps, the domain of an encoder, exceptions of the frame decoder,
  sampling, and two more branches of the server.
\<close>

text \<open>The invariant of the commandable objects over every run: a server made by the constructor
  serves any sequence of datagrams, well-formed or not. As long as no exception has ended its thread, every
  commandable object has sixteen slots, and its Present_Value is the first non-NULL slot or else its
  Relinquish_Default.\<close>

theorem runs_keep_the_priority_invariant:
  assumes "SimulatedServer inst name vendor objs writes commands elements = Inr s"
    and "serve_all (server_answer env) datagrams s = (outs, None, t)"
    and "commandable t = Some keys" and "key \<in> keys"
  shows "\<exists>slots d. priority_arrays t key = Some slots \<and> length slots = 16 \<and> relinquish_defaults t key = Some d \<and>
     stored_property t key PROPERTY_PRESENT_VALUE = Some (case winning slots of v # _ \<Rightarrow> Octets v | [] \<Rightarrow> d)"
proof -
  have "server_inv t"
    using serve_all_keeps_inv [OF SimulatedServer_inv [OF assms(1)] assms(2)] .
  then have "object_inv t key"
    using assms(3,4) by (simp add: server_inv_def)
  then show ?thesis
    by (rule object_invE) (simp add: commanded_value_def)
qed

theorem runs_keep_the_priority_invariant_witness:
  "\<exists>s slots d.
     SimulatedServer 900 [] 389 [(1, 1) \<mapsto> [PROPERTY_PRESENT_VALUE \<mapsto> Octets [0x21, 0x05]]] None (Some [(1, 1)]) False = Inr s \<and>
     serve_all (server_answer (\<lambda>_. [])) [([0x81, 0x0A], (''10.0.0.2'', 47808), False)] s =
       ([], None, keep_frame False (initial_frame [0x81, 0x0A] (''10.0.0.2'', 47808)) s) \<and>
     priority_arrays (keep_frame False (initial_frame [0x81, 0x0A] (''10.0.0.2'', 47808)) s) (1, 1) = Some slots \<and> length slots = 16"
proof -
  let ?objs = "[(1, 1) \<mapsto> [PROPERTY_PRESENT_VALUE \<mapsto> Octets [0x21, 0x05]]] :: object_key \<rightharpoonup> (int \<rightharpoonup> served_value)"
  obtain s where s: "SimulatedServer 900 [] 389 ?objs None (Some [(1, 1)]) False = Inr s" "commandable s = Some {(1, 1)}"
    by (simp add: SimulatedServer_def)
  let ?d = "([0x81, 0x0A], (''10.0.0.2'', 47808), False) :: bytes \<times> address \<times> bool"
  let ?t = "keep_frame False (initial_frame [0x81, 0x0A] (''10.0.0.2'', 47808)) s"
  have run: "serve_all (server_answer (\<lambda>_. [])) [?d] s = ([], None, ?t)"
    by (simp add: serve_def Frame_def initial_frame_def)
  show ?thesis
    using runs_keep_the_priority_invariant [OF s(1) run, of "{(1, 1)}" "(1, 1)"] s run by auto
qed

text \<open>Clause 19.2.1 as \<open>_write\<close> implements it: with commandable objects configured, a NULL written
  to a listed property that is not commanded is acknowledged with a SimpleACK and leaves what is served as it was.\<close>

theorem null_write_is_ignored:
  assumes "is_octet i" and "valid_object_id ot inst" and "is_unsigned p" and "pred_option is_unsigned prio"
    and "serving s" and "commandable s \<noteq> None" and "\<not> is_commanded s (write_of ot inst p [0x00] prio None)"
    and "stored_property s (ot, inst) p \<noteq> None"
  shows "\<exists>apdu g t. write_property_request i ot inst p [0x00] prio None = Inr apdu \<and>
     exchange env me peer apdu s = (Inr (Some g), t) \<and> answers i g = Inr True \<and> acked (Some g) \<and>
     served_data t = served_data s \<and> write_requests t = write_requests s @ [write_of ot inst p [0x00] prio None]"
proof -
  let ?w = "write_of ot inst p [0x00] prio None"
  let ?t = "\<lambda>f. log_write ?w (keep_frame False f s)"
  have tag: "application_tag [0x00] = Inr (Some TAG_NULL)" and wt: "well_tagged [0x00]"
    by code_simp+
  have ans: "server_write f (Some ?w) (?t f) = with_invoke_id f (\<lambda>iid. simple_ack iid SERVICE_WRITE_PROPERTY) (?t f)" for f
    using server_write_cases [of ?w "Some TAG_NULL" f "?t f"] tag assms(5-8)
    by (simp add: Let_def null_ignored_def serving_def)
  have pre: "pred_option is_unsigned (None :: int option)" "length [0x00 :: octet] < 60000" "mode s \<noteq> Offline" "failures s = []"
    using assms(5) by (simp_all add: serving_def)
  obtain apdu g f where "write_property_request i ot inst p [0x00] prio None = Inr apdu"
      "exchange env me peer apdu s = (Inr (Some g), ?t f)" "answers i g = Inr True" "acked (Some g)"
    using exchange_write_acked [OF assms(1-4) pre(1) wt pre(2-4) ans, of env me peer] by blast
  then show ?thesis
    by auto
qed

theorem null_write_is_ignored_witness:
  "\<exists>s apdu g t.
     SimulatedServer 900 [] 389 [(2, 3) \<mapsto> [PROPERTY_PRESENT_VALUE \<mapsto> Octets [0x21, 0x05]]] None (Some []) False = Inr s \<and>
     write_property_request 1 2 3 PROPERTY_PRESENT_VALUE [0x00] None None = Inr apdu \<and>
     exchange (\<lambda>_. []) (''10.0.0.2'', 47808) (''10.0.0.1'', 47808) apdu s = (Inr (Some g), t) \<and> acked (Some g) \<and> served_data t = served_data s"
proof -
  obtain s where s: "SimulatedServer 900 [] 389 [(2, 3) \<mapsto> [PROPERTY_PRESENT_VALUE \<mapsto> Octets [0x21, 0x05]]] None (Some []) False = Inr s"
      "serving s" "commandable s = Some {}" "stored_property s (2, 3) PROPERTY_PRESENT_VALUE \<noteq> None"
    by (simp add: SimulatedServer_def serving_def stored_property_def)
  show ?thesis
    using null_write_is_ignored [of 1 2 3 PROPERTY_PRESENT_VALUE None s "\<lambda>_. []" "(''10.0.0.2'', 47808)" "(''10.0.0.1'', 47808)"] s
    by (simp add: is_octet_def valid_object_id_def is_unsigned_def is_commanded_def) blast
qed

text \<open>Bookkeeping of the thread: after serving a sequence of datagrams without an exception, \<open>received\<close>
  holds, after what it held before, the decoded frame of every one of them in the order they arrived, answered
  or not.\<close>

theorem server_keeps_every_frame:
  assumes "serve_all (server_answer env) datagrams s = (outs, None, t)"
  shows "map Inr (received t) = map Inr (received s) @ map (\<lambda>(data, src, on_broadcast). Frame data src) datagrams"
  using assms by (rule srv.serve_all_received)

theorem server_keeps_every_frame_witness:
  "\<exists>s t. SimulatedServer 900 [] 389 [(2, 3) \<mapsto> [PROPERTY_PRESENT_VALUE \<mapsto> Octets [0x21, 0x05]]] None None False = Inr s \<and>
     serve_all (server_answer (\<lambda>_. [])) [([0x81], (''10.0.0.2'', 47808), False), ([0x82, 0, 0, 0], (''10.0.0.2'', 47808), True)] s = ([], None, t) \<and>
     map Inr (received t) = [Frame [0x81] (''10.0.0.2'', 47808), Frame [0x82, 0, 0, 0] (''10.0.0.2'', 47808)]"
proof -
  obtain s where s: "SimulatedServer 900 [] 389 [(2, 3) \<mapsto> [PROPERTY_PRESENT_VALUE \<mapsto> Octets [0x21, 0x05]]] None None False = Inr s" "received s = []"
    by (simp add: SimulatedServer_def)
  let ?ds = "[([0x81], (''10.0.0.2'', 47808), False), ([0x82, 0, 0, 0], (''10.0.0.2'', 47808), True)] :: (bytes \<times> address \<times> bool) list"
  have "\<exists>t. serve_all (server_answer (\<lambda>_. [])) ?ds s = ([], None, t)"
    by (simp add: serve_def Frame_def initial_frame_def)
  then show ?thesis
    using server_keeps_every_frame [of "\<lambda>_. []" ?ds s "[]"] s by auto
qed

text \<open>A server never sends to an address it has not heard from: over any sequence of datagrams, ended by an exception or
  not, the destination of every reply is the source of one of the datagrams served.\<close>

theorem replies_go_to_a_sender:
  "snd ` set (fst (serve_all (server_answer env) datagrams s)) \<subseteq> (\<lambda>(data, src, on_broadcast). src) ` set datagrams"
  using srv.serve_all_destinations [of env datagrams s] by (cases "serve_all (server_answer env) datagrams s") simp

text \<open>\<open>parse_read_property_request\<close> reads back what \<open>read_property_request\<close> writes, with the array index
  when asked for it and without it otherwise.\<close>

theorem read_property_roundtrip:
  assumes "is_octet invoke" and "valid_object_id ot inst" and "is_unsigned p" and "pred_option is_unsigned idx"
  shows "bindR (read_property_request invoke ot inst p idx) parse_read_property_request_indexed = Inr (Some (ot, inst, p, idx)) \<and>
     bindR (read_property_request invoke ot inst p idx) parse_read_property_request = Inr (Some (ot, inst, p))"
  using read_property_request_parses_indexed [OF assms] read_property_request_parses [OF assms] by simp

theorem read_property_roundtrip_witness:
  "bindR (read_property_request 255 1023 0x3FFFFF 4294967295 (Some 0)) parse_read_property_request_indexed =
     Inr (Some (1023, 0x3FFFFF, 4294967295, Some 0))"
  using read_property_roundtrip [of 255 1023 "0x3FFFFF" 4294967295 "Some 0"]
  by (simp add: is_octet_def valid_object_id_def is_unsigned_def)

text \<open>\<open>read_property_value\<close> finds in the ComplexACK of \<open>read_property_ack\<close> exactly the value octets put
  between its \<open>[3]\<close> tags, whatever brackets the value itself contains.\<close>

theorem read_property_ack_roundtrip:
  assumes "is_octet invoke" and "valid_object_id ot inst" and "is_unsigned p" and "well_tagged v"
  shows "bindR (read_property_ack invoke ot inst p v) read_property_value = Inr (Some v)"
  using assms by (rule read_property_ack_value)

theorem read_property_ack_roundtrip_witness:
  "bindR (read_property_ack 1 8 900 76 [0x3E, 0x21, 0x07, 0x3F, 0xC4, 2, 0, 0, 1]) read_property_value =
     Inr (Some [0x3E, 0x21, 0x07, 0x3F, 0xC4, 2, 0, 0, 1])"
proof -
  have "well_tagged [0x3E, 0x21, 0x07, 0x3F, 0xC4, 2, 0, 0, 1]"
    by code_simp
  then show ?thesis
    by (intro read_property_ack_roundtrip) (simp_all add: is_octet_def valid_object_id_def is_unsigned_def)
qed

text \<open>\<open>read_access_specifications\<close> reads back a list of specifications of distinct objects written by
  \<open>read_access_specification\<close>: the objects in order, each with its property identifiers in order; the array
  indices are dropped.\<close>

theorem access_specifications_roundtrip:
  assumes "list_all valid_specification specs" and "distinct (map spec_key specs)"
  shows "bindR (catR (map (\<lambda>(ot, inst, rs). read_access_specification ot inst rs) specs)) read_access_specifications =
     Inr (map (\<lambda>(ot, inst, rs). ((ot, inst), map (\<lambda>r. fst (reference_parts r)) rs)) specs)"
  using assms by (rule read_access_specifications_roundtrip)

theorem access_specifications_roundtrip_witness:
  "bindR (catR (map (\<lambda>(ot, inst, rs). read_access_specification ot inst rs) [(8, 900, [Bare 77, Pair 76 (Some 2)]), (1, 1, [Bare 85])]))
     read_access_specifications = Inr [((8, 900), [77, 76]), ((1, 1), [85])]"
  using access_specifications_roundtrip [of "[(8, 900, [Bare 77, Pair 76 (Some 2)]), (1, 1, [Bare 85])]"]
  by (simp add: valid_specification_def valid_object_id_def valid_reference_def is_unsigned_def)

text \<open>\<open>error_class_and_code\<close> reads back the class and the code of an Error PDU.\<close>

theorem error_pdu_roundtrip:
  assumes "is_octet invoke" and "is_octet srv" and "is_unsigned cls" and "is_unsigned code"
  shows "bindR (error_pdu invoke srv cls code) error_class_and_code = Inr (Some (cls, code))"
  using assms by (rule error_pdu_decodes)

theorem error_pdu_roundtrip_witness:
  "bindR (error_pdu 3 12 2 65535) error_class_and_code = Inr (Some (2, 65535))"
  by (rule error_pdu_roundtrip) (simp_all add: is_octet_def is_unsigned_def)

text \<open>\<open>i_am_device_instance\<close> reads back the instance an I-Am announces, for every 22-bit instance.\<close>

theorem i_am_roundtrip:
  assumes "0 \<le> inst" and "inst \<le> MAX_INSTANCE" and "is_unsigned vendor" and "is_unsigned max_apdu" and "is_unsigned seg"
  shows "bindR (i_am inst vendor max_apdu seg) i_am_device_instance = Inr (Some inst)"
  using assms by (rule i_am_decodes)

theorem i_am_roundtrip_witness:
  "bindR (i_am 0x3FFFFF 389 1476 3) i_am_device_instance = Inr (Some 0x3FFFFF)"
  by (rule i_am_roundtrip) (simp_all add: is_unsigned_def)

text \<open>\<open>decoded_values\<close> of a run of REALs returns the floats that were written, bit for bit, whenever each
  is exactly representable in single precision (negative zero, subnormals and infinities included).\<close>

theorem real_list_roundtrip:
  assumes "list_all is_single xs"
  shows "bindR (catR (map application_real xs)) decoded_values = Inr (map PyFloat xs)"
  using assms by (rule pr.decode_list)

theorem real_list_roundtrip_witness:
  "bindR (catR (map application_real [float_of_single 0x3F800000, float_of_single 0x42BE0000, float_of_single 0x80000000])) decoded_values =
     Inr [PyFloat (float_of_single 0x3F800000), PyFloat (float_of_single 0x42BE0000), PyFloat (float_of_single 0x80000000)]"
proof -
  have "list_all is_single [float_of_single 0x3F800000, float_of_single 0x42BE0000, float_of_single 0x80000000]"
    by (simp add: is_single_float_of_single is_nan_single_def)
  then show ?thesis
    using real_list_roundtrip [of "[float_of_single 0x3F800000, float_of_single 0x42BE0000, float_of_single 0x80000000]"] by simp
qed

text \<open>\<open>decode_application\<close> returns the bits \<open>application_bit_string\<close> was given, bit 0 first, for up to the
  24 bits its tag has room for; the tag is that of a BIT STRING.\<close>

theorem bit_string_roundtrip:
  assumes "length bits \<le> 24"
  shows "bindR (application_bit_string bits) decode_application = Inr (PyBits bits) \<and>
     bindR (application_bit_string bits) application_tag = Inr (Some TAG_BIT_STRING)"
  using pt.decode_encode [OF assms] pt.tag_encode [OF assms] by simp

theorem bit_string_roundtrip_witness:
  "bindR (application_bit_string [True, False, False, True]) decode_application = Inr (PyBits [True, False, False, True])"
  using bit_string_roundtrip [of "[True, False, False, True]"] by simp

text \<open>\<open>decode_application\<close> returns the text \<open>application_character_string\<close> was given, for every text whose
  UTF-8 encoding has fewer than 253 octets.\<close>

theorem character_string_roundtrip:
  assumes "fits_string s"
  shows "bindR (application_character_string s) decode_application = Inr (PyStr s)"
  using assms by (rule pc.decode_encode)

theorem character_string_roundtrip_witness:
  "bindR (application_character_string [0x41, 0xE9, 0x20AC, 0x1F600]) decode_application = Inr (PyStr [0x41, 0xE9, 0x20AC, 0x1F600])"
proof -
  have "fits_string [0x41, 0xE9, 0x20AC, 0x1F600]"
    by (simp add: fits_string_def utf8_encode_def utf8_char_def is_scalar_def)
  then show ?thesis
    by (rule character_string_roundtrip)
qed

text \<open>The elements of an Object_List: \<open>application_elements\<close> splits a run of object identifiers into the
  encodings of the identifiers, one per element, and \<open>decoded_values\<close> returns the identifiers themselves.\<close>

theorem object_list_is_split:
  assumes "list_all (\<lambda>(t, i). valid_object_id t i) ids"
  shows "bindR (catR (map (\<lambda>(t, i). application_object_id t i) ids)) application_elements =
       Inr (map (\<lambda>x. projr (case x of (t, i) \<Rightarrow> application_object_id t i)) ids) \<and>
     bindR (catR (map (\<lambda>(t, i). application_object_id t i) ids)) decoded_values = Inr (map (\<lambda>(t, i). PyObjectId t i) ids)"
  using po.split_list [OF assms] po.decode_list [OF assms] by simp

theorem object_list_is_split_witness:
  "bindR (catR (map (\<lambda>(t, i). application_object_id t i) [(8, 900), (1, 1)])) decoded_values = Inr [PyObjectId 8 900, PyObjectId 1 1]"
  using object_list_is_split [of "[(8, 900), (1, 1)]"] by (simp add: valid_object_id_def)

text \<open>Integers: \<open>decode_application\<close> returns the integer that \<open>application_unsigned\<close> and
  \<open>application_enumerated\<close> were given, for every value below \<open>2 ^ 32\<close>, and that \<open>application_signed\<close> was given,
  for every 32-bit signed value.\<close>

theorem integer_roundtrips:
  "(0 \<le> v \<and> v < 2 ^ 32 \<longrightarrow> bindR (application_unsigned v) decode_application = Inr (PyInt v) \<and>
                            bindR (application_enumerated v) decode_application = Inr (PyInt v)) \<and>
   (- (2 ^ 31) \<le> v \<and> v < 2 ^ 31 \<longrightarrow> bindR (application_signed v) decode_application = Inr (PyInt v))"
  using pu.decode_encode [of v] pe.decode_encode [of v] ps.decode_encode [of v]
  unfolding is_unsigned_def is_signed_def by blast

theorem integer_roundtrips_witness:
  "bindR (application_unsigned 4294967295) decode_application = Inr (PyInt 4294967295) \<and>
   bindR (application_signed (- 2147483648)) decode_application = Inr (PyInt (- 2147483648))"
  using integer_roundtrips [of 4294967295] integer_roundtrips [of "- 2147483648"] by simp

text \<open>The domain of \<open>_unsigned_octets\<close>: a context-tagged unsigned is encoded exactly when the value is in
  the range of 32 bits; a negative value raises \<open>OverflowError\<close> and a larger one \<open>ValueError\<close>.\<close>

theorem unsigned_encoder_domain:
  assumes "0 \<le> t" and "t < 15"
  shows "(succeeds (context_unsigned t v) \<longleftrightarrow> 0 \<le> v \<and> v < 2 ^ 32) \<and>
     (v < 0 \<longrightarrow> context_unsigned t v = Inl OverflowError) \<and> (2 ^ 32 \<le> v \<longrightarrow> context_unsigned t v = Inl ValueError)"
proof -
  consider "v < 0" | "0 \<le> v \<and> v < 2 ^ 32" | "2 ^ 32 \<le> v"
    by linarith
  then show ?thesis
  proof cases
    case 1
    then have "context_unsigned t v = Inl OverflowError"
      by (simp add: context_unsigned_def unsigned_octets_errors(1))
    with 1 show ?thesis
      by simp
  next
    case 2
    then obtain enc where "context_unsigned t v = Inr enc"
      using context_unsigned_ok [OF assms, of v] by blast
    with 2 show ?thesis
      by simp
  next
    case 3
    then have "context_unsigned t v = Inl ValueError"
      by (simp add: context_unsigned_def unsigned_octets_errors(2))
    with 3 show ?thesis
      by simp
  qed
qed

theorem unsigned_encoder_domain_witness:
  "context_unsigned 2 4294967296 = Inl ValueError \<and> succeeds (context_unsigned 2 4294967295)"
  using unsigned_encoder_domain [of 2 4294967296] unsigned_encoder_domain [of 2 4294967295] by simp

text \<open>Locality of \<open>read_tag\<close>: a tag that ends inside the data is read the same at any place of any byte
  string that holds the same octets there, and the position after it moves along.\<close>

theorem tags_are_read_where_they_stand:
  assumes "read_tag v q = Inr (n, c, k, b, after)" and "after \<le> length v" and "drop p data = drop q v @ rest"
  shows "read_tag data p = Inr (n, c, k, b, p + (after - q))"
  using rt.read_moved [OF assms] by simp

theorem tags_are_read_where_they_stand_witness:
  "read_tag [0xFF, 0x21, 0x07, 0x99] 1 = Inr (2, False, Value, [0x07], 3)"
proof -
  have r: "read_tag [0x21, 0x07] 0 = Inr (2, False, Value, [0x07], 2)"
    by code_simp
  show ?thesis
    using tags_are_read_where_they_stand [OF r, of 1 "[0xFF, 0x21, 0x07, 0x99]" "[0x99]"] by simp
qed

text \<open>A Forwarded-NPDU (J.2.5) decodes to the originating B/IP address and to the fields of the NPDU it
  carries.\<close>

theorem forwarded_frame_roundtrip:
  assumes "valid_npdu m d da s sa hop" and "npdu data m d da s sa reply_bit hop = Inr octets"
    and "forwarded_npdu bip octets = Inr datagram" and "length bip = 6" and "length octets < 65526"
  shows "\<exists>f. Frame datagram src = Inr f \<and> ok f \<and> bvlc_function f = Some BVLC_FORWARDED_NPDU \<and> originating_mac f = bip \<and>
     network_message f = m \<and> dnet f = d \<and> snet f = s \<and>
     payload f = (case m of Some n \<Rightarrow> if n \<ge> 0x80 then drop 2 data else data | None \<Rightarrow> data)"
  using Frame_forwarded_npdu [OF assms, of src]
  by (auto simp: with_npdu_def initial_frame_def split: option.splits)

theorem forwarded_frame_roundtrip_witness:
  "\<exists>octets datagram f. npdu_plain [0x10, 0x08] = Inr octets \<and> forwarded_npdu [10, 0, 0, 7, 0xBA, 0xC0] octets = Inr datagram \<and>
     Frame datagram (''10.0.0.1'', 47808) = Inr f \<and> originating_mac f = [10, 0, 0, 7, 0xBA, 0xC0] \<and> payload f = [0x10, 0x08]"
proof -
  have v: "valid_npdu None None [] None [] 255"
    by (simp add: valid_npdu_def is_octet_def)
  have octets: "npdu_plain [0x10, 0x08] = Inr [1, 0, 0x10, 0x08]"
    by code_simp
  have datagram: "forwarded_npdu [10, 0, 0, 7, 0xBA, 0xC0] [1, 0, 0x10, 0x08] =
      Inr [0x81, 4, 0, 14, 10, 0, 0, 7, 0xBA, 0xC0, 1, 0, 0x10, 0x08]"
    by code_simp
  show ?thesis
    using forwarded_frame_roundtrip [OF v octets datagram, of "(''10.0.0.1'', 47808)"] octets datagram by auto
qed

text \<open>The constructor of \<open>Frame\<close> can raise \<open>struct.error\<close> and \<open>IndexError\<close> and nothing else, and does: a
  datagram that announces a destination network and ends before it raises \<open>struct.error\<close>, one that announces a
  network layer message and ends before its type raises \<open>IndexError\<close>.\<close>

theorem truncated_npdu_raises:
  "raises_only {StructError, IndexError} (Frame data src) \<and>
   Frame [0x81, 0x0A, 0x00, 0x06, 0x01, 0x20] src = Inl StructError \<and>
   Frame [0x81, 0x0A, 0x00, 0x06, 0x01, 0x80] src = Inl IndexError"
proof -
  have "raises_only {StructError, IndexError} (Frame data src)"
    using Frame_errors [of data src] by (auto simp: raises_only_def split: sum.split)
  then show ?thesis
    by (simp add: Frame_def decode_npdu_def read_address_def py_slice_def BVLC_FUNCTIONS_WITH_NPDU_def)
qed

text \<open>An event notification from its encoder to the workstation that receives it. What \<open>event_notification\<close>
  writes, sent in a datagram to a workstation whose thread runs, is kept as the \<open>EventNotification\<close> with the fields
  that were encoded. If it is confirmed and the workstation answers notifications, exactly one datagram goes back to
  the sender, and it decodes to a SimpleACK of the service with the invoke id of the notification; otherwise nothing is
  sent.\<close>

theorem notification_is_kept_and_acknowledged:
  assumes "valid_event e" and "event_notification e = Inr apdu" and "length apdu < 65000" and "thread_alive w"
  shows "\<exists>octets datagram f acks. npdu_plain apdu = Inr octets \<and> bvlc octets False = Inr datagram \<and>
     Frame datagram src = Inr f \<and>
     ws_receive (Datagram datagram src) w =
       w\<lparr>notifications := notifications w @ [reported_event f e], sent := sent w @ acks\<rparr> \<and>
     (if ev_confirmed e \<and> answer_notifications w then \<exists>x. acks = [(x, src)] \<and> acknowledges (ev_invoke_id e) x
      else acks = [])"
proof -
  obtain octets datagram where d: "npdu_plain apdu = Inr octets" "bvlc octets False = Inr datagram"
      "\<And>src. \<exists>f. Frame datagram src = Inr f \<and> ok f \<and> network_message f = None \<and> payload f = apdu \<and> source f = src"
    by (rule plain_datagram [OF assms(3)]) blast
  obtain f where f: "Frame datagram src = Inr f" "ok f" "network_message f = None" "payload f = apdu" "source f = src"
    using d(3) [of src] by blast
  from notification_received [OF assms(1,2,4) f] show ?thesis
    using d(1,2) f(1) by metis
qed

theorem notification_is_kept_and_acknowledged_witness:
  "\<exists>datagram f x. ws_receive (Datagram datagram (''10.0.0.1'', 47808)) (Workstation True 2) =
     (Workstation True 2)\<lparr>notifications := [reported_event f ((event_defaults 900 (0, 1) EVENT_STATE_HIGH_LIMIT)\<lparr>ev_confirmed := True, ev_invoke_id := 9, ev_notify_type := NOTIFY_TYPE_ACK_NOTIFICATION\<rparr>)],
       sent := [(x, (''10.0.0.1'', 47808))]\<rparr> \<and> acknowledges 9 x"
proof -
  let ?e = "(event_defaults 900 (0, 1) EVENT_STATE_HIGH_LIMIT)\<lparr>ev_confirmed := True, ev_invoke_id := 9, ev_notify_type := NOTIFY_TYPE_ACK_NOTIFICATION\<rparr>"
  have "float_of_single 0x42BE0000 = 0x4057C00000000000" "float_of_single 0x42B40000 = 0x4056800000000000"
    by (simp_all add: float_of_single_def widen_magnitude_def)
  then have "is_single 0x4057C00000000000" "is_single 0x4056800000000000"
    using is_single_float_of_single [of "0x42BE0000"] is_single_float_of_single [of "0x42B40000"] by (simp_all add: is_nan_single_def)
  moreover have "succeeds (event_stamp ?e)"
    by code_simp
  ultimately have v: "valid_event ?e"
    by (simp add: valid_event_def event_defaults_def is_octet_def is_unsigned_def valid_object_id_def)
  then obtain apdu where apdu: "event_notification ?e = Inr apdu"
    using event_notification_ok by blast
  have "int (length (projr (event_notification ?e))) < 65000"
    by code_simp
  then have "length apdu < 65000"
    using apdu by simp
  then show ?thesis
    using notification_is_kept_and_acknowledged [OF v apdu, of "Workstation True 2" "(''10.0.0.1'', 47808)"]
    by (auto simp: Workstation_def event_defaults_def)
qed

text \<open>A BACnetLightingCommand reads back: for every operation and every choice of the optional fields,
  \<open>decode_lighting_command\<close> returns the fields that were given, and no others.\<close>

theorem lighting_command_roundtrip:
  assumes "valid_lighting op [level, ramp, increment] [fade, prio]"
  shows "bindR (lighting_command op level ramp increment fade prio) (\<lambda>octets. decode_lighting_command (Some octets)) =
     Inr (Some \<lparr>light_operation = Some op, light_target_level = level, light_ramp_rate = ramp,
       light_step_increment = increment, light_fade_time = fade, light_priority = prio\<rparr>)"
  using assms by (rule lighting_command_decodes)

theorem lighting_command_roundtrip_witness:
  "bindR (lighting_command LIGHTING_OPERATION_FADE_TO (Some float_one) None None (Some 2000) (Some 8))
       (\<lambda>octets. decode_lighting_command (Some octets)) =
     Inr (Some \<lparr>light_operation = Some LIGHTING_OPERATION_FADE_TO, light_target_level = Some float_one, light_ramp_rate = None,
       light_step_increment = None, light_fade_time = Some 2000, light_priority = Some 8\<rparr>)"
  by (rule lighting_command_roundtrip) (simp add: valid_lighting_def is_unsigned_def is_single_one)

text \<open>Landing calls: \<open>decode_landing_calls\<close> of any number of calls written by \<open>landing_call_status\<close> returns the
  calls in order; a call with both a direction and a destination, or with neither, raises \<open>ValueError\<close>.\<close>

theorem landing_calls_roundtrip:
  assumes "list_all valid_call cs"
  shows "bindR (catR (map (\<lambda>c. landing_call_status (call_floor c) (call_direction c) (call_destination c) (call_text c)) cs))
       (\<lambda>octets. decode_landing_calls (Some octets)) = Inr cs \<and>
     (\<forall>x d d' t. landing_call_status x (Some d) (Some d') t = Inl ValueError \<and> landing_call_status x None None t = Inl ValueError)"
  using landing_calls_decode [OF assms] by (simp add: landing_call_status_def)

theorem landing_calls_roundtrip_witness:
  "bindR (catR (map (\<lambda>c. landing_call_status (call_floor c) (call_direction c) (call_destination c) (call_text c))
       [\<lparr>call_floor = 3, call_direction = Some LIFT_CAR_DIRECTION_UP, call_destination = None, call_text = Some [0x33]\<rparr>,
        \<lparr>call_floor = 5, call_direction = None, call_destination = Some 1, call_text = None\<rparr>]))
     (\<lambda>octets. decode_landing_calls (Some octets)) =
   Inr [\<lparr>call_floor = 3, call_direction = Some LIFT_CAR_DIRECTION_UP, call_destination = None, call_text = Some [0x33]\<rparr>,
        \<lparr>call_floor = 5, call_direction = None, call_destination = Some 1, call_text = None\<rparr>]"
proof -
  have "fits_string [0x33]"
    by (simp add: fits_string_def utf8_encode_def utf8_char_def is_scalar_def)
  then show ?thesis
    by (intro conjunct1 [OF landing_calls_roundtrip]) (simp add: valid_call_def is_unsigned_def)
qed

text \<open>\<open>sample\<close> returns. If the clock does not run backwards and a sleep lasts at least as long as \<open>sleep_until\<close> asks
  for, the reads number at most the intervals in the seconds given, rounded up; what is returned is what each read returned, in
  order; every read was begun before the seconds had passed, and sampling stopped only once they had.\<close>

theorem sampling_ends:
  assumes "0 < interval" and "clock 0 \<le> clock 1" and "\<And>k. clock (3 * k + 1) \<le> clock (3 * k + 2)"
    and "\<And>k. clock (3 * k + 3) +
       (case sleep_until (clock (3 * k + 2)) interval (clock (3 * k + 3)) of Some r \<Rightarrow> r | None \<Rightarrow> 0) \<le> clock (3 * Suc k + 1)"
  shows "\<exists>n \<le> turns seconds interval. sample read clock seconds interval = Some (map read [0..<n]) \<and>
     clock 0 + seconds \<le> clock (3 * n + 1) \<and> (\<forall>j < n. clock (3 * j + 1) < clock 0 + seconds)"
  using assms by (rule sample_ends)

theorem sampling_ends_witness:
  "\<exists>n \<le> 10. sample (\<lambda>k. k) (\<lambda>k. 60 * int k) 1000 100 = Some [0..<n] \<and> 1000 \<le> 60 * int (3 * n + 1)"
proof -
  have "60 * int (3 * k + 3) + (case sleep_until (60 * int (3 * k + 2)) 100 (60 * int (3 * k + 3)) of Some r \<Rightarrow> r | None \<Rightarrow> 0)
      \<le> 60 * int (3 * Suc k + 1)" for k
    by (simp add: sleep_until_def Let_def)
  then show ?thesis
    using sampling_ends [of 100 "\<lambda>k. 60 * int k" 1000 "\<lambda>k. k"] by (auto simp: turns_def)
qed

text \<open>\<open>CommandFile\<close>: the lines of a new command file are the commands sent to it, in order and none lost, and no other
  file is changed; the commands have to be ASCII, else \<open>send\<close> raises, and without line breaks.\<close>

theorem commands_are_read_from_the_file:
  assumes "list_all (\<lambda>command. list_all (\<lambda>c. c < 128) command \<and> 10 \<notin> set command) commands"
  shows "\<exists>fs'. bindS (CommandFile pick) (\<lambda>path. send_commands path commands) fs = (Inr (), fs') \<and>
     read_lines [] (file_content (pick fs) fs') = map (map of_nat) commands \<and> (\<forall>other. other \<noteq> pick fs \<longrightarrow> fs' other = fs other)"
proof -
  have "list_all (list_all (\<lambda>c. c < 128)) commands"
    using assms by (simp add: list_all_iff)
  from send_commands_result [OF this, of "pick fs" "fs(pick fs \<mapsto> [])"] obtain fs'
    where "send_commands (pick fs) commands (fs(pick fs \<mapsto> [])) = (Inr (), fs')"
      and "file_content (pick fs) fs' = command_lines commands" and "\<forall>other. other \<noteq> pick fs \<longrightarrow> fs' other = fs other"
    by (auto simp: file_content_def)
  then show ?thesis
    using command_lines_read [OF assms] by (simp add: CommandFile_def bindS_def)
qed

theorem commands_are_read_from_the_file_witness:
  "\<exists>fs'. bindS (CommandFile (\<lambda>fs. ''commands-1.txt'')) (\<lambda>path. send_commands path [[97, 98], [99]]) Map.empty = (Inr (), fs') \<and>
     read_lines [] (file_content ''commands-1.txt'' fs') = [[97, 98], [99]]"
  using commands_are_read_from_the_file [of "[[97, 98], [99]]" "\<lambda>fs. ''commands-1.txt''" Map.empty] by auto

text \<open>An \<open>Endpoint\<close>, on any system whose \<open>getsockname\<close> reports dotted addresses: when the constructor does not raise, the socket
  is open, \<open>mac\<close> gives six octets, and \<open>mac_text\<close> of them is the address and the port the socket is bound to.\<close>

theorem socket_address_is_its_mac:
  assumes "reports_addresses binds" and "endpoint_socket binds port ip reuse = Inr s"
  shows "\<exists>m. socket_mac s = Inr m \<and> length m = 6 \<and> mac_text m = sock_ip s @ '':'' @ decimal (nat (sock_port s)) \<and> sock_open s"
  using assms by (rule endpoint_socket_mac)

theorem socket_address_is_its_mac_witness:
  "\<exists>s m. endpoint_socket (\<lambda>reuse asked. Some (inet_ntoa [10, 0, 0, 7], 47808)) 0 ''10.0.0.7'' False = Inr s \<and> socket_mac s = Inr m \<and> length m = 6"
proof -
  let ?binds = "\<lambda>(reuse :: bool) (asked :: address). Some (inet_ntoa [10, 0, 0, 7], 47808 :: int)"
  have b: "reports_addresses ?binds"
    unfolding reports_addresses_def by (auto intro!: exI [of _ "[10, 0, 0, 7]"])
  obtain s where s: "endpoint_socket ?binds 0 ''10.0.0.7'' False = Inr s"
    by (simp add: endpoint_socket_def bound_socket_def)
  then show ?thesis
    using socket_address_is_its_mac [OF b s] by auto
qed

end
