(* ===== verification/Spec2Isabelle.thy ===== *)
theory Spec2Isabelle
  imports Exchange_Multiple Services_Cov Alarm_Exchange Alarm_Summaries Peer_Thread_Laws Console_Laws Process Codec_Constants Component_Facts
begin

text \<open>
  Verification of \<open>wiretest\<close>, the Python harness of the BACnet B-ASC example
  (\<open>src/wiretest/\<close>): it speaks BACnet/IP to the example over UDP, plays the devices on the other side, and
  counts what passed.

  \<^bold>\<open>The program.\<close> \<open>codec.py\<close> encodes and decodes BVLL messages, NPDUs, tagged values and the APDUs of the basic
  services; \<open>services.py\<close> and \<open>alarm.py\<close> add the requests, answers and constructed values of the other services.
  \<open>endpoint.py\<close> is a UDP socket that keeps every frame it receives and waits for one that satisfies a predicate.
  \<open>client.py\<close> numbers confirmed requests, sends them, resends them, and returns the answer with the same invoke id.
  \<open>workstation.py\<close> is a client with a second thread that receives: it keeps event notifications, acknowledges them, and
  hands the answers to the request that waits. \<open>peer.py\<close> is the other side: \<open>SimulatedDevice\<close> answers Who-Is and reads of
  its Device object in a background thread; \<open>SimulatedServer\<close> adds objects a test controls, writes, command priorities, array
  elements and injected failures. \<open>wait.py\<close>, \<open>results.py\<close>, \<open>control.py\<close> and \<open>process.py\<close> poll, count, and drive the
  example under test.

  \<^bold>\<open>Theories.\<close>
  \<^item> \<open>Py_Prelude\<close>, \<open>Py_Text\<close>, \<open>Py_Float\<close>, \<open>Py_State\<close>: the part of Python the harness uses. Exceptions are values
    (\<open>'a result\<close>, \<open>Inl\<close> an exception), \<open>bytes\<close> are lists of octets (\<open>8 word\<close>), Python integers are \<open>int\<close>,
    \<open>struct\<close> and \<open>int.to_bytes\<close> are big-endian conversions with their range errors, text is a list of code
    points with UTF-8 and the \<open>errors="replace"\<close> decoder, floats are 64-bit patterns with rounding to single
    precision, and a method that changes its object is a state transformer that keeps the state when it raises.
  \<^item> \<open>Codec_Encode\<close>: the encoders of \<open>codec.py\<close>, one definition per function.
  \<^item> \<open>Codec_Tags\<close>: \<open>read_tag\<close> and its laws; the locale \<open>tag_reader\<close> is what the decoders rely on, interpreted on
    \<open>read_tag\<close>. \<open>Codec_Primitives\<close>: what each encoder of a primitive writes, as one tag.
  \<^item> \<open>Codec_Decode\<close>: the decoders. Their loops are \<open>scan_tags\<close> and \<open>close_loop\<close>, which terminate because a read
    advances. \<open>Codec_Roundtrip\<close>, \<open>Codec_Values\<close>, \<open>Codec_Access\<close>: requests, answers, values and access
    specifications read back; the locale \<open>primitive_codec\<close> is the contract of an application encoder,
    interpreted on each of them and on all of them at once. \<open>Codec_Safety\<close>: the exceptions that can leave the decoders.
  \<^item> \<open>Codec_Frame\<close>: class \<open>Frame\<close>, its round trips with \<open>bvlc\<close> and \<open>npdu\<close>, the invariant of a decoded frame, \<open>describe\<close>.
  \<^item> \<open>Scan_Loops\<close>: the loop shape of the later decoders, \<open>scan_to\<close>, whose body may move the position itself, and the loops over
    constructed data. A body that only moves forwards makes \<open>scan_to\<close> the plain loop of the source (\<open>scan_to_loop\<close>), and the
    collection \<open>advance_rules\<close> shows that of every body.
  \<^item> \<open>Services\<close>: all of \<open>services.py\<close>; \<open>Services_Multiple\<close>, \<open>Services_Values\<close>, \<open>Services_Cov\<close>: the answers of
    ReadPropertyMultiple, lighting commands, landing calls, file answers, COV notifications, and the exceptions of the parsers.
  \<^item> \<open>Alarm\<close>: all of \<open>alarm.py\<close>; \<open>Alarm_Laws\<close>: event notifications read back; \<open>Alarm_Summaries\<close>: the answer to
    GetEventInformation read back, against an encoder written from the standard with the encoders of \<open>codec.py\<close>.
  \<^item> \<open>Address\<close>: \<open>mac\<close> with the \<open>inet_aton\<close> it calls, and the round trip with \<open>mac_text\<close>.
  \<^item> \<open>Peer_Device\<close>: class \<open>SimulatedDevice\<close>; the thread is generic in \<open>_answer\<close>, and the locale
    \<open>answering_device\<close> states what it relies on in it. \<open>Peer_Server\<close>: class \<open>SimulatedServer\<close>, state and
    operations. \<open>Peer_Laws\<close>: its frame conditions, the invariant of the commandable objects, the
    interpretation of \<open>answering_device\<close>.
  \<^item> \<open>Peer_Thread\<close>: the serving thread with its two sockets and \<open>stop()\<close>, as steps of the thread, the test and the network;
    \<open>Peer_Thread_Laws\<close>: every interleaving is a sequential one, and what \<open>stop()\<close> guarantees.
  \<^item> \<open>Sockets\<close>: opening, naming and closing the sockets of all classes. \<open>Codec_Constants\<close>: the constants of \<open>codec.py\<close> that only tests
    use.
  \<^item> \<open>Endpoint\<close>, \<open>Client\<close>: classes \<open>Endpoint\<close>, \<open>Answer\<close>, \<open>ConfirmedServices\<close> and \<open>Client\<close>; the locale \<open>retrying\<close> is the contract
    of one attempt of the retry loop.
  \<^item> \<open>Workstation\<close>: class \<open>Workstation\<close>, one definition per method; \<open>Workstation_Steps\<close>: its two threads as a step relation,
    with invariants by rule induction over every run; \<open>Workstation_Laws\<close>: what a call does and that it is such a run.
  \<^item> \<open>Exchange\<close>, \<open>Exchange_Multiple\<close>: a client's request served by a server and the reply read by the client, and the abstract
    specification \<open>spec_value\<close> of a commandable Present_Value as a function of the history of commands.
  \<^item> \<open>Alarm_Exchange\<close>: a simulated panel, a workstation and the panel again: a notification from its encoder to the list of
    acknowledgements.
  \<^item> \<open>Harness\<close>, \<open>Harness_Laws\<close>: waits, samples, results, control channels and the waits on a console; the locale \<open>polling\<close> is the
    shape of the four polling loops, interpreted on each.
  \<^item> \<open>Console\<close>, \<open>Console_Laws\<close>: the regular expressions over a console as matchers, \<open>broadcast_address\<close> and \<open>IAmBroadcasts\<close>; the
    locale \<open>line_matcher\<close> is what makes repeated search count lines, interpreted on \<open>console_line\<close>.
  \<^item> \<open>Process\<close>: class \<open>Program\<close>, \<open>start\<close> and \<open>default_exe\<close>, and the laws of \<open>CommandFile\<close>. What the operating system and the child
    do are arguments.
  \<^item> \<open>Component_Facts\<close>: further theorems about single components.

  \<^bold>\<open>Correspondence.\<close> Definitions keep the names of the source; \<open>opening\<close> and \<open>closing\<close> are \<open>opening_tag\<close> and
  \<open>closing_tag\<close>, a leading underscore is dropped (\<open>_constructed_end\<close> is \<open>constructed_end\<close>, \<open>alarm._bits\<close> is \<open>alarm_bits\<close>), the
  methods of \<open>SimulatedDevice\<close> and \<open>SimulatedServer\<close> have the prefixes \<open>device_\<close> and \<open>server_\<close> where both classes define
  them, the properties of \<open>Answer\<close> the prefix \<open>answer_\<close> where \<open>Frame\<close> has the same name, the methods of \<open>Workstation\<close> the prefix
  \<open>ws_\<close> where \<open>Client\<close> has the same name; \<open>record\<close>, \<open>summary\<close> and \<open>SimulationControl.send\<close> are \<open>record_result\<close>,
  \<open>results_summary\<close> and \<open>control_send\<close>. The body of a loop over tags is a definition of its own, with the suffix \<open>_step\<close>. The
  network is an argument: what arrives while a client waits (\<open>arrivals\<close>), what reaches a server (\<open>datagrams\<close>). A wait for
  datagrams ends when its arrivals are used up, which is its deadline, so no fuel is needed. The polling loops read a clock,
  the argument \<open>clock\<close> of their definitions; they are partial functions, and the theorems show that they return when
  sleeping advances the clock. What the callables of a test return is the argument \<open>env\<close> of the server. Client and
  server together (\<open>Exchange\<close>) take each datagram as one step; the interleaved model of \<open>Peer_Thread\<close> has one step for receiving and
  keeping a frame and one for its answer, and a change by the test falls between two steps: the lock of \<open>peer.py\<close> protects the
  lists of frames, so only changes that are independent of them are admitted. For the workstation, whose two threads share state, the steps are the sections between two points
  where the other thread may run.

  \<^bold>\<open>Theorems.\<close> C1 to C5: what a client and a server do together (commands against the priority specification, values written
  and read back, the invariant over every run, several properties read at once). C6 to C11: the workstation (an alarm from the
  panel and its acknowledgement back, acknowledgements and answers in every interleaving, the call of \<open>request\<close> as a run, finding
  an answer, the types of its state). C12 to C20: the server and the device (the frame condition and the branches, the serving
  thread against the sequential device, \<open>stop()\<close>, where replies go). C21 to C24: the client (matching, resending, finding an
  answer, invoke ids). C25 to C31: the codec (requests, values, notifications and event summaries read back, loops that agree,
  frames, bounds of integers). C32 to C35: malformed input (exceptions on arbitrary octets, what they do to a workstation). C36 to
  C40: the harness (starting and stopping an example, waits that end, heartbeats, commands to the simulation, the exit code).

  \<^bold>\<open>Not modelled.\<close> What the operating system does: the delivery of datagrams, \<open>bind\<close>, processes and files are arguments, and an
  arrival is what \<open>recvfrom\<close> delivers; blocking is the choice of the next step. Python's \<open>repr\<close> is an argument of \<open>answer_describe\<close>
  and the platform's text encoding one of \<open>program_output\<close>. A change a test makes in the middle of one call of \<open>_answer\<close> is not a
  step. The re-exports of \<open>__init__.py\<close>, the tests, and the TypeScript example with the BACnet stack are left out. The clock of the
  waits counts ticks: sums of Python floats are not rounded.
\<close>

section \<open>Client and server together\<close>











section \<open>The workstation\<close>

text \<open>C6. An alarm from the panel to the workstation and back. When a \<open>SimulatedDevice\<close> sends an event notification it encoded,
  confirmed or not, to a workstation whose thread runs, the workstation keeps the notification with the panel's fields. If the
  notification is confirmed and the workstation answers notifications, its SimpleACK reaches the panel, and \<open>simple_acks\<close> of the
  panel lists exactly one more acknowledgement: the invoke id of the notification, from the address of the workstation. Otherwise
  it lists none more. No call raises.\<close>

theorem alarm_is_reported_and_acknowledged:
  assumes "valid_event e" and "event_notification e = Inr apdu" and "length apdu < 65000" and "thread_alive w"
    and "simple_acks d SERVICE_CONFIRMED_EVENT_NOTIFICATION = Inr acks"
  shows "\<exists>f w' d'. report_event panel station e w d = (None, w', d') \<and> payload f = apdu \<and> source f = panel \<and>
     notifications w' = notifications w @ [reported_event f e] \<and>
     simple_acks d' SERVICE_CONFIRMED_EVENT_NOTIFICATION =
       Inr (acks @ (if ev_confirmed e \<and> answer_notifications w then [(Some (ev_invoke_id e), station)] else []))"
  by (rule event_reported [OF assms]) blast

theorem alarm_is_reported_and_acknowledged_witness:
  "\<exists>w d. report_event (''10.0.0.1'', 47808) (''10.0.0.2'', 47808) ((event_defaults 900 (0, 1) EVENT_STATE_HIGH_LIMIT)\<lparr>ev_confirmed := True, ev_invoke_id := 9, ev_notify_type := NOTIFY_TYPE_ACK_NOTIFICATION\<rparr>)
       (Workstation True 2) (SimulatedDevice 900 [] 389) = (None, w, d) \<and>
     simple_acks d SERVICE_CONFIRMED_EVENT_NOTIFICATION = Inr [(Some 9, (''10.0.0.2'', 47808))]"
proof -
  let ?e = "(event_defaults 900 (0, 1) EVENT_STATE_HIGH_LIMIT)\<lparr>ev_confirmed := True, ev_invoke_id := 9, ev_notify_type := NOTIFY_TYPE_ACK_NOTIFICATION\<rparr>"
  have "float_of_single 0x42BE0000 = 0x4057C00000000000" "float_of_single 0x42B40000 = 0x4056800000000000"
    by (simp_all add: float_of_single_def widen_magnitude_def)
  then have "is_single 0x4057C00000000000" "is_single 0x4056800000000000"
    using is_single_float_of_single [of "0x42BE0000"] is_single_float_of_single [of "0x42B40000"] by (simp_all add: is_nan_single_def)
  moreover have "succeeds (event_stamp ?e)"
    by code_simp
  ultimately have v: "valid_event ?e"
    by (simp add: valid_event_def event_defaults_def is_octet_def is_unsigned_def valid_object_id_def)
  then obtain apdu where apdu: "event_notification ?e = Inr apdu"
    using event_notification_ok by blast
  have "int (length (projr (event_notification ?e))) < 65000"
    by code_simp
  then have "length apdu < 65000"
    using apdu by simp
  moreover have "simple_acks (SimulatedDevice 900 [] 389) SERVICE_CONFIRMED_EVENT_NOTIFICATION = Inr []"
    by (simp add: simple_acks_def device_frames_def SimulatedDevice_def)
  ultimately obtain w d where "report_event (''10.0.0.1'', 47808) (''10.0.0.2'', 47808) ?e (Workstation True 2) (SimulatedDevice 900 [] 389) = (None, w, d)"
      "simple_acks d SERVICE_CONFIRMED_EVENT_NOTIFICATION = Inr [(Some (ev_invoke_id ?e), (''10.0.0.2'', 47808))]"
    using alarm_is_reported_and_acknowledged [OF v apdu, of "Workstation True 2" "SimulatedDevice 900 [] 389" "[]" "(''10.0.0.1'', 47808)" "(''10.0.0.2'', 47808)"]
    by (auto simp: Workstation_def event_defaults_def simp del: split_paired_Ex)
  then show ?thesis
    by (auto simp: event_defaults_def simp del: split_paired_Ex)
qed

text \<open>C7. Acknowledgements, in every interleaving of the two threads of a workstation, whatever arrives: the
  acknowledgements sent so far, followed by the one the thread is about to send if any, are exactly those of the confirmed
  notifications kept, one for each and in their order. A workstation made with \<open>answer_notifications=False\<close> sends none.\<close>

theorem confirmed_notifications_are_acknowledged_once:
  assumes "ws_run (ws_start answering n) events s"
  shows "map Inr (acknowledged events @ (case pending s of None \<Rightarrow> [] | Some ack \<Rightarrow> [ack])) =
     (if answering then map (\<lambda>x. ack_datagram (n_frame x)) (filter n_confirmed (notifications s)) else [])"
  using ws_run_acks [OF assms] by (simp add: acks_match_def due_def acknowledgements_def)

theorem confirmed_notifications_are_acknowledged_once_witness:
  "\<exists>s f x. ws_run (ws_start True 0) [Arrived (Datagram [0x81, 0x0A, 0, 10, 1, 4, 0, 5, 9, 2] (''10.0.0.1'', 47808))] s \<and>
     map n_frame (notifications s) = [f] \<and> pending s = Some x \<and> ack_datagram f = Inr x"
proof -
  let ?a = "Datagram [0x81, 0x0A, 0, 10, 1, 4, 0, 5, 9, 2] (''10.0.0.1'', 47808)"
  obtain ack s' where t: "ws_turn ?a (ws_start True 0) = (ack, s')"
    by (cases "ws_turn ?a (ws_start True 0)")
  have run: "ws_run (ws_start True 0) [Arrived ?a] (s'\<lparr>pending := ack\<rparr>)"
    using t by (intro ws_run_step1 ws_step.receive) simp_all
  obtain f where f: "Frame [0x81, 0x0A, 0, 10, 1, 4, 0, 5, 9, 2] (''10.0.0.1'', 47808) = Inr f" "ok f" "network_message f = None" "payload f = [0, 5, 9, 2]"
    by (simp add: Frame_def initial_frame_def BVLC_FUNCTIONS_WITH_NPDU_def decode_npdu_def)
  then have e: "is_event_notification f = Inr True" "EventNotification f = Inr (event_initial f True (Some 9))"
    by (simp_all add: is_event_notification_def EventNotification_def pdu_type_def service_def invoke_id_def scan_to_end)
  then have p: "pdu_type f = Some PDU_CONFIRMED_REQUEST"
    using EventNotification_frame(2) [OF e(2)] by (simp add: event_initial_def)
  obtain x where x: "ack_datagram f = Inr (x, source f)"
    using ack_datagram_ok [OF e(1) p] by blast
  have "notifications s' = [event_initial f True (Some 9)] \<and> ack = Some (x, source f)"
    using t f e x by (auto simp: ws_turn_def serve_arrival_def keep_received_def event_initial_def)
  moreover have "map Inr (case ack of None \<Rightarrow> [] | Some ack \<Rightarrow> [ack]) =
      map (\<lambda>x. ack_datagram (n_frame x)) (filter n_confirmed (notifications s'))"
    using confirmed_notifications_are_acknowledged_once [OF run] by simp
  ultimately show ?thesis
    using run by (intro exI [of _ "s'\<lparr>pending := ack\<rparr>"] exI [of _ f] exI [of _ "(x, source f)"]) (simp add: event_initial_def)
qed





text \<open>C10. Liveness of \<open>Workstation.request\<close>: during the first attempt any traffic arrives (notifications, answers
  to other requests, broken datagrams that do not end the thread), then an answer with the invoke id of the request. The
  request returns that answer, and the state it leaves is the one in which the other traffic has been received.\<close>

theorem workstation_request_finds_the_answer:
  assumes "drop_responses ((ws_invoke_id w + 1) mod 256) (responses w) = Inr fs"
    and "build ((ws_invoke_id w + 1) mod 256) = Inr apdu" and "request_datagram apdu None [] = Inr octets"
    and "arrivals 0 = traffic @ Datagram data src # rest"
    and "take_response ((ws_invoke_id w + 1) mod 256)
      (responses (fold ws_receive traffic (requested ((ws_invoke_id w + 1) mod 256) fs octets dst w))) = Inr None"
    and "thread_alive (fold ws_receive traffic (requested ((ws_invoke_id w + 1) mod 256) fs octets dst w))"
    and "Frame data src = Inr f" and "is_response f" and "invoke_id f = Inr (Some ((ws_invoke_id w + 1) mod 256))"
  shows "ws_request build dst arrivals w =
     (Inr (Some f), fold ws_receive traffic (requested ((ws_invoke_id w + 1) mod 256) fs octets dst w))"
  using assms by (rule ws_request_finds)

theorem workstation_request_finds_the_answer_witness:
  "\<exists>f w. ws_request (\<lambda>i. Inr [0, 5, 1, 20]) (''10.0.0.1'', 47808) (\<lambda>k. [ConnectionReset, Datagram [0x81, 0x0A, 0, 9, 1, 0, 0x20, 1, 20] (''10.0.0.1'', 47808)]) (Workstation True 0) = (Inr (Some f), w) \<and>
     invoke_id f = Inr (Some 1)"
proof -
  obtain octets where o: "request_datagram [0, 5, 1, 20] None [] = Inr octets"
    by (rule request_datagram_frame [of "[0, 5, 1, 20]"]) auto
  obtain f where f: "Frame [0x81, 0x0A, 0, 9, 1, 0, 0x20, 1, 20] (''10.0.0.1'', 47808) = Inr f" "ok f" "network_message f = None" "payload f = [0x20, 1, 20]"
    by (simp add: Frame_def initial_frame_def BVLC_FUNCTIONS_WITH_NPDU_def decode_npdu_def)
  then have r: "pdu_type f = Some PDU_SIMPLE_ACK" "invoke_id f = Inr (Some 1)"
    by (simp_all add: pdu_type_def invoke_id_def drop_bit_eq_div)
  then have "is_response f"
    using f by (simp add: is_response_def RESPONSE_TYPES_def)
  moreover have "ws_receive ConnectionReset w = w" for w :: workstation
    by (simp add: ws_receive_def ws_turn_def serve_arrival_def)
  ultimately show ?thesis
    using workstation_request_finds_the_answer [of "Workstation True 0" "[]" "\<lambda>i. Inr [0, 5, 1, 20]" "[0, 5, 1, 20]" octets
        "\<lambda>k. [ConnectionReset, Datagram [0x81, 0x0A, 0, 9, 1, 0, 0x20, 1, 20] (''10.0.0.1'', 47808)]" "[ConnectionReset]" "[0x81, 0x0A, 0, 9, 1, 0, 0x20, 1, 20]" "(''10.0.0.1'', 47808)" "[]" "(''10.0.0.1'', 47808)" f] o f r
    by (auto simp: Workstation_def requested_def)
qed

text \<open>C11. The types of the workstation's state, in every interleaving and whatever arrives: the list of answers holds
  decoded APDUs of the answer types only, the list of notifications holds event notifications only, each the decoding of the
  frame it came in, the invoke id is an octet, and what a request returns is an answer.\<close>

theorem workstation_state_is_typed:
  assumes "ws_run (ws_start answering n) events s"
  shows "(\<forall>f \<in> set (responses s). ok f \<and> network_message f = None \<and> pdu_type f \<in> Some ` RESPONSE_TYPES) \<and>
     (\<forall>x \<in> set (notifications s). is_event_notification (n_frame x) = Inr True \<and> EventNotification (n_frame x) = Inr x) \<and>
     0 \<le> ws_invoke_id s \<and> ws_invoke_id s < 256 \<and>
     (\<forall>f. main s = Returned (Some f) \<longrightarrow> pdu_type f \<in> Some ` RESPONSE_TYPES)"
  using ws_run_typed [OF assms ws_start_typed]
  by (auto simp: ws_typed_def list_all_iff is_response_def is_notification_def is_octet_def)

theorem workstation_state_is_typed_witness:
  "\<exists>s f. ws_run (ws_start False 0) [Arrived (Datagram [0x81, 0x0A, 0, 9, 1, 0, 0x20, 1, 20] (''10.0.0.1'', 47808))] s \<and> responses s = [f] \<and> pdu_type f \<in> Some ` RESPONSE_TYPES"
proof -
  let ?d = "Datagram [0x81, 0x0A, 0, 9, 1, 0, 0x20, 1, 20] (''10.0.0.1'', 47808)"
  obtain f where f: "Frame [0x81, 0x0A, 0, 9, 1, 0, 0x20, 1, 20] (''10.0.0.1'', 47808) = Inr f" "ok f" "network_message f = None" "payload f = [0x20, 1, 20]"
    by (simp add: Frame_def initial_frame_def BVLC_FUNCTIONS_WITH_NPDU_def decode_npdu_def)
  then have "is_response f"
    by (simp add: is_response_def RESPONSE_TYPES_def pdu_type_def drop_bit_eq_div)
  then have turn: "ws_turn ?d (ws_start False 0) = (None, (ws_start False 0)\<lparr>responses := [f]\<rparr>)"
    using f response_not_event by (simp add: ws_turn_def serve_arrival_def keep_received_def is_response_def)
  have run: "ws_run (ws_start False 0) [Arrived ?d] ((ws_start False 0)\<lparr>responses := [f], pending := None\<rparr>)"
    using ws_run_step1 [OF ws_step.receive [OF _ _ turn]] by simp
  show ?thesis
    using workstation_state_is_typed [OF run] run by auto
qed

section \<open>The branches of the server and of the device\<close>

text \<open>C12. Frame condition of \<open>_answer\<close>: unless the frame is a confirmed WriteProperty, answering it
  changes neither the objects nor the priority arrays, the Relinquish_Defaults, the set of commandable objects
  or the writable properties, even when an exception is raised on the way.\<close>

theorem only_writes_change_the_served_data:
  assumes "pdu_type f \<noteq> Some PDU_CONFIRMED_REQUEST \<or> service f \<noteq> Inr (Some SERVICE_WRITE_PROPERTY)"
  shows "served_data (snd (server_answer env f s)) = served_data s"
  using assms by (rule server_answer_keeps_data)

theorem only_writes_change_the_served_data_witness:
  "\<forall>s :: server. served_data (snd (server_answer (\<lambda>_. []) (initial_frame [] (''10.0.0.2'', 47808)) s)) = served_data s"
proof
  fix s :: server
  show "served_data (snd (server_answer (\<lambda>_. []) (initial_frame [] (''10.0.0.2'', 47808)) s)) = served_data s"
    by (rule only_writes_change_the_served_data) (simp add: pdu_type_def initial_frame_def)
qed



text \<open>C14. Mode "offline": a ReadProperty gets no answer at all, \<open>requests_while_offline\<close> counts it, and
  what the server serves is unchanged.\<close>

theorem offline_server_is_silent:
  assumes "is_octet i" and "valid_object_id ot inst" and "is_unsigned p" and "pred_option is_unsigned idx" and "mode s = Offline"
  shows "\<exists>apdu t. read_property_request i ot inst p idx = Inr apdu \<and> exchange env me peer apdu s = (Inr None, t) \<and>
     requests_while_offline t = requests_while_offline s + 1 \<and> served_data t = served_data s"
proof -
  obtain apdu params where apdu: "read_property_request i ot inst p idx = Inr apdu"
    "apdu = [0, 5, word_of_int i, word_of_int SERVICE_READ_PROPERTY] @ params" "length apdu < 65000"
    by (rule read_request_parameters [OF assms(1-4)])
  let ?t = "\<lambda>f. (keep_frame False f s)\<lparr>requests_while_offline := requests_while_offline s + 1\<rparr>"
  have ans: "server_answer env f (keep_frame False f s) = (Inr None, ?t f)"
    if f: "confirmed_frame f i SERVICE_READ_PROPERTY params" for f
    using server_answer_offline [OF f, of "keep_frame False f s" None env] assms(5) by simp
  have pre: "is_octet SERVICE_READ_PROPERTY"
    by (simp add: is_octet_def)
  obtain f where "exchange env me peer apdu s = (Inr None, ?t f)"
    using exchange_silent [OF apdu(2) assms(1) pre apdu(3) ans, of me peer] by blast
  then show ?thesis
    using apdu(1) by (auto simp: served_data_def)
qed

theorem offline_server_is_silent_witness:
  "\<exists>s apdu t. SimulatedServer 900 [] 389 [(2, 3) \<mapsto> [PROPERTY_PRESENT_VALUE \<mapsto> Octets [0x21, 0x05]]] None None False = Inr s \<and>
     read_property_request 1 2 3 PROPERTY_PRESENT_VALUE None = Inr apdu \<and>
     exchange (\<lambda>_. []) (''10.0.0.2'', 47808) (''10.0.0.1'', 47808) apdu (s\<lparr>mode := Offline\<rparr>) = (Inr None, t) \<and> requests_while_offline t = 1"
proof -
  obtain s where s: "SimulatedServer 900 [] 389 [(2, 3) \<mapsto> [PROPERTY_PRESENT_VALUE \<mapsto> Octets [0x21, 0x05]]] None None False = Inr s"
      "requests_while_offline s = 0"
    by (simp add: SimulatedServer_def)
  show ?thesis
    using offline_server_is_silent [of 1 2 3 PROPERTY_PRESENT_VALUE None "s\<lparr>mode := Offline\<rparr>" "\<lambda>_. []" "(''10.0.0.2'', 47808)" "(''10.0.0.1'', 47808)"] s
    by (simp add: is_octet_def valid_object_id_def is_unsigned_def) blast
qed

text \<open>C15. A commanded write at a priority above 16: \<open>_write\<close> stores the value as Present_Value first and
  then indexes the sixteen slots, so it raises \<open>IndexError\<close> with the Present_Value already replaced and the
  priority array as it was; the invariant of the commandable objects does not survive it.\<close>

theorem command_beyond_the_array_raises:
  assumes "server_inv s" and "is_commanded s w" and "application_tag (value_octets w) = Inr tag"
    and "objects s (object_type w, instance_number w) = Some props" and "write_refusal s props w = None"
    and "priority w = Some p" and "16 < p"
  shows "\<exists>t. server_write f (Some w) s = (Inl IndexError, t) \<and> priority_arrays t = priority_arrays s \<and>
     stored_property t (object_type w, instance_number w) PROPERTY_PRESENT_VALUE = Some (Octets (value_octets w))"
proof -
  have pv: "property_identifier w = PROPERTY_PRESENT_VALUE" and "object_inv s (write_key w)"
    using assms(1,2) by (auto simp: is_commanded_def server_inv_def split: option.splits)
  then obtain slots where slots: "priority_arrays s (write_key w) = Some slots" "length slots = 16"
    by (auto elim: object_invE)
  let ?s = "store_property (write_key w) (property_identifier w) (Octets (value_octets w)) s"
  have "command_slot (write_key w) w (tag = Some TAG_NULL) ?s = (Inl IndexError, ?s)"
    using slots assms(6,7) by (intro command_slot_beyond) (auto simp: effective_priority_def)
  then have "server_write f (Some w) s = (Inl IndexError, ?s)"
    using server_write_cases [OF assms(3), of f s] assms(2,4,5) by (simp add: Let_def null_ignored_def bindS_def)
  then show ?thesis
    using pv by (simp add: stored_property_store)
qed

theorem command_beyond_the_array_raises_witness:
  "\<exists>s t. SimulatedServer 900 [] 389 [(1, 1) \<mapsto> [PROPERTY_PRESENT_VALUE \<mapsto> Octets [0x21, 0x05]]] None (Some [(1, 1)]) False = Inr s \<and>
     server_write (initial_frame [] (''10.0.0.2'', 47808)) (Some (write_of 1 1 PROPERTY_PRESENT_VALUE [0x21, 0x07] (Some 17) None)) s = (Inl IndexError, t) \<and>
     stored_property t (1, 1) PROPERTY_PRESENT_VALUE = Some (Octets [0x21, 0x07])"
proof -
  let ?w = "write_of 1 1 PROPERTY_PRESENT_VALUE [0x21, 0x07] (Some 17) None"
  let ?props = "[PROPERTY_PRESENT_VALUE \<mapsto> Octets [0x21, 0x05]] :: int \<rightharpoonup> served_value"
  obtain s where s: "SimulatedServer 900 [] 389 [(1, 1) \<mapsto> ?props] None (Some [(1, 1)]) False = Inr s"
      "objects s (1, 1) = Some ?props" "commandable s = Some {(1, 1)}" "mode s = Online" "writable s = None"
    by (simp add: SimulatedServer_def)
  have tag: "application_tag [0x21, 0x07] = Inr (Some 2)"
    by code_simp
  have "\<exists>t. server_write (initial_frame [] (''10.0.0.2'', 47808)) (Some ?w) s = (Inl IndexError, t) \<and> priority_arrays t = priority_arrays s \<and>
      stored_property t (object_type ?w, instance_number ?w) PROPERTY_PRESENT_VALUE = Some (Octets (value_octets ?w))"
    by (rule command_beyond_the_array_raises [OF SimulatedServer_inv [OF s(1)], of ?w "Some 2" ?props 17])
      (use s tag in \<open>simp_all add: is_commanded_def write_refusal_def check_write_def\<close>)
  then show ?thesis
    using s(1) by auto
qed





text \<open>C18. A server never sends to an address it has not heard from: in every interleaving of its thread with the network, the test
  and \<open>stop()\<close>, every datagram it has sent went to the source of a datagram that had arrived on one of its sockets.\<close>

theorem every_reply_goes_to_a_sender:
  assumes "dev_run (server_answer env) (dev_start d bc) es s" and "(octets, dst) \<in> set (dev_sent s)"
  shows "\<exists>sk data. Arriving sk (Datagram data dst) \<in> set es"
proof -
  have "dst \<in> (\<lambda>(data, src, heard). src) ` set (taken es)"
    using srv.run_destinations [OF assms(1)] imageI [OF assms(2), of snd] by auto
  then obtain data heard where "(data, dst, heard) \<in> set (taken es)"
    by auto
  then show ?thesis
    using taken_came [OF assms(1)] by blast
qed

theorem every_reply_goes_to_a_sender_witness:
  "\<exists>(d :: server) es s octets. dev_run (server_answer (\<lambda>_. [])) (dev_start d False) es s \<and> dev_sent s = [(octets, (''10.0.0.1'', 47808))] \<and>
     (\<exists>sk data. Arriving sk (Datagram data (''10.0.0.1'', 47808)) \<in> set es)"
proof -
  obtain d where d: "SimulatedServer 900 [] 389 (\<lambda>_. None) None None False = Inr d" "mode d = Online" "failures d = []"
      "device_instance d = 900" "vendor_identifier d = 389"
    by (simp add: SimulatedServer_def)
  obtain f where f: "Frame [0x81, 0x0B, 0, 8, 1, 0, 0x10, 8] (''10.0.0.1'', 47808) = Inr f" "ok f" "network_message f = None" "payload f = [0x10, 8]" "source f = (''10.0.0.1'', 47808)"
    by (simp add: Frame_def initial_frame_def BVLC_FUNCTIONS_WITH_NPDU_def decode_npdu_def)
  obtain apdu where apdu: "i_am 900 389 1476 3 = Inr apdu" "int (length apdu) < 65000"
  proof -
    have "succeeds (i_am 900 389 1476 3)" "int (length (projr (i_am 900 389 1476 3))) < 65000"
      by code_simp+
    then show thesis
      using that by (cases "i_am 900 389 1476 3") auto
  qed
  let ?d = "keep_frame False f d"
  have "who_is_limits [] = Inr []"
    by (simp add: who_is_limits_def scan_tags_end)
  then have "device_answer f ?d = (Inr (Some apdu), ?d)"
    using device_answer_who_is [of f "[0x10, 8]" ?d] f d apdu(1) by (simp add: device_who_is_def keep_frame_def)
  moreover have "pdu_type f = Some PDU_UNCONFIRMED_REQUEST"
    using f by (simp add: pdu_type_def drop_bit_eq_div)
  ultimately have answer: "server_answer (\<lambda>_. []) f ?d = (Inr (Some apdu), ?d)"
    using d by (simp add: server_answer_def Let_def keep_frame_def)
  have "length apdu < 65000"
    using apdu(2) by simp
  then obtain datagram where r: "reply f apdu = Inr (datagram, source f)"
    by (rule reply_decodes [OF Frame_wf [OF f(1), THEN conjunct1]]) blast
  obtain es s where s: "dev_run (server_answer (\<lambda>_. [])) (dev_start d False) es s" "dev_sent s = [(datagram, source f)]"
    using one_reply_run [OF f(1-3), of "server_answer (\<lambda>_. [])" d apdu ?d, OF answer r, of False] by blast
  show ?thesis
    using every_reply_goes_to_a_sender [OF s(1), of datagram "source f"] s f(5)
    by (intro exI [of _ d] exI [of _ es] exI [of _ s] exI [of _ datagram]) simp
qed

text \<open>C19. Routing of replies (clauses 6.5.2 and 6.5.4): the reply to a request is a datagram, sent to the
  source of the request, that decodes to an APDU frame with the answer as payload; its destination network and
  address are the source network and address of the request, and it has none when the request had none.\<close>

theorem reply_retraces_the_request:
  assumes "Frame data src = Inr req" and "length apdu < 65000"
  shows "\<exists>datagram f. reply req apdu = Inr (datagram, src) \<and> Frame datagram peer = Inr f \<and>
     ok f \<and> network_message f = None \<and> payload f = apdu \<and>
     dnet f = snet req \<and> dadr f = (if snet req = None then [] else sadr req) \<and> snet f = None"
proof -
  have wf: "frame_wf req" and "source req = src"
    using Frame_wf [OF assms(1)] by auto
  moreover obtain datagram f where "reply req apdu = Inr (datagram, source req)" "\<And>a. Frame datagram a = Inr (f a)"
      "\<And>a. reply_frame req apdu a (f a)"
    using reply_decodes [OF wf assms(2)] by blast
  ultimately show ?thesis
    by (intro exI [of _ datagram] exI [of _ "f peer"]) (simp add: reply_frame_def)
qed

theorem reply_retraces_the_request_witness:
  "\<exists>req datagram f.
     Frame [0x81, 0x0A, 0, 12, 1, 0x08, 0, 5, 1, 0x63, 0x10, 0x08] (''10.0.0.2'', 47808) = Inr req \<and>
     reply req [0x10, 0x00] = Inr (datagram, (''10.0.0.2'', 47808)) \<and> Frame datagram (''10.0.0.1'', 47808) = Inr f \<and>
     dnet f = Some 5 \<and> dadr f = [0x63] \<and> payload f = [0x10, 0x00]"
proof -
  have "\<exists>req. Frame [0x81, 0x0A, 0, 12, 1, 0x08, 0, 5, 1, 0x63, 0x10, 0x08] (''10.0.0.2'', 47808) = Inr req \<and>
      snet req = Some 5 \<and> sadr req = [0x63]"
    by (simp add: Frame_def initial_frame_def BVLC_FUNCTIONS_WITH_NPDU_def decode_npdu_def read_address_def py_slice_def
        int_from_bytes_def)
  then obtain req where r: "Frame [0x81, 0x0A, 0, 12, 1, 0x08, 0, 5, 1, 0x63, 0x10, 0x08] (''10.0.0.2'', 47808) = Inr req"
      "snet req = Some 5" "sadr req = [0x63]"
    by blast
  show ?thesis
    using reply_retraces_the_request [OF r(1), of "[0x10, 0x00]" "(''10.0.0.1'', 47808)"] r by auto
qed

text \<open>C20. Who-Is: a device answers a Who-Is without limits, or with limits that include its instance, with
  an I-Am from which its instance is read, and answers nothing when the instance is outside the limits; its state
  does not change.\<close>

theorem who_is_is_answered_in_range:
  assumes "pred_option (\<lambda>(low, high). is_unsigned low \<and> is_unsigned high) limits"
    and "0 \<le> device_instance d" and "device_instance d \<le> MAX_INSTANCE" and "is_unsigned (vendor_identifier d)"
    and "who_is limits = Inr apdu" and "network_message f = None" and "payload f = apdu"
  shows "if (case limits of None \<Rightarrow> True | Some (low, high) \<Rightarrow> low \<le> device_instance d \<and> device_instance d \<le> high)
     then \<exists>answer. device_answer f d = (Inr (Some answer), d) \<and> i_am_device_instance answer = Inr (Some (device_instance d))
     else device_answer f d = (Inr None, d)"
proof -
  have head: "take 2 apdu = [0x10, 0x08]"
    and lim: "who_is_limits (drop 2 (payload f)) = Inr (case limits of None \<Rightarrow> [] | Some (low, high) \<Rightarrow> [low, high])"
    using who_is_limits_read [OF assms(1)] assms(5,7) by auto
  have answer: "device_answer f d = (device_who_is d f, d)"
    using device_answer_who_is [OF assms(6,7) head] .
  obtain octets where octets: "i_am (device_instance d) (vendor_identifier d) 1476 3 = Inr octets"
      "i_am_device_instance octets = Inr (Some (device_instance d))"
    using i_am_decodes [OF assms(2,3,4), of 1476 3] by (auto simp: is_unsigned_def bindR_Inr_iff)
  show ?thesis
    unfolding answer device_who_is_def lim using octets by (cases limits) auto
qed

theorem who_is_is_answered_in_range_witness:
  "\<exists>apdu f. who_is (Some (800, 1000)) = Inr apdu \<and> payload f = apdu \<and>
     (\<exists>answer. device_answer f \<lparr>device_instance = 900, object_name = [], vendor_identifier = 389, received = [], received_on_broadcast = []\<rparr> =
        (Inr (Some answer), \<lparr>device_instance = 900, object_name = [], vendor_identifier = 389, received = [], received_on_broadcast = []\<rparr>) \<and>
        i_am_device_instance answer = Inr (Some 900))"
proof -
  let ?d = "\<lparr>device_instance = 900, object_name = [], vendor_identifier = 389, received = [], received_on_broadcast = []\<rparr> :: device"
  have "\<exists>apdu. who_is (Some (800, 1000)) = Inr apdu"
    by (rule who_is_limits_read [of "Some (800, 1000)"]) (auto simp: is_unsigned_def)
  then obtain apdu where apdu: "who_is (Some (800, 1000)) = Inr apdu"
    by blast
  let ?f = "(initial_frame [] (''10.0.0.2'', 47808))\<lparr>payload := apdu\<rparr>"
  have "\<exists>answer. device_answer ?f ?d = (Inr (Some answer), ?d) \<and> i_am_device_instance answer = Inr (Some 900)"
    using who_is_is_answered_in_range [OF _ _ _ _ apdu, of ?d ?f] by (simp add: is_unsigned_def initial_frame_def)
  then show ?thesis
    using apdu by (intro exI [of _ apdu] exI [of _ ?f]) simp
qed

section \<open>The client\<close>

text \<open>C21. \<open>Client.request\<close> never returns the answer to another request: the frame it returns is a decoded
  ComplexACK, SimpleACK, Error, Reject or Abort that carries the invoke id the request was sent with.\<close>

theorem answers_match_the_request:
  assumes "build ((invoke_counter c + 1) mod 256) = Inr apdu" and "request_datagram apdu net adr = Inr octets"
    and "request build dst net adr arrivals c = (Inr (Some f), c')"
  shows "ok f \<and> network_message f = None \<and> invoke_id f = Inr (Some ((invoke_counter c + 1) mod 256)) \<and>
     pdu_type f \<in> Some ` {PDU_COMPLEX_ACK, PDU_SIMPLE_ACK, PDU_ERROR, PDU_REJECT, PDU_ABORT}"
proof -
  let ?i = "(invoke_counter c + 1) mod 256"
  have "retry_loop ?i (attempt_request octets dst ?i arrivals) 0 (Suc (retries c)) (c\<lparr>invoke_counter := ?i, frames := []\<rparr>) = (Inr (Some f), c')"
    using request_unfold [of build c, OF assms(1,2), of dst arrivals] assms(3) by simp
  from rq.loop_result [OF this] obtain j b where "attempt_request octets dst ?i arrivals j b = (Inr (Some f), c')"
    by blast
  from attempt_request_answer [OF this] show ?thesis
    using answers_True [of ?i f] by auto
qed

theorem answers_match_the_request_witness:
  "\<exists>octets f c'. request_datagram [0, 5, 1, 20] None [] = Inr octets \<and>
     request (\<lambda>i. Inr [0, 5, 1, 20]) (''10.0.0.1'', 47808) None [] (\<lambda>k. [Datagram [0x81, 0x0A, 0, 9, 1, 0, 0x20, 1, 20] (''10.0.0.1'', 47808)])
       \<lparr>sent = [], retry_lines = [], frames = [], invoke_counter = 0, retries = 2\<rparr> = (Inr (Some f), c') \<and>
     invoke_id f = Inr (Some 1)"
proof -
  let ?c = "\<lparr>sent = [], retry_lines = [], frames = [], invoke_counter = 0, retries = 2\<rparr> :: client"
  let ?arr = "\<lambda>k :: nat. [Datagram [0x81, 0x0A, 0, 9, 1, 0, 0x20, 1, 20] (''10.0.0.1'', 47808)]"
  have o: "\<exists>octets. request_datagram [0, 5, 1, 20] None [] = Inr octets"
    by (rule request_datagram_frame [of "[0, 5, 1, 20]"]) auto
  then obtain octets where o: "request_datagram [0, 5, 1, 20] None [] = Inr octets"
    by blast
  have "\<exists>f. decoded (?arr k) = Inr [f] \<and> first_match (answers 1) [f] = Inr (Some f)" for k
    by (simp add: Frame_def initial_frame_def BVLC_FUNCTIONS_WITH_NPDU_def decode_npdu_def answers_def pdu_type_def
        invoke_id_def drop_bit_eq_div)
  then obtain f where f: "\<And>k. decoded (?arr k) = Inr [f]" "first_match (answers 1) [f] = Inr (Some f)"
    by blast
  have "\<exists>c'. retry_loop 1 (attempt_request octets (''10.0.0.1'', 47808) 1 ?arr) 0 (Suc (retries ?c)) (?c\<lparr>invoke_counter := 1, frames := []\<rparr>) = (Inr (Some f), c')"
    by (rule retry_finds [where m = 0]) (use f in auto)
  then obtain c' where r: "request (\<lambda>i. Inr [0, 5, 1, 20]) (''10.0.0.1'', 47808) None [] ?arr ?c = (Inr (Some f), c')"
    using request_unfold [of "\<lambda>i. Inr [0, 5, 1, 20]" ?c "[0, 5, 1, 20]" None "[]" octets "(''10.0.0.1'', 47808)" ?arr] o by auto
  show ?thesis
    using answers_match_the_request [OF _ o r] o r by auto
qed

text \<open>C22. Retries: a request is sent at least once and at most 1 + \<open>retries\<close> times, every time the same octets to
  the same address, and a request that returns without an answer has been sent exactly 1 + \<open>retries\<close> times.\<close>

theorem request_is_resent_unchanged:
  assumes "build ((invoke_counter c + 1) mod 256) = Inr apdu" and "request_datagram apdu net adr = Inr octets"
  shows "\<exists>m. 0 < m \<and> m \<le> 1 + retries c \<and>
     sent (snd (request build dst net adr arrivals c)) = sent c @ replicate m (octets, dst) \<and>
     (fst (request build dst net adr arrivals c) = Inr None \<longrightarrow> m = 1 + retries c)"
  unfolding request_unfold [of build c, OF assms]
  using rq.loop_sends [of "Suc (retries c)" "(invoke_counter c + 1) mod 256" octets dst "(invoke_counter c + 1) mod 256" arrivals 0
      "c\<lparr>invoke_counter := (invoke_counter c + 1) mod 256, frames := []\<rparr>"]
  by auto

theorem request_is_resent_unchanged_witness:
  "\<exists>octets m. request_datagram [0, 5, 1, 20] None [] = Inr octets \<and> 0 < m \<and> m \<le> 3 \<and>
     sent (snd (request (\<lambda>i. Inr [0, 5, 1, 20]) (''10.0.0.1'', 47808) None [] (\<lambda>k. [])
       \<lparr>sent = [], retry_lines = [], frames = [], invoke_counter = 255, retries = 2\<rparr>)) = replicate m (octets, (''10.0.0.1'', 47808))"
proof -
  let ?c = "\<lparr>sent = [], retry_lines = [], frames = [], invoke_counter = 255, retries = 2\<rparr> :: client"
  have "\<exists>octets. request_datagram [0, 5, 1, 20] None [] = Inr octets"
    by (rule request_datagram_frame [of "[0, 5, 1, 20]"]) auto
  then obtain octets where o: "request_datagram [0, 5, 1, 20] None [] = Inr octets"
    by blast
  show ?thesis
    using request_is_resent_unchanged [of "\<lambda>i. Inr [0, 5, 1, 20]" ?c, OF _ o, of "(''10.0.0.1'', 47808)" "\<lambda>k. []"] o by auto
qed

text \<open>C23. Liveness of \<open>Client.request\<close>: if what arrives during attempts 0 to \<open>m\<close> decodes, nothing answers the
  request before attempt \<open>m\<close>, and during it an answer arrives, then the request returns, and returns the first
  answer of that attempt.\<close>

theorem an_answer_that_arrives_is_found:
  assumes "build ((invoke_counter c + 1) mod 256) = Inr apdu" and "request_datagram apdu net adr = Inr octets"
    and "m \<le> retries c"
    and "\<And>j. j < m \<Longrightarrow> \<exists>fs. decoded (arrivals j) = Inr fs \<and> first_match (answers ((invoke_counter c + 1) mod 256)) fs = Inr None"
    and "decoded (arrivals m) = Inr fs" and "first_match (answers ((invoke_counter c + 1) mod 256)) fs = Inr (Some f)"
  shows "\<exists>c'. request build dst net adr arrivals c = (Inr (Some f), c')"
  unfolding request_unfold [of build c, OF assms(1,2)]
proof (rule retry_finds [where m = m])
  fix j assume "j \<le> m"
  then show "\<exists>fs. decoded (arrivals (0 + j)) = Inr fs \<and>
      (if j < m then first_match (answers ((invoke_counter c + 1) mod 256)) fs = Inr None
       else first_match (answers ((invoke_counter c + 1) mod 256)) fs = Inr (Some f))"
    using assms(4) [of j] assms(5,6) by (cases "j < m") auto
qed (use assms(3) in auto)

theorem an_answer_that_arrives_is_found_witness:
  "\<exists>f c'. request (\<lambda>i. Inr [0, 5, 1, 20]) (''10.0.0.1'', 47808) None [] (\<lambda>k. if k = 0 then [ConnectionReset] else [Datagram [0x81, 0x0A, 0, 9, 1, 0, 0x60, 1, 9] (''10.0.0.1'', 47808)])
       \<lparr>sent = [], retry_lines = [], frames = [], invoke_counter = 0, retries = 1\<rparr> = (Inr (Some f), c') \<and>
     reject_reason (Some f) = Some 9"
proof -
  let ?c = "\<lparr>sent = [], retry_lines = [], frames = [], invoke_counter = 0, retries = 1\<rparr> :: client"
  let ?arr = "\<lambda>k :: nat. if k = 0 then [ConnectionReset] else [Datagram [0x81, 0x0A, 0, 9, 1, 0, 0x60, 1, 9] (''10.0.0.1'', 47808)]"
  have "\<exists>octets. request_datagram [0, 5, 1, 20] None [] = Inr octets"
    by (rule request_datagram_frame [of "[0, 5, 1, 20]"]) auto
  then obtain octets where o: "request_datagram [0, 5, 1, 20] None [] = Inr octets"
    by blast
  have "\<exists>f. decoded (?arr 1) = Inr [f] \<and> first_match (answers 1) [f] = Inr (Some f) \<and> reject_reason (Some f) = Some 9"
    by (simp add: Frame_def initial_frame_def BVLC_FUNCTIONS_WITH_NPDU_def decode_npdu_def answers_def pdu_type_def
        invoke_id_def drop_bit_eq_div reject_reason_def reason_octet_def)
  then obtain f where f: "decoded (?arr 1) = Inr [f]" "first_match (answers 1) [f] = Inr (Some f)" "reject_reason (Some f) = Some 9"
    by blast
  have "\<exists>c'. request (\<lambda>i. Inr [0, 5, 1, 20]) (''10.0.0.1'', 47808) None [] ?arr ?c = (Inr (Some f), c')"
    by (rule an_answer_that_arrives_is_found [OF _ o, where m = 1 and fs = "[f]"]) (use f in auto)
  then show ?thesis
    using f(3) by blast
qed



section \<open>Requests, values and frames\<close>

text \<open>C25. \<open>parse_write_property_request\<close> reads back what \<open>write_property_request\<close> writes: object, property,
  optional array index, optional priority, and the value octets exactly, for every value made of whole tags whose
  brackets match.\<close>

theorem write_property_roundtrip:
  assumes "is_octet invoke" and "valid_object_id ot inst" and "is_unsigned p"
    and "pred_option is_unsigned prio" and "pred_option is_unsigned idx" and "well_tagged v"
  shows "bindR (write_property_request invoke ot inst p v prio idx) parse_write_property_request =
     Inr (Some \<lparr>object_type = ot, instance_number = inst, property_identifier = p,
                array_index = idx, value_octets = v, priority = prio\<rparr>)"
  using assms by (rule write_property_request_parses)

theorem write_property_roundtrip_witness:
  "bindR (write_property_request 7 1 2 85 [0x3E, 0x44, 0x42, 0xBE, 0, 0, 0x3F] (Some 8) (Some 3)) parse_write_property_request =
     Inr (Some \<lparr>object_type = 1, instance_number = 2, property_identifier = 85, array_index = Some 3,
                value_octets = [0x3E, 0x44, 0x42, 0xBE, 0, 0, 0x3F], priority = Some 8\<rparr>)"
proof -
  have "well_tagged [0x3E, 0x44, 0x42, 0xBE, 0, 0, 0x3F]"
    by code_simp
  then show ?thesis
    by (intro write_property_roundtrip) (simp_all add: is_octet_def valid_object_id_def is_unsigned_def)
qed



text \<open>C27. COVNotificationMultiple: for every list of monitored objects and reported properties, with or without
  array index and with values of any tagged structure, the parameters written after the production of the standard
  decode to the process identifier, the device and the time remaining, and to the reported values in order, each with
  the object, the property and the array index it was reported for.\<close>

theorem cov_notification_decodes:
  assumes "is_unsigned process" and "valid_object_id (fst dev) (snd dev)" and "is_unsigned remaining"
    and "list_all valid_cov_object reported"
  shows "\<exists>octets. cov_parameters process dev remaining reported = Inr octets \<and>
     (\<forall>f. network_message f = None \<and> payload f = [0x10, 11] @ octets \<longrightarrow> is_cov_notification_multiple f = Inr True \<and>
       CovNotificationMultiple f = Inr (decoded_cov f process dev remaining reported))"
  using cov_parameters_decode [OF assms]
  by (auto simp: is_cov_notification_multiple_def service_def pdu_type_def drop_bit_eq_div)

theorem cov_notification_decodes_witness:
  "\<exists>octets. cov_parameters 5 (8, 900) 60 [(0, 1, [(85, None, [0x44, 0x42, 0xBE, 0, 0]), (111, None, [0x82, 4, 0])]), (2, 7, [(87, Some 8, [0x00])])] = Inr octets \<and>
     (\<forall>f. network_message f = None \<and> payload f = [0x10, 11] @ octets \<longrightarrow> (\<exists>n. CovNotificationMultiple f = Inr n \<and>
       cov_values n = [(Some (0, 1), Some 85, None, [0x44, 0x42, 0xBE, 0, 0]), (Some (0, 1), Some 111, None, [0x82, 4, 0]),
         (Some (2, 7), Some 87, Some 8, [0x00])]))"
proof -
  have "well_tagged [0x44, 0x42, 0xBE, 0, 0]" "well_tagged [0x82, 4, 0]" "well_tagged [0x00]"
    by code_simp+
  then show ?thesis
    using cov_notification_decodes [of 5 "(8, 900)" 60 "[(0, 1, [(85, None, [0x44, 0x42, 0xBE, 0, 0]), (111, None, [0x82, 4, 0])]), (2, 7, [(87, Some 8, [0x00])])]"]
    by (fastforce simp: is_unsigned_def valid_object_id_def valid_cov_object_def valid_entry_def decoded_cov_def reported_values_def entry_value_def)
qed

text \<open>C28. The answer to GetEventInformation, encoded as clause 13.12 lays it out, with any number of events, three time stamps each (a
  date and time, or a sequence number, read as \<open>None\<close>) and any number of priorities: \<open>parse_event_summaries\<close> returns one summary per
  event, in order, with every field, and whether more events follow.\<close>

theorem event_information_is_read:
  assumes "is_octet iid" and "list_all valid_report rs"
  shows "bindR (encode_event_information iid rs further) parse_event_summaries = Inr (map report_summary rs, Some further)"
  using assms by (rule event_information_read)

theorem event_information_is_read_witness:
  "\<exists>r. bindR (encode_event_information 3 [r] True) parse_event_summaries = Inr ([report_summary r], Some True) \<and>
     s_time_stamps (report_summary r) = Some [Some ([126, 9, 15, 2], [8, 30, 0, 0]), None, None]"
proof -
  let ?r = "\<lparr>r_object = (0, 1), r_event_state = 3, r_acked_transitions = [False, True, True],
     r_time_stamps = [DateTime ([126, 9, 15, 2], [8, 30, 0, 0]), SequenceNumber 7, SequenceNumber 300],
     r_notify_type = 0, r_event_enable = [True, True, True], r_priorities = [1, 2, 3]\<rparr>"
  have "valid_report ?r"
    by (simp add: valid_report_def valid_object_id_def is_unsigned_def is_stamp_def)
  then have "bindR (encode_event_information 3 [?r] True) parse_event_summaries = Inr ([report_summary ?r], Some True)"
    using event_information_is_read [of 3 "[?r]" True] by (simp add: is_octet_def)
  then show ?thesis
    by (intro exI [of _ ?r]) (simp add: report_summary_def)
qed

text \<open>C29. The source walks constructed data in four places: inside \<open>read_property_value\<close>, in \<open>_constructed_end\<close> and
  \<open>_constructed_body\<close>, and in \<open>alarm._skip_constructed\<close>. On every input, malformed ones included, they raise the same
  exception or find the same closing tag; in front of a well-tagged value and a closing tag, they return that value and
  the position behind the tag. The two decoders of bit strings agree as well.\<close>

theorem constructed_data_loops_agree:
  "constructed_body octets p = bindR (close_loop octets 1 p p) (\<lambda>(tag_start, after). Inr (py_slice octets p tag_start, after)) \<and>
   constructed_end octets p = bindR (constructed_body octets p) (\<lambda>(_, after). Inr after) \<and>
   skip_constructed octets p = constructed_end octets p \<and> alarm_bits body = bits_of_body body \<and>
   (well_tagged v \<and> drop p octets = v @ closer @ post \<and> encodes closer n c Close b \<longrightarrow>
     constructed_body octets p = Inr (v, p + length v + length closer))"
proof -
  have "constructed_body octets p = bindR (close_loop octets 1 p p) (\<lambda>(tag_start, after). Inr (py_slice octets p tag_start, after))"
    by (simp add: constructed_close)
  moreover have "constructed_end octets p = bindR (constructed_body octets p) (\<lambda>(_, after). Inr after)"
    by (cases "close_loop octets 1 p p") (auto simp: constructed_close)
  ultimately show ?thesis
    using constructed_body_value [of v p octets closer post n c b] by (simp add: skip_constructed_eq alarm_bits_eq)
qed

theorem constructed_data_loops_agree_witness:
  "constructed_body [0x3E, 0x4E, 0x21, 5, 0x4F, 0x3F, 0xFF] 1 = Inr ([0x4E, 0x21, 5, 0x4F], 6)"
proof -
  let ?octets = "[0x3E, 0x4E, 0x21, 5, 0x4F, 0x3F, 0xFF] :: bytes" and ?v = "[0x4E, 0x21, 5, 0x4F] :: bytes"
  have "closing_tag 3 = Inr [0x3F]" and v: "well_tagged ?v"
    by code_simp+
  then have c: "encodes [0x3F] 3 True Close []"
    using closing_tag_ok [of 3] by auto
  have "drop 1 ?octets = ?v @ [0x3F] @ [0xFF]"
    by simp
  with v c have "constructed_body ?octets 1 = Inr (?v, 1 + length ?v + length [0x3F :: octet])"
    using constructed_data_loops_agree by blast
  then show ?thesis
    by simp
qed

text \<open>C30. \<open>Frame\<close> decodes the datagrams \<open>bvlc\<close> and \<open>npdu\<close> write: BVLC function, network layer message, DNET and
  DADR, SNET and SADR, the expecting-reply bit and the payload are those the encoders were given; of a proprietary
  network layer message the first two octets of the payload are taken as the vendor identifier.\<close>

theorem frame_roundtrip:
  assumes "valid_npdu m d da s sa hop" and "length data < 65000"
  shows "\<exists>octets datagram f. npdu data m d da s sa reply_bit hop = Inr octets \<and> bvlc octets broadcast = Inr datagram \<and>
     Frame datagram src = Inr f \<and> ok f \<and> has_npdu f \<and> source f = src \<and>
     bvlc_function f = Some (if broadcast then BVLC_ORIGINAL_BROADCAST else BVLC_ORIGINAL_UNICAST) \<and>
     network_message f = m \<and> dnet f = d \<and> dadr f = (if d = None then [] else da) \<and>
     snet f = s \<and> sadr f = (if s = None then [] else sa) \<and> expecting_reply f = reply_bit \<and>
     payload f = (case m of Some n \<Rightarrow> if n \<ge> 0x80 then drop 2 data else data | None \<Rightarrow> data)"
proof -
  obtain octets where octets: "npdu data m d da s sa reply_bit hop = Inr octets"
    using npdu_shape [OF assms(1)] by blast
  have "length octets \<le> 2 + (3 + length da) + (3 + length sa) + 1 + 1 + length data"
    using octets npdu_shape [OF assms(1), of data reply_bit] address_octets_length [of d da] address_octets_length [of s sa]
    by (auto split: option.splits)
  then have len: "length octets < 65532"
    using assms by (simp add: valid_npdu_def)
  obtain datagram where datagram: "bvlc octets broadcast = Inr datagram"
    using bvll_ok [of BVLC_ORIGINAL_UNICAST octets] bvll_ok [of BVLC_ORIGINAL_BROADCAST octets] len
    by (cases broadcast) (auto simp: bvlc_def is_octet_def)
  show ?thesis
    using octets datagram Frame_bvlc_npdu [OF assms(1) octets datagram len, of src]
    by (auto simp: with_npdu_def initial_frame_def split: option.splits)
qed

theorem frame_roundtrip_witness:
  "\<exists>octets datagram f. npdu [0x10, 0x08] None (Some 65535) [] (Some 5) [1, 2, 3, 4, 0xBA, 0xC0] False 255 = Inr octets \<and>
     bvlc octets True = Inr datagram \<and> Frame datagram (''10.0.0.1'', 47808) = Inr f \<and>
     dnet f = Some 65535 \<and> snet f = Some 5 \<and> sadr f = [1, 2, 3, 4, 0xBA, 0xC0] \<and> payload f = [0x10, 0x08]"
  using frame_roundtrip [of None "Some 65535" "[]" "Some 5" "[1, 2, 3, 4, 0xBA, 0xC0]" 255 "[0x10, 0x08]" False True "(''10.0.0.1'', 47808)"]
  by (auto simp: valid_npdu_def is_octet_def)

text \<open>C31. The bounds of the integer encoders. \<open>_unsigned_octets\<close> succeeds exactly on the values of 32 bits,
  \<open>_signed_octets\<close> exactly on those of 32 bits in two's complement. What they return is one to four octets with that value, and
  no shorter octets have it, as clause 20.2 asks. Outside, a negative unsigned raises \<open>OverflowError\<close> and every other value
  \<open>ValueError\<close>.\<close>

theorem integers_use_the_fewest_octets:
  "(case unsigned_octets v of
      Inr body \<Rightarrow> 0 \<le> v \<and> v < 2 ^ 32 \<and> int_from_bytes body = v \<and> 1 \<le> length body \<and> length body \<le> 4 \<and>
        (\<forall>other. int_from_bytes other = v \<and> other \<noteq> [] \<longrightarrow> length body \<le> length other)
    | Inl e \<Rightarrow> v < 0 \<and> e = OverflowError \<or> 2 ^ 32 \<le> v \<and> e = ValueError) \<and>
   (case signed_octets v of
      Inr body \<Rightarrow> - (2 ^ 31) \<le> v \<and> v < 2 ^ 31 \<and> int_from_bytes_signed body = v \<and> 1 \<le> length body \<and> length body \<le> 4 \<and>
        (\<forall>other. int_from_bytes_signed other = v \<and> other \<noteq> [] \<longrightarrow> length body \<le> length other)
    | Inl e \<Rightarrow> (v < - (2 ^ 31) \<or> 2 ^ 31 \<le> v) \<and> e = ValueError)"
proof (intro conjI)
  show "case unsigned_octets v of
      Inr body \<Rightarrow> 0 \<le> v \<and> v < 2 ^ 32 \<and> int_from_bytes body = v \<and> 1 \<le> length body \<and> length body \<le> 4 \<and>
        (\<forall>other. int_from_bytes other = v \<and> other \<noteq> [] \<longrightarrow> length body \<le> length other)
    | Inl e \<Rightarrow> v < 0 \<and> e = OverflowError \<or> 2 ^ 32 \<le> v \<and> e = ValueError"
  proof (cases "unsigned_octets v")
    case (Inl e)
    then have "\<not> (0 \<le> v \<and> v < 2 ^ 32)"
      by (metis Inl_Inr_False unsigned_octets_iff)
    with Inl show ?thesis
      using unsigned_octets_errors [of v] by auto
  next
    case (Inr body)
    then have "0 \<le> v" "v < 2 ^ 32"
      unfolding unsigned_octets_iff by blast+
    with Inr show ?thesis
      using unsigned_octets_value [OF Inr] unsigned_octets_shortest [OF Inr] by simp
  qed
  show "case signed_octets v of
      Inr body \<Rightarrow> - (2 ^ 31) \<le> v \<and> v < 2 ^ 31 \<and> int_from_bytes_signed body = v \<and> 1 \<le> length body \<and> length body \<le> 4 \<and>
        (\<forall>other. int_from_bytes_signed other = v \<and> other \<noteq> [] \<longrightarrow> length body \<le> length other)
    | Inl e \<Rightarrow> (v < - (2 ^ 31) \<or> 2 ^ 31 \<le> v) \<and> e = ValueError"
  proof (cases "signed_octets v")
    case (Inl e)
    then have "\<not> (- (2 ^ 31) \<le> v \<and> v < 2 ^ 31)"
      by (metis Inl_Inr_False signed_octets_iff)
    with Inl show ?thesis
      using signed_octets_errors [of v] by auto
  next
    case (Inr body)
    then have "- (2 ^ 31) \<le> v" "v < 2 ^ 31"
      unfolding signed_octets_iff by blast+
    with Inr show ?thesis
      using signed_octets_value [OF Inr] signed_octets_shortest [OF Inr] by simp
  qed
qed

theorem integers_use_the_fewest_octets_witness:
  "unsigned_octets 256 = Inr [1, 0] \<and> \<not> (\<exists>b. int_from_bytes [b] = 256) \<and> signed_octets (- 129) = Inr [255, 127] \<and>
     \<not> (\<exists>b. int_from_bytes_signed [b] = - 129)"
proof -
  have u: "unsigned_octets 256 = Inr [1, 0]" and s: "signed_octets (- 129) = Inr [255, 127]"
    by code_simp+
  have "\<forall>other. int_from_bytes other = 256 \<and> other \<noteq> [] \<longrightarrow> length [1, 0 :: octet] \<le> length other"
    using integers_use_the_fewest_octets [of 256, THEN conjunct1] unfolding u by simp
  moreover have "\<forall>other. int_from_bytes_signed other = - 129 \<and> other \<noteq> [] \<longrightarrow> length [255, 127 :: octet] \<le> length other"
    using integers_use_the_fewest_octets [of "- 129", THEN conjunct2] unfolding s by simp
  ultimately show ?thesis
    using u s by (metis One_nat_def Suc_n_not_le_n length_Cons list.distinct(1) list.size(3))
qed

section \<open>Malformed input\<close>


text \<open>C33. On arbitrary octets the three request parsers return, and the only exception that can leave them is
  \<open>ValueError\<close>. That one is reachable: a request in which an application BOOLEAN has the extended length 256 makes
  \<open>read_tag\<close> evaluate \<open>bytes([256])\<close>, which neither parser catches.\<close>

theorem request_parsers_raise_only_value_errors:
  "raises_only {ValueError} (parse_read_property_request apdu) \<and>
   raises_only {ValueError} (parse_read_property_request_indexed apdu) \<and>
   raises_only {ValueError} (parse_write_property_request apdu) \<and>
   parse_read_property_request [0x00, 0x05, 0x01, 0x0C, 0x15, 254, 0x01, 0x00] = Inl ValueError \<and>
   parse_write_property_request [0x00, 0x05, 0x01, 0x0F, 0x15, 254, 0x01, 0x00] = Inl ValueError"
proof (intro conjI)
  show "parse_read_property_request [0x00, 0x05, 0x01, 0x0C, 0x15, 254, 0x01, 0x00] = Inl ValueError"
    by code_simp
  show "parse_write_property_request [0x00, 0x05, 0x01, 0x0F, 0x15, 254, 0x01, 0x00] = Inl ValueError"
    by code_simp
qed (rule raises_parse_read raises_parse_read_indexed raises_parse_write)+

text \<open>C34. The exceptions of the guarded ACK parsers, for any answer whatever: \<open>parse_read_property_multiple_ack\<close> and
  \<open>parse_read_range_ack\<close> can raise \<open>ValueError\<close>, and \<open>IndexError\<close> exactly on a ComplexACK too short to name its service,
  which they never survive; from \<open>parse_atomic_read_file_ack\<close> only \<open>ValueError\<close> can escape.\<close>

theorem ack_parsers_can_raise:
  "(parse_read_property_multiple_ack a = Inl e \<longrightarrow> e = ValueError \<or> e = IndexError \<and> short_ack a) \<and>
   (parse_read_range_ack a = Inl e \<longrightarrow> e = ValueError \<or> e = IndexError \<and> short_ack a) \<and>
   (parse_atomic_read_file_ack a = Inl e \<longrightarrow> e = ValueError) \<and>
   (short_ack a \<longrightarrow> parse_read_property_multiple_ack a = Inl IndexError \<and> parse_read_range_ack a = Inl IndexError)"
  using ack_parser_errors [of a e] short_ack_raises [of a] by blast

theorem ack_parsers_can_raise_witness:
  "\<exists>f. Frame [0x81, 0x0A, 0, 8, 1, 0, 0x30, 1] (''10.0.0.1'', 47808) = Inr f \<and> ok f \<and> parse_read_range_ack (Some f) = Inl IndexError"
proof -
  have "\<exists>f. Frame [0x81, 0x0A, 0, 8, 1, 0, 0x30, 1] (''10.0.0.1'', 47808) = Inr f \<and> ok f \<and> short_ack (Some f)"
    by (simp add: Frame_def initial_frame_def BVLC_FUNCTIONS_WITH_NPDU_def decode_npdu_def short_ack_def pdu_type_def drop_bit_eq_div)
  then show ?thesis
    using ack_parsers_can_raise by blast
qed

text \<open>C35. Two ways a single datagram disables a workstation. \<open>Frame\<close> can raise \<open>struct.error\<close> and \<open>IndexError\<close>, and nothing
  else, and does on an NPDU cut short in an address or before the type of a network layer message; such a datagram ends the background thread:
  nothing that arrives afterwards is kept or acknowledged. An answer APDU of one octet is kept, and from then on every
  request raises \<open>IndexError\<close> while it drops old answers, before it sends anything.\<close>

theorem malformed_datagrams_disable_a_workstation:
  "raises_only {StructError, IndexError} (Frame data src) \<and>
   Frame [0x81, 0x0A, 0x00, 0x06, 0x01, 0x20] src = Inl StructError \<and> Frame [0x81, 0x0A, 0x00, 0x06, 0x01, 0x80] src = Inl IndexError \<and>
   (thread_alive w \<and> Frame data src = Inl e \<longrightarrow>
     fold ws_receive (Datagram data src # arrivals) w = w\<lparr>thread_alive := False\<rparr>) \<and>
   (f \<in> set (responses w) \<and> is_response f \<and> length (payload f) = 1 \<longrightarrow>
     fst (ws_requests rs w) = replicate (length rs) (Inl IndexError) \<and> sent (snd (ws_requests rs w)) = sent w)"
proof -
  have "raises_only {StructError, IndexError} (Frame data src)"
    using Frame_errors [of data src] by (auto simp: raises_only_def split: sum.split)
  moreover have "Frame [0x81, 0x0A, 0x00, 0x06, 0x01, 0x20] src = Inl StructError" "Frame [0x81, 0x0A, 0x00, 0x06, 0x01, 0x80] src = Inl IndexError"
    by (simp_all add: Frame_def decode_npdu_def read_address_def py_slice_def BVLC_FUNCTIONS_WITH_NPDU_def)
  ultimately show ?thesis
    using undecodable_ends_thread [of w data src e arrivals] short_response_blocks_all [of f w rs]
    by (auto simp: short_response_def)
qed

theorem malformed_datagrams_disable_a_workstation_witness:
  "fold ws_receive [Datagram [0x81, 0x0A, 0, 6, 1, 0x20] (''10.0.0.1'', 47808), Datagram [0x81, 0x0A, 0, 9, 1, 0, 0x20, 1, 20] (''10.0.0.1'', 47808)] (Workstation True 0) =
     (Workstation True 0)\<lparr>thread_alive := False\<rparr> \<and>
   (\<exists>f. Frame [0x81, 0x0A, 0, 7, 1, 0, 0x20] (''10.0.0.1'', 47808) = Inr f \<and>
     fst (ws_requests [(\<lambda>i. read_property_request i 8 900 77 None, (''10.0.0.1'', 47808), \<lambda>k. [])] ((Workstation True 0)\<lparr>responses := [f]\<rparr>)) = [Inl IndexError])"
proof -
  have "Frame [0x81, 0x0A, 0, 6, 1, 0x20] (''10.0.0.1'', 47808) = Inl StructError"
    by (simp add: Frame_def decode_npdu_def read_address_def py_slice_def BVLC_FUNCTIONS_WITH_NPDU_def)
  moreover obtain f where f: "Frame [0x81, 0x0A, 0, 7, 1, 0, 0x20] (''10.0.0.1'', 47808) = Inr f" "ok f" "network_message f = None" "payload f = [0x20]"
    by (simp add: Frame_def initial_frame_def BVLC_FUNCTIONS_WITH_NPDU_def decode_npdu_def)
  moreover from f have "is_response f" and "length (payload f) = 1"
    by (simp_all add: is_response_def RESPONSE_TYPES_def pdu_type_def drop_bit_eq_div)
  ultimately show ?thesis
    using malformed_datagrams_disable_a_workstation [where w = "Workstation True 0" and data = "[0x81, 0x0A, 0, 6, 1, 0x20]" and src = "(''10.0.0.1'', 47808)" and e = StructError and arrivals = "[Datagram [0x81, 0x0A, 0, 9, 1, 0, 0x20, 1, 20] (''10.0.0.1'', 47808)]"]
      malformed_datagrams_disable_a_workstation [where w = "(Workstation True 0)\<lparr>responses := [f]\<rparr>" and f = f
        and rs = "[(\<lambda>i. read_property_request i 8 900 77 None, (''10.0.0.1'', 47808), \<lambda>k. [])]"]
    by (simp add: Workstation_def)
qed

section \<open>Starting, waiting, counting and asking\<close>

text \<open>C36. \<open>start\<close> leaves no child behind. If a sleep advances the clock, then after at most as many sleeps as there are
  intervals in the seconds, rounded up, either the console has shown \<open>ready\<close> before the deadline and the program is
  returned, started with the arguments given, or the test is ended by \<open>SystemExit\<close> with the console printed and the child
  exited, whether it took the \<open>q\<close>, did not react to it, or had closed its pipe. The wait never went on after a look
  that found the text or an exited child, and stopping again changes nothing.\<close>

theorem example_is_ready_or_stopped:
  assumes "Program resolve starts environ exe arguments label extra = Inr p"
    and "0 < interval" and "clock 0 \<le> clock 1" and "\<And>k. clock (Suc k) + interval \<le> clock (Suc (Suc k))"
  shows "\<exists>n \<le> turns seconds interval. \<exists>q left.
     start (Program resolve starts environ exe arguments label extra) os console last_console clock exited seconds final gone =
       Some (if found_ready console last_console clock seconds n then (Inr q, [], Some q) else (Inl SystemExit, [final], Some left)) \<and>
     command_line q = resolve exe # map str_argument arguments \<and> program_label q = label \<and>
     child_process left = Exited \<and> stop again left = (Inr (), left) \<and>
     (\<forall>j < n. \<not> contains_text (console j) ready_text \<and> \<not> exited j)"
proof -
  let ?q = "if gone then p\<lparr>child_process := Exited\<rparr> else p"
  have p: "command_line ?q = resolve exe # map str_argument arguments" "program_label ?q = label"
    using assms(1) by (auto simp: Program_def Let_def split: if_splits)
  obtain left where "stop os ?q = (Inr (), left)" "child_process left = Exited" "stop again left = (Inr (), left)"
    using stop_ends by blast
  then show ?thesis
    using start_created [where p = p and gone = gone and os = os and console = console and last_console = last_console
        and clock = clock and exited = exited and seconds = seconds and final = final, OF assms(2-4)] p
    unfolding assms(1) by (metis snd_conv)
qed

theorem example_is_ready_or_stopped_witness:
  "\<exists>left. start (Program (\<lambda>path. ''/'' @ path) (\<lambda>argv. True) Map.empty ''example'' [NumberArgument 7] ''B-ASC'' [])
         \<lparr>pipe_takes = \<lambda>b k. True, exits_in_time = \<lambda>k. False\<rparr>
         (\<lambda>k. []) (\<lambda>k. []) (\<lambda>k. 100 * int k) (\<lambda>k. False) 20000 ''console'' False = Some (Inl SystemExit, [''console''], Some left) \<and>
     child_process left = Exited"
proof -
  let ?created = "Program (\<lambda>path. ''/'' @ path) (\<lambda>argv. True) Map.empty ''example'' [NumberArgument 7] ''B-ASC'' []"
  let ?os = "\<lparr>pipe_takes = \<lambda>b k. True, exits_in_time = \<lambda>k. False\<rparr>"
  obtain p where p: "?created = Inr p"
    by (simp add: Program_def)
  have "\<not> found_ready (\<lambda>k. []) (\<lambda>k. []) (\<lambda>k. 100 * int k) 20000 n" for n
    by (simp add: found_ready_def contains_text_def find_text_def)
  moreover obtain n q left where "start ?created ?os (\<lambda>k. []) (\<lambda>k. []) (\<lambda>k. 100 * int k) (\<lambda>k. False) 20000 ''console'' False =
      Some (if found_ready (\<lambda>k. []) (\<lambda>k. []) (\<lambda>k. 100 * int k) 20000 n then (Inr q, [], Some q) else (Inl SystemExit, [''console''], Some left))"
      "child_process left = Exited"
    using example_is_ready_or_stopped [OF p, of 100 "\<lambda>k. 100 * int k" 20000 ?os "\<lambda>k. []" "\<lambda>k. []" "\<lambda>k. False" "''console''" False ?os]
    by auto
  ultimately show ?thesis
    by auto
qed

text \<open>C37. The polling waits return. If the clock does not run backwards and a sleep of one interval advances it by at
  least that much, then \<open>wait_until\<close>, \<open>Program.wait_for_text\<close> and \<open>Program.wait_for_output\<close> return after at most as many
  sleeps as there are intervals in the seconds given, rounded up. What is returned is the outcome of the last look: the last
  result of \<open>check\<close>, every earlier one being falsy; the offset past the first occurrence of the text at or after
  \<open>after\<close>, or \<open>None\<close> only when the deadline has passed or the program has exited; whether the text is in the console.\<close>

theorem polling_waits_end:
  assumes "0 < interval" and "clock 0 \<le> clock 1" and "\<And>k. clock (Suc k) + interval \<le> clock (Suc (Suc k))"
  shows "(\<exists>n \<le> turns seconds interval. wait_until check truthy clock seconds = Some (check n, n) \<and>
       (truthy (check n) \<or> clock 0 + seconds \<le> clock (Suc n)) \<and>
       (\<forall>j < n. \<not> truthy (check j) \<and> clock (Suc j) < clock 0 + seconds)) \<and>
     (\<exists>n \<le> turns seconds interval.
       wait_for_text t after console clock exited seconds =
         Some (map_option (\<lambda>found. found + length t) (find_text (console n) t after)) \<and>
       (find_text (console n) t after = None \<longrightarrow> exited n \<or> clock 0 + seconds \<le> clock (Suc n)) \<and>
       (\<forall>j < n. find_text (console j) t after = None)) \<and>
     (\<exists>n \<le> turns seconds interval.
       wait_for_output t console last_console clock exited seconds =
         Some (clock (Suc n) < clock 0 + seconds \<and> (contains_text (console n) t \<or> contains_text (last_console n) t)) \<and>
       (clock 0 + seconds \<le> clock (Suc n) \<or> contains_text (console n) t \<or> exited n) \<and>
       (\<forall>j < n. \<not> contains_text (console j) t \<and> \<not> exited j))"
  by (intro conjI wait_until_ends [OF assms] wait_for_text_ends [OF assms] wait_for_output_ends [OF assms])

theorem polling_waits_end_witness:
  "\<exists>n \<le> 100. wait_until (\<lambda>k. k) (\<lambda>k. k = 7) (\<lambda>k. 200 * int k) 20000 = Some (n, n) \<and> (n = 7 \<or> 20000 \<le> 200 * int (Suc n))"
proof -
  have "\<exists>n \<le> turns 20000 200. wait_until (\<lambda>k. k) (\<lambda>k. k = 7) (\<lambda>k. 200 * int k) 20000 = Some (n, n) \<and>
      (n = 7 \<or> 200 * int 0 + 20000 \<le> 200 * int (Suc n)) \<and> (\<forall>j < n. \<not> j = 7 \<and> 200 * int (Suc j) < 200 * int 0 + 20000)"
    by (rule polling_waits_end [of 200 "\<lambda>k. 200 * int k" 20000 "\<lambda>k. k" "\<lambda>k. k = 7" "[]" 0 "\<lambda>k. []" "\<lambda>k. False" "\<lambda>k. []", THEN conjunct1]) simp_all
  then show ?thesis
    by (auto simp: turns_def)
qed

text \<open>C38. \<open>IAmBroadcasts.watch\<close> counts heartbeats. Whatever the console and the listener held before is not counted; in the
  console, the number of matches of the regular expression, found by repeated search over the whole text, is the number of lines
  printed since in which it matches somewhere, so a line counts once however often \<open>I-Am\<close> is in it; on the wire, it is the
  number of frames received since that are I-Ams of the device, and \<open>None\<close> without a listener.\<close>

theorem heartbeats_are_counted:
  assumes "decoded queued_before = Inr gs" and "decoded arriving = Inr fs" and "count_i_am (iam_instance b) fs = Inr n"
  shows "fst (iam_watch before queued_before (before @ later) arriving b) =
     Inr (map_option (\<lambda>_. n) (iam_listener b),
       length (filter (line_matches (console_line (iam_port b))) (lines_of later)))"
  using assms by (rule iam_watch_counts)

theorem heartbeats_are_counted_witness:
  "\<exists>b. iam_listener b \<noteq> None \<and>
     fst (iam_watch ''ready'' [] (''ready'' @ ''TX 21 bytes to 10.0.0.255:80 (broadcast) - I-Am, I-Am'')
       [Datagram [0x81, 0x0B, 0, 13, 1, 0, 0x10, 0, 0xC4, 2, 0, 3, 0x84] (''10.0.0.1'', 47808)] b) = Inr (Some 1, 1)"
proof -
  let ?b = "\<lparr>iam_port = 80, iam_instance = 900, iam_listener = Some Endpoint, console_offset = 0\<rparr>"
  let ?later = "''TX 21 bytes to 10.0.0.255:80 (broadcast) - I-Am, I-Am''"
  obtain f where f: "Frame [0x81, 0x0B, 0, 13, 1, 0, 0x10, 0, 0xC4, 2, 0, 3, 0x84] (''10.0.0.1'', 47808) = Inr f" "payload f = [0x10, 0, 0xC4, 2, 0, 3, 0x84]"
    by (simp add: Frame_def initial_frame_def BVLC_FUNCTIONS_WITH_NPDU_def decode_npdu_def)
  have "i_am_device_instance [0x10, 0, 0xC4, 2, 0, 3, 0x84] = Inr (Some 900)"
    by code_simp
  then have "count_i_am (iam_instance ?b) [f] = Inr 1"
    using f(2) by simp
  moreover have "decoded [Datagram [0x81, 0x0B, 0, 13, 1, 0, 0x10, 0, 0xC4, 2, 0, 3, 0x84] (''10.0.0.1'', 47808)] = Inr [f]"
    using f(1) by simp
  moreover have "lines_of ?later = [?later]"
    by (intro lines_of_line) (simp add: newline_def)
  moreover have "line_matches (console_line 80) ?later"
    by code_simp
  ultimately have "fst (iam_watch ''ready'' [] (''ready'' @ ?later)
       [Datagram [0x81, 0x0B, 0, 13, 1, 0, 0x10, 0, 0xC4, 2, 0, 3, 0x84] (''10.0.0.1'', 47808)] ?b) = Inr (Some 1, 1)"
    using heartbeats_are_counted [of "[]" "[]" _ "[f]" ?b 1 "''ready''" ?later] by simp
  then show ?thesis
    by (intro exI [of _ ?b]) simp
qed

text \<open>C39. \<open>SimulationControl.ask\<close>: an ASCII command is sent, unchanged, once per attempt, at least once and at most
  1 + \<open>retries\<close> times, with a \<open>[RETRY]\<close> line for every attempt but the first, and exactly 1 + \<open>retries\<close> times when there is no answer.
  When no connection reset is queued in front of the command, the answer is the text of a datagram that arrived during the
  attempts; behind one, a queued answer to an earlier command is returned.\<close>

theorem control_answers_are_to_this_command:
  assumes "ascii_encode cmd = Inr octets"
  shows "\<exists>m r t. ask cmd arriving c = (Inr r, t) \<and> 0 < m \<and> m \<le> 1 + control_retries c \<and>
     commands_sent t = commands_sent c @ replicate m octets \<and>
     control_retry_lines t = control_retry_lines c + (m - 1) \<and> (r = None \<longrightarrow> m = 1 + control_retries c) \<and>
     (ConnectionReset \<notin> set (queued c) \<longrightarrow> set_option r \<subseteq> (\<Union>j < m. heard (arriving j))) \<and>
     (\<forall>late src q. queued c = ConnectionReset # Datagram late src # q \<longrightarrow> r = Some (ascii_decode_replace (take 512 late)))"
proof -
  obtain m r t where a: "ask cmd arriving c = (Inr r, t)" "0 < m" "m \<le> 1 + control_retries c"
      "commands_sent t = commands_sent c @ replicate m octets" "control_retry_lines t = control_retry_lines c + (m - 1)"
      "r = None \<longrightarrow> m = 1 + control_retries c" "set_option r \<subseteq> heard (drained (queued c)) \<union> (\<Union>j < m. heard (arriving j))"
    using ask_spec [OF assms, of arriving c] by (elim exE conjE) (rule that)
  have late: "r = Some (ascii_decode_replace (take 512 late))" if "queued c = ConnectionReset # Datagram late src # q" for late src q
    using drain_stops_at_a_reset [OF assms that, of arriving] a(1) by simp
  have "ConnectionReset \<notin> set (queued c) \<longrightarrow> set_option r \<subseteq> (\<Union>j < m. heard (arriving j))"
    using a(7) drained_all [of "queued c"] by auto
  then show ?thesis
    using a(1-6) late by (intro exI [of _ m] exI [of _ r] exI [of _ t] conjI allI impI) simp_all
qed

theorem control_answers_are_to_this_command_witness:
  "\<exists>m r t. ask [0x73] (\<lambda>k. if k = 1 then [Datagram [0x6F, 0x6B] (''10.0.0.1'', 47808)] else [])
       \<lparr>control_retries = 2, queued = [Datagram [0x6E, 0x6F] (''10.0.0.1'', 47808)], commands_sent = [], control_retry_lines = 0\<rparr> = (Inr r, t) \<and>
     commands_sent t = replicate m [0x73] \<and> set_option r \<subseteq> {[0x6F, 0x6B]}"
proof -
  have "ascii_encode [0x73] = Inr [0x73]"
    by code_simp
  let ?arriving = "\<lambda>k :: nat. if k = 1 then [Datagram [0x6F, 0x6B] (''10.0.0.1'', 47808)] else []"
  obtain m r t where t: "ask [0x73] ?arriving
      \<lparr>control_retries = 2, queued = [Datagram [0x6E, 0x6F] (''10.0.0.1'', 47808)], commands_sent = [], control_retry_lines = 0\<rparr> = (Inr r, t)"
      "commands_sent t = replicate m [0x73]" "set_option r \<subseteq> (\<Union>j < m. heard (?arriving j))"
    using control_answers_are_to_this_command [OF \<open>ascii_encode [0x73] = Inr [0x73]\<close>, of ?arriving
      "\<lparr>control_retries = 2, queued = [Datagram [0x6E, 0x6F] (''10.0.0.1'', 47808)], commands_sent = [], control_retry_lines = 0\<rparr>"] by auto
  have "heard (?arriving j) \<subseteq> {[0x6F, 0x6B]}" for j
    by (simp add: ascii_decode_replace_def)
  then show ?thesis
    using t by (intro exI [of _ m] exI [of _ r] exI [of _ t]) blast
qed

text \<open>C40. The exit code of a test: after any sequence of calls of \<open>record\<close> and \<open>known_gap\<close>, \<open>summary\<close> returns 0 exactly when
  at least one requirement was recorded and every recorded one passed; the totals count the recorded requirements and the open
  gaps, and a gap, open or closed, never changes the code.\<close>

theorem exit_code_reports_the_records:
  "\<exists>t. results_run calls \<lparr>RESULTS = [], GAPS = [], printed = []\<rparr> = (Inr (), t) \<and>
     (results_summary t = 0 \<longleftrightarrow> recorded calls \<noteq> [] \<and> False \<notin> set (recorded calls)) \<and>
     totals t = (length (filter id (recorded calls)), length (recorded calls), length (open_gaps calls))"
proof -
  obtain t where "results_run calls \<lparr>RESULTS = [], GAPS = [], printed = []\<rparr> = (Inr (), t)" "RESULTS t = recorded calls"
      "GAPS t = open_gaps calls"
    using results_run_spec [of calls "\<lparr>RESULTS = [], GAPS = [], printed = []\<rparr>"] by auto
  then show ?thesis
    by (auto simp: results_summary_def totals_def list_all_iff)
qed

end
